(* ===== verification/Pib_Prelude.thy ===== *)
theory Pib_Prelude
  imports Main "HOL-Library.Word"
begin

text \<open>
  Shared vocabulary of the development: the machine integers of the driver, the error
  numbers its verbs return, the fact collections the component theories extend, and the
  generic facts on lists, words and byte strings that several components use.

  A C pointer to a kernel object is a key of the heap of that object's type
  (\<open>Pib_State\<close>); a pointer that may be \<^verbatim>\<open>NULL\<close> is an \<open>option\<close>.  A list of
  \<^verbatim>\<open>linux/list.h\<close> is a HOL list of the structures linked in it: \<^verbatim>\<open>list_add_tail\<close> appends,
  \<^verbatim>\<open>list_add\<close> conses, \<^verbatim>\<open>list_first_entry\<close> is the head, \<^verbatim>\<open>list_del_init\<close> removes.
\<close>

unbundle bit_operations_syntax

section \<open>Fact collections\<close>

named_theorems pib_frame
  \<open>fields that an operation leaves alone, as rewrite rules\<close>
named_theorems pib_inv
  \<open>an operation keeps the invariant of its component\<close>

section \<open>Machine integers and error numbers\<close>

type_synonym u8 = "8 word"
type_synonym u16 = "16 word"
type_synonym u32 = "32 word"
type_synonym u64 = "64 word"

datatype errno =
    EPERM | ENOENT | EACCES | EBUSY | EINVAL | ENOMEM | EFAULT | EMSGSIZE | ENOSYS

text \<open>The C idiom \<^verbatim>\<open>flags & BIT\<close> used as a truth value.\<close>

abbreviation flag_set :: "'a::len word \<Rightarrow> 'a word \<Rightarrow> bool" where
  "flag_set flags b \<equiv> flags AND b \<noteq> 0"

text \<open>\<^verbatim>\<open>linux/jiffies.h\<close>: the comparisons of times that may wrap around.\<close>

definition time_after :: "u64 \<Rightarrow> u64 \<Rightarrow> bool" where
  "time_after a b \<longleftrightarrow> sint (b - a) < 0"

definition time_before :: "u64 \<Rightarrow> u64 \<Rightarrow> bool" where
  "time_before a b \<longleftrightarrow> time_after b a"

definition time_before_eq :: "u64 \<Rightarrow> u64 \<Rightarrow> bool" where
  "time_before_eq a b \<longleftrightarrow> 0 \<le> sint (b - a)"

section \<open>Words as numbers\<close>

lemma unat_less_exp: "unat (w :: 'a::len word) < 2 ^ LENGTH('a)"
  by (rule unsigned_less)

lemma unat_add_no_overflow:
  fixes a b :: "'a::len word"
  assumes "unat a + unat b < 2 ^ LENGTH('a)"
  shows "unat (a + b) = unat a + unat b"
  using assms by (simp add: unat_word_ariths)

lemma unat_drop_bit: "unat (drop_bit n (w :: 'a::len word)) = unat w div 2 ^ n"
  by (simp only: unsigned_drop_bit_eq)
     (simp add: drop_bit_eq_div take_bit_nat_eq_self [OF unat_less_exp])

lemma unat_of_nat_small:
  assumes "n < 2 ^ LENGTH('a)"
  shows "unat (of_nat n :: 'a::len word) = n"
  using assms by (simp add: unsigned_of_nat take_bit_nat_eq_self_iff)

section \<open>Big-endian byte strings\<close>

text \<open>
  The multi-byte fields of the packet headers travel in network order
  (\<^verbatim>\<open>cpu_to_be16/32/64\<close> on the way out, \<^verbatim>\<open>be16/32/64_to_cpu\<close> on the way in).
\<close>

fun bytes_be :: "nat \<Rightarrow> 'a::len word \<Rightarrow> u8 list" where
  "bytes_be 0 w = []"
| "bytes_be (Suc n) w = ucast (drop_bit (8 * n) w) # bytes_be n w"

fun word_be_acc :: "'a::len word \<Rightarrow> u8 list \<Rightarrow> 'a word" where
  "word_be_acc acc [] = acc"
| "word_be_acc acc (b # bs) = word_be_acc (push_bit 8 acc OR ucast b) bs"

definition word_be :: "u8 list \<Rightarrow> 'a::len word" where
  "word_be bs = word_be_acc 0 bs"

lemma length_bytes_be [simp]: "length (bytes_be n w) = n"
  by (induction n) auto

text \<open>
  Reading back the \<open>n\<close> low bytes of a word behind an accumulator.
\<close>

lemma word_be_acc_bytes_be:
  fixes w acc :: "'a::len word"
  assumes "8 * n \<le> LENGTH('a)"
  shows "word_be_acc acc (bytes_be n w) = push_bit (8 * n) acc OR take_bit (8 * n) w"
  using assms
proof (induction n arbitrary: acc)
  case 0
  then show ?case by simp
next
  case (Suc n)
  let ?acc = "push_bit 8 acc OR ucast (ucast (drop_bit (8 * n) w) :: u8)"
  have "word_be_acc ?acc (bytes_be n w) = push_bit (8 * n) ?acc OR take_bit (8 * n) w"
    using Suc by simp
  also have "\<dots> = push_bit (8 * Suc n) acc OR take_bit (8 * Suc n) w"
  proof (rule bit_word_eqI)
    fix i
    assume i: "i < LENGTH('a)"
    show "bit (push_bit (8 * n) ?acc OR take_bit (8 * n) w) i =
          bit (push_bit (8 * Suc n) acc OR take_bit (8 * Suc n) w) i"
      using i Suc.prems
      by (auto simp: bit_simps less_diff_conv2 add.commute)
  qed
  finally show ?case by simp
qed

lemma word_be_bytes_be:
  fixes w :: "'a::len word"
  assumes "8 * n = LENGTH('a)"
  shows "word_be (bytes_be n w) = w"
  using assms by (simp add: word_be_def word_be_acc_bytes_be)

lemma word_be_bytes_be_16 [simp]: "word_be (bytes_be 2 (w :: u16)) = w"
  by (rule word_be_bytes_be) simp

lemma word_be_bytes_be_32 [simp]: "word_be (bytes_be 4 (w :: u32)) = w"
  by (rule word_be_bytes_be) simp

lemma word_be_bytes_be_64 [simp]: "word_be (bytes_be 8 (w :: u64)) = w"
  by (rule word_be_bytes_be) simp

text \<open>
  The fields of a packed structure: \<open>n\<close> bytes at an offset.
\<close>

definition field_at :: "nat \<Rightarrow> nat \<Rightarrow> 'b list \<Rightarrow> 'b list" where
  "field_at off n bs = take n (drop off bs)"

lemma field_at_append_skip [simp]:
  "length xs \<le> off \<Longrightarrow> field_at off n (xs @ ys) = field_at (off - length xs) n ys"
  by (simp add: field_at_def)

lemma field_at_Cons [simp]: "0 < off \<Longrightarrow> field_at off n (x # xs) = field_at (off - 1) n xs"
  by (simp add: field_at_def drop_Cons')

lemma field_at_append_here [simp]:
  "length xs = n \<Longrightarrow> field_at 0 n (xs @ ys) = xs"
  by (simp add: field_at_def)

lemma field_at_all [simp]: "length xs = n \<Longrightarrow> field_at 0 n xs = xs"
  by (simp add: field_at_def)

end
