(* ===== verification/Pib_Lib.thy ===== *)
theory Pib_Lib
  imports Pib_Prelude
begin

text \<open>
  \<^verbatim>\<open>driver/pib_lib.c\<close> and the constants of \<^verbatim>\<open>driver/pib.h\<close> and \<^verbatim>\<open>driver/pib_packet.h\<close>: the
  wire opcodes and the automaton that checks their order, the number of packets of a
  message, the RNR NAK and local ACK timer tables, the classification of LIDs, and the
  arithmetic on 24-bit packet sequence numbers (\<^verbatim>\<open>get_psn_diff\<close> of \<^verbatim>\<open>pib_rc.c\<close>).

  Shown here: \<^verbatim>\<open>get_psn_diff\<close> is the signed distance modulo \<open>2 ^ 24\<close>; the packet count is
  the rounded-up quotient and at least one; the opcode automaton accepts exactly the
  framing of messages.

  The driver indexes the 21-element table \<^verbatim>\<open>attr_OpCode\<close> with any 8-bit opcode.  What lies
  behind the array is a parameter \<open>oob\<close> of the definitions that read it.
\<close>

section \<open>Enumerations of the verbs interface\<close>

datatype ib_qp_state =
    IB_QPS_RESET | IB_QPS_INIT | IB_QPS_RTR | IB_QPS_RTS | IB_QPS_SQD | IB_QPS_SQE | IB_QPS_ERR

datatype ib_qp_type =
    IB_QPT_SMI | IB_QPT_GSI | IB_QPT_RC | IB_QPT_UC | IB_QPT_UD
  | IB_QPT_RAW_IPV6 | IB_QPT_RAW_ETHERTYPE | IB_QPT_RAW_PACKET | IB_QPT_XRC_INI | IB_QPT_XRC_TGT

datatype ib_wr_opcode =
    IB_WR_RDMA_WRITE | IB_WR_RDMA_WRITE_WITH_IMM | IB_WR_SEND | IB_WR_SEND_WITH_IMM
  | IB_WR_RDMA_READ | IB_WR_ATOMIC_CMP_AND_SWP | IB_WR_ATOMIC_FETCH_AND_ADD | IB_WR_LSO
  | IB_WR_SEND_WITH_INV | IB_WR_RDMA_READ_WITH_INV | IB_WR_LOCAL_INV | IB_WR_FAST_REG_MR
  | IB_WR_MASKED_ATOMIC_CMP_AND_SWP | IB_WR_MASKED_ATOMIC_FETCH_AND_ADD | IB_WR_BIND_MW

text \<open>
  \<^verbatim>\<open>enum ib_wr_opcode\<close> as a C integer: the driver stores it where an \<^verbatim>\<open>enum ib_wc_opcode\<close>
  is declared.  Completion opcodes are therefore kept as integers.
\<close>

fun ib_wr_opcode_num :: "ib_wr_opcode \<Rightarrow> u32" where
  "ib_wr_opcode_num IB_WR_RDMA_WRITE = 0"
| "ib_wr_opcode_num IB_WR_RDMA_WRITE_WITH_IMM = 1"
| "ib_wr_opcode_num IB_WR_SEND = 2"
| "ib_wr_opcode_num IB_WR_SEND_WITH_IMM = 3"
| "ib_wr_opcode_num IB_WR_RDMA_READ = 4"
| "ib_wr_opcode_num IB_WR_ATOMIC_CMP_AND_SWP = 5"
| "ib_wr_opcode_num IB_WR_ATOMIC_FETCH_AND_ADD = 6"
| "ib_wr_opcode_num IB_WR_LSO = 7"
| "ib_wr_opcode_num IB_WR_SEND_WITH_INV = 8"
| "ib_wr_opcode_num IB_WR_RDMA_READ_WITH_INV = 9"
| "ib_wr_opcode_num IB_WR_LOCAL_INV = 10"
| "ib_wr_opcode_num IB_WR_FAST_REG_MR = 11"
| "ib_wr_opcode_num IB_WR_MASKED_ATOMIC_CMP_AND_SWP = 12"
| "ib_wr_opcode_num IB_WR_MASKED_ATOMIC_FETCH_AND_ADD = 13"
| "ib_wr_opcode_num IB_WR_BIND_MW = 14"

abbreviation (input) "IB_WC_SEND \<equiv> (0 :: u32)"
abbreviation (input) "IB_WC_RDMA_WRITE \<equiv> (1 :: u32)"
abbreviation (input) "IB_WC_RDMA_READ \<equiv> (2 :: u32)"
abbreviation (input) "IB_WC_COMP_SWAP \<equiv> (3 :: u32)"
abbreviation (input) "IB_WC_FETCH_ADD \<equiv> (4 :: u32)"
abbreviation (input) "IB_WC_BIND_MW \<equiv> (5 :: u32)"
abbreviation (input) "IB_WC_LSO \<equiv> (6 :: u32)"
abbreviation (input) "IB_WC_LOCAL_INV \<equiv> (7 :: u32)"
abbreviation (input) "IB_WC_FAST_REG_MR \<equiv> (8 :: u32)"
abbreviation (input) "IB_WC_MASKED_COMP_SWAP \<equiv> (9 :: u32)"
abbreviation (input) "IB_WC_MASKED_FETCH_ADD \<equiv> (10 :: u32)"
abbreviation (input) "IB_WC_RECV \<equiv> (128 :: u32)"
abbreviation (input) "IB_WC_RECV_RDMA_WITH_IMM \<equiv> (129 :: u32)"

datatype ib_wc_status =
    IB_WC_SUCCESS | IB_WC_LOC_LEN_ERR | IB_WC_LOC_QP_OP_ERR | IB_WC_LOC_EEC_OP_ERR
  | IB_WC_LOC_PROT_ERR | IB_WC_WR_FLUSH_ERR | IB_WC_MW_BIND_ERR | IB_WC_BAD_RESP_ERR
  | IB_WC_LOC_ACCESS_ERR | IB_WC_REM_INV_REQ_ERR | IB_WC_REM_ACCESS_ERR | IB_WC_REM_OP_ERR
  | IB_WC_RETRY_EXC_ERR | IB_WC_RNR_RETRY_EXC_ERR | IB_WC_LOC_RDD_VIOL_ERR
  | IB_WC_REM_INV_RD_REQ_ERR | IB_WC_REM_ABORT_ERR | IB_WC_INV_EECN_ERR
  | IB_WC_INV_EEC_STATE_ERR | IB_WC_FATAL_ERR | IB_WC_RESP_TIMEOUT_ERR | IB_WC_GENERAL_ERR

section \<open>Wire opcodes\<close>

abbreviation (input) "IB_OPCODE_SEND_FIRST \<equiv> (0x00 :: u8)"
abbreviation (input) "IB_OPCODE_SEND_MIDDLE \<equiv> (0x01 :: u8)"
abbreviation (input) "IB_OPCODE_SEND_LAST \<equiv> (0x02 :: u8)"
abbreviation (input) "IB_OPCODE_SEND_LAST_WITH_IMMEDIATE \<equiv> (0x03 :: u8)"
abbreviation (input) "IB_OPCODE_SEND_ONLY \<equiv> (0x04 :: u8)"
abbreviation (input) "IB_OPCODE_SEND_ONLY_WITH_IMMEDIATE \<equiv> (0x05 :: u8)"
abbreviation (input) "IB_OPCODE_RDMA_WRITE_FIRST \<equiv> (0x06 :: u8)"
abbreviation (input) "IB_OPCODE_RDMA_WRITE_MIDDLE \<equiv> (0x07 :: u8)"
abbreviation (input) "IB_OPCODE_RDMA_WRITE_LAST \<equiv> (0x08 :: u8)"
abbreviation (input) "IB_OPCODE_RDMA_WRITE_LAST_WITH_IMMEDIATE \<equiv> (0x09 :: u8)"
abbreviation (input) "IB_OPCODE_RDMA_WRITE_ONLY \<equiv> (0x0a :: u8)"
abbreviation (input) "IB_OPCODE_RDMA_WRITE_ONLY_WITH_IMMEDIATE \<equiv> (0x0b :: u8)"
abbreviation (input) "IB_OPCODE_RDMA_READ_REQUEST \<equiv> (0x0c :: u8)"
abbreviation (input) "IB_OPCODE_RDMA_READ_RESPONSE_FIRST \<equiv> (0x0d :: u8)"
abbreviation (input) "IB_OPCODE_RDMA_READ_RESPONSE_MIDDLE \<equiv> (0x0e :: u8)"
abbreviation (input) "IB_OPCODE_RDMA_READ_RESPONSE_LAST \<equiv> (0x0f :: u8)"
abbreviation (input) "IB_OPCODE_RDMA_READ_RESPONSE_ONLY \<equiv> (0x10 :: u8)"
abbreviation (input) "IB_OPCODE_ACKNOWLEDGE \<equiv> (0x11 :: u8)"
abbreviation (input) "IB_OPCODE_ATOMIC_ACKNOWLEDGE \<equiv> (0x12 :: u8)"
abbreviation (input) "IB_OPCODE_COMPARE_SWAP \<equiv> (0x13 :: u8)"
abbreviation (input) "IB_OPCODE_FETCH_ADD \<equiv> (0x14 :: u8)"
abbreviation (input) "IB_OPCODE_SEND_LAST_WITH_INVALIDATE \<equiv> (0x16 :: u8)"
abbreviation (input) "IB_OPCODE_SEND_ONLY_WITH_INVALIDATE \<equiv> (0x17 :: u8)"
abbreviation (input) "IB_OPCODE_UD_SEND_ONLY \<equiv> (0x64 :: u8)"
abbreviation (input) "IB_OPCODE_UD_SEND_ONLY_WITH_IMMEDIATE \<equiv> (0x65 :: u8)"
abbreviation (input) "PIB_OPCODE_CNP_SEND_NOTIFY \<equiv> (0x80 :: u8)"

abbreviation (input) "PIB_STARTING_OPCODE \<equiv> (0x1 :: u32)"
abbreviation (input) "PIB_MIDDLE_OPCODE \<equiv> (0x2 :: u32)"
abbreviation (input) "PIB_ENDING_OPCODE \<equiv> (0x4 :: u32)"
abbreviation (input) "PIB_ACKNOWLEDGE_OPCODE \<equiv> (0x8 :: u32)"

definition attr_OpCode_table :: "u32 list" where
  "attr_OpCode_table =
    [PIB_STARTING_OPCODE,
     PIB_MIDDLE_OPCODE,
     PIB_ENDING_OPCODE,
     PIB_ENDING_OPCODE,
     PIB_STARTING_OPCODE OR PIB_ENDING_OPCODE,
     PIB_STARTING_OPCODE OR PIB_ENDING_OPCODE,
     PIB_STARTING_OPCODE,
     PIB_MIDDLE_OPCODE,
     PIB_ENDING_OPCODE,
     PIB_ENDING_OPCODE,
     PIB_STARTING_OPCODE OR PIB_ENDING_OPCODE,
     PIB_STARTING_OPCODE OR PIB_ENDING_OPCODE,
     PIB_STARTING_OPCODE OR PIB_ENDING_OPCODE,
     PIB_ACKNOWLEDGE_OPCODE,
     PIB_ACKNOWLEDGE_OPCODE,
     PIB_ACKNOWLEDGE_OPCODE,
     PIB_ACKNOWLEDGE_OPCODE,
     PIB_ACKNOWLEDGE_OPCODE,
     PIB_ACKNOWLEDGE_OPCODE,
     PIB_STARTING_OPCODE OR PIB_ENDING_OPCODE,
     PIB_STARTING_OPCODE OR PIB_ENDING_OPCODE]"

definition attr_OpCode :: "(u8 \<Rightarrow> u32) \<Rightarrow> u8 \<Rightarrow> u32" where
  "attr_OpCode oob OpCode =
    (if unat OpCode < length attr_OpCode_table then attr_OpCode_table ! unat OpCode
     else oob OpCode)"

section \<open>Functions of pib_lib.c\<close>

abbreviation (input) "IB_MTU_256 \<equiv> (1 :: nat)"
abbreviation (input) "IB_MTU_4096 \<equiv> (5 :: nat)"

definition pib_get_maxium_packet_length :: "nat \<Rightarrow> u32" where
  "pib_get_maxium_packet_length mtu = push_bit (mtu - IB_MTU_256) 256"

fun pib_is_recv_ok :: "ib_qp_state \<Rightarrow> bool" where
  "pib_is_recv_ok IB_QPS_RTR = True"
| "pib_is_recv_ok IB_QPS_RTS = True"
| "pib_is_recv_ok IB_QPS_SQD = True"
| "pib_is_recv_ok IB_QPS_SQE = True"
| "pib_is_recv_ok _ = False"

fun pib_is_wr_opcode_rd_atomic :: "ib_wr_opcode \<Rightarrow> bool" where
  "pib_is_wr_opcode_rd_atomic IB_WR_RDMA_READ = True"
| "pib_is_wr_opcode_rd_atomic IB_WR_ATOMIC_CMP_AND_SWP = True"
| "pib_is_wr_opcode_rd_atomic IB_WR_ATOMIC_FETCH_AND_ADD = True"
| "pib_is_wr_opcode_rd_atomic _ = False"

definition pib_opcode_is_acknowledge :: "(u8 \<Rightarrow> u32) \<Rightarrow> u8 \<Rightarrow> bool" where
  "pib_opcode_is_acknowledge oob OpCode \<longleftrightarrow>
    attr_OpCode oob OpCode AND PIB_ACKNOWLEDGE_OPCODE = PIB_ACKNOWLEDGE_OPCODE"

fun pib_convert_wr_opcode_to_wc_opcode :: "ib_wr_opcode \<Rightarrow> u32" where
  "pib_convert_wr_opcode_to_wc_opcode IB_WR_RDMA_WRITE = IB_WC_RDMA_WRITE"
| "pib_convert_wr_opcode_to_wc_opcode IB_WR_RDMA_WRITE_WITH_IMM = IB_WC_RDMA_WRITE"
| "pib_convert_wr_opcode_to_wc_opcode IB_WR_SEND = IB_WC_SEND"
| "pib_convert_wr_opcode_to_wc_opcode IB_WR_SEND_WITH_IMM = IB_WC_SEND"
| "pib_convert_wr_opcode_to_wc_opcode IB_WR_SEND_WITH_INV = IB_WC_SEND"
| "pib_convert_wr_opcode_to_wc_opcode IB_WR_RDMA_READ = IB_WC_RDMA_READ"
| "pib_convert_wr_opcode_to_wc_opcode IB_WR_RDMA_READ_WITH_INV = IB_WC_RDMA_READ"
| "pib_convert_wr_opcode_to_wc_opcode IB_WR_ATOMIC_CMP_AND_SWP = IB_WC_COMP_SWAP"
| "pib_convert_wr_opcode_to_wc_opcode IB_WR_ATOMIC_FETCH_AND_ADD = IB_WC_FETCH_ADD"
| "pib_convert_wr_opcode_to_wc_opcode IB_WR_LSO = IB_WC_LSO"
| "pib_convert_wr_opcode_to_wc_opcode IB_WR_LOCAL_INV = IB_WC_LOCAL_INV"
| "pib_convert_wr_opcode_to_wc_opcode IB_WR_FAST_REG_MR = IB_WC_FAST_REG_MR"
| "pib_convert_wr_opcode_to_wc_opcode IB_WR_MASKED_ATOMIC_CMP_AND_SWP = IB_WC_MASKED_COMP_SWAP"
| "pib_convert_wr_opcode_to_wc_opcode IB_WR_MASKED_ATOMIC_FETCH_AND_ADD = IB_WC_MASKED_FETCH_ADD"
| "pib_convert_wr_opcode_to_wc_opcode IB_WR_BIND_MW = IB_WC_BIND_MW"

definition pib_opcode_is_in_order_sequence :: "(u8 \<Rightarrow> u32) \<Rightarrow> u8 \<Rightarrow> u8 \<Rightarrow> bool" where
  "pib_opcode_is_in_order_sequence oob OpCode last_OpCode =
    (let cur_OpCode_attr = attr_OpCode oob OpCode in
     if cur_OpCode_attr AND (PIB_STARTING_OPCODE OR PIB_MIDDLE_OPCODE OR PIB_ENDING_OPCODE) = 0
     then False
     else if flag_set cur_OpCode_attr PIB_STARTING_OPCODE
     then flag_set (attr_OpCode oob last_OpCode) PIB_ENDING_OPCODE
     else if OpCode \<in> {IB_OPCODE_SEND_MIDDLE, IB_OPCODE_SEND_LAST,
                        IB_OPCODE_SEND_LAST_WITH_IMMEDIATE}
     then last_OpCode = IB_OPCODE_SEND_FIRST \<or> last_OpCode = IB_OPCODE_SEND_MIDDLE
     else if OpCode \<in> {IB_OPCODE_RDMA_WRITE_MIDDLE, IB_OPCODE_RDMA_WRITE_LAST,
                        IB_OPCODE_RDMA_WRITE_LAST_WITH_IMMEDIATE}
     then last_OpCode = IB_OPCODE_RDMA_WRITE_FIRST \<or> last_OpCode = IB_OPCODE_RDMA_WRITE_MIDDLE
     else False)"

definition pib_get_num_of_packets :: "ib_qp_type \<Rightarrow> nat \<Rightarrow> u32 \<Rightarrow> u32" where
  "pib_get_num_of_packets qp_type attr_path_mtu len =
    (let path_mtu = (case qp_type of
           IB_QPT_UD \<Rightarrow> IB_MTU_4096
         | IB_QPT_GSI \<Rightarrow> IB_MTU_256
         | IB_QPT_SMI \<Rightarrow> IB_MTU_256
         | _ \<Rightarrow> attr_path_mtu);
         num_packets = drop_bit path_mtu (len div 128)
     in if num_packets = 0 then 1
        else if len > push_bit path_mtu (num_packets * 128) then num_packets + 1
        else num_packets)"

text \<open>The timer tables; \<open>HZ\<close> is the tick rate the kernel was configured with.\<close>

definition USEC_TO_JIFFIES :: "nat \<Rightarrow> nat \<Rightarrow> u32" where
  "USEC_TO_JIFFIES HZ v = of_nat (v * 1000 div (HZ * 1000))"

definition rnr_nak_timeout :: "nat \<Rightarrow> u32 list" where
  "rnr_nak_timeout HZ = map (USEC_TO_JIFFIES HZ)
    [655360, 10, 20, 30, 40, 60, 80, 120, 160, 240, 320, 480, 640, 960, 1280, 1920,
     2560, 3840, 5120, 7680, 10240, 15360, 20480, 30720, 40960, 61440, 81920, 122880,
     163840, 245760, 327680, 491520]"

definition NSEC_TO_JIFFIES :: "nat \<Rightarrow> nat \<Rightarrow> u64" where
  "NSEC_TO_JIFFIES HZ v = of_nat (v * 1000 div (HZ * 1000000))"

definition local_ack_timeout :: "nat \<Rightarrow> u64 list" where
  "local_ack_timeout HZ = 0 # map (NSEC_TO_JIFFIES HZ)
    [8192, 16384, 32768, 65536, 131072, 262144, 524288, 1048576, 2087152, 4194304,
     8388608, 16777216, 33554432, 67108864, 134217728, 268435456, 536870912, 1073741824,
     2147483648, 4294967296, 8589934592, 17179869184, 34359738368, 68719476736,
     137438953472, 274877906944, 549755813888, 1099511627776, 2199023255552,
     4398046511104, 8796093022208]"

abbreviation (input) "PIB_SCHED_TIMEOUT \<equiv> (0x3FFFFFFF :: u64)"

definition pib_get_rnr_nak_time :: "nat \<Rightarrow> nat \<Rightarrow> u32" where
  "pib_get_rnr_nak_time HZ timeout =
    (if rnr_nak_timeout HZ ! timeout = 0 then 1 else rnr_nak_timeout HZ ! timeout)"

definition pib_get_local_ack_time :: "nat \<Rightarrow> nat \<Rightarrow> u64" where
  "pib_get_local_ack_time HZ timeout =
    (if timeout = 0 then PIB_SCHED_TIMEOUT
     else if local_ack_timeout HZ ! timeout = 0 then 1
     else local_ack_timeout HZ ! timeout)"

fun first_positive :: "nat \<Rightarrow> u64 list \<Rightarrow> nat option" where
  "first_positive i [] = None"
| "first_positive i (x # xs) = (if x > 0 then Some i else first_positive (Suc i) xs)"

definition pib_get_local_ca_ack_delay :: "nat \<Rightarrow> u8" where
  "pib_get_local_ca_ack_delay HZ =
    (case first_positive 1 (drop 1 (local_ack_timeout HZ)) of
       Some i \<Rightarrow> of_nat i
     | None \<Rightarrow> 31)"

abbreviation (input) "PIB_MCAST_LID_BASE \<equiv> (0xC000 :: u16)"
abbreviation (input) "PIB_LID_PERMISSIVE \<equiv> (0xFFFF :: u16)"

definition pib_is_unicast_lid :: "u16 \<Rightarrow> bool" where
  "pib_is_unicast_lid lid \<longleftrightarrow> lid < PIB_MCAST_LID_BASE \<or> lid = PIB_LID_PERMISSIVE"

definition pib_is_permissive_lid :: "u16 \<Rightarrow> bool" where
  "pib_is_permissive_lid lid \<longleftrightarrow> lid = 0 \<or> lid = PIB_LID_PERMISSIVE"

section \<open>Packet sequence numbers\<close>

abbreviation (input) "PIB_QPN_MASK \<equiv> (0xFFFFFF :: u32)"
abbreviation (input) "PIB_PSN_MASK \<equiv> (0xFFFFFF :: u32)"

definition get_psn_diff :: "u32 \<Rightarrow> u32 \<Rightarrow> int" where
  "get_psn_diff psn based_psn = sint (signed_drop_bit 8 (push_bit 8 (psn - based_psn)))"

lemma signed_24:
  fixes w :: u32
  shows "sint (signed_drop_bit 8 (push_bit 8 w)) = (uint w + 2 ^ 23) mod 2 ^ 24 - 2 ^ 23"
proof -
  have "sint (signed_drop_bit 8 (push_bit 8 w)) = signed_take_bit 23 (uint w)"
  proof (rule bit_eqI)
    fix n :: nat
    consider "n < 23" | "n = 23" | "23 < n"
      by linarith
    then show "bit (sint (signed_drop_bit 8 (push_bit 8 w))) n = bit (signed_take_bit 23 (uint w)) n"
      by cases (auto simp: bit_sint_iff bit_uint_iff bit_signed_drop_bit_iff bit_push_bit_iff
          bit_signed_take_bit_iff min_def)
  qed
  also have "\<dots> = (uint w + 2 ^ 23) mod 2 ^ 24 - 2 ^ 23"
    by (simp add: signed_take_bit_eq_take_bit_shift take_bit_eq_mod)
  finally show ?thesis .
qed

lemma psn_mod_cong:
  fixes a a' b c :: int
  assumes "a mod 2 ^ 24 = a' mod 2 ^ 24"
  shows "(a - b + c) mod 2 ^ 24 = (a' - b + c) mod 2 ^ 24"
  using assms by (intro mod_add_cong mod_diff_cong) auto

lemma get_psn_diff_eq:
  "get_psn_diff a b = (uint a - uint b + 2 ^ 23) mod 2 ^ 24 - 2 ^ 23"
proof -
  have "uint (a - b) = (uint a - uint b) mod 2 ^ 32"
    by (simp add: uint_word_ariths)
  then have "(uint (a - b) + 2 ^ 23) mod 2 ^ 24
      = ((uint a - uint b) mod 2 ^ 32 mod 2 ^ 24 + 2 ^ 23) mod 2 ^ 24"
    by (simp add: mod_add_left_eq)
  also have "\<dots> = (uint a - uint b + 2 ^ 23) mod 2 ^ 24"
    by (simp add: mod_mod_cancel mod_add_left_eq)
  finally show ?thesis
    by (simp add: get_psn_diff_def signed_24)
qed

lemma uint_and_psn_mask [simp]: "uint (w AND PIB_PSN_MASK) = uint w mod 2 ^ 24"
proof -
  have "PIB_PSN_MASK = mask 24"
    by (simp add: mask_eq_exp_minus_1)
  then show ?thesis
    by (simp only: take_bit_eq_mask [symmetric] unsigned_take_bit_eq)
       (simp only: take_bit_eq_mod)
qed

lemma get_psn_diff_bounds:
  "- (2 ^ 23) \<le> get_psn_diff a b" "get_psn_diff a b < 2 ^ 23"
  by (auto simp: get_psn_diff_eq)

lemma get_psn_diff_self [simp]: "get_psn_diff a a = 0"
  by (simp add: get_psn_diff_eq)

lemma get_psn_diff_mask_left [simp]:
  "get_psn_diff (a AND PIB_PSN_MASK) b = get_psn_diff a b"
  unfolding get_psn_diff_eq uint_and_psn_mask
  using psn_mod_cong [of "uint a mod 2 ^ 24" "uint a"] by simp

text \<open>The offset of a PSN from a base is recovered as long as it fits the 24-bit window.\<close>

lemma get_psn_diff_add:
  assumes "- (2 ^ 23) \<le> d" "d < 2 ^ 23"
  shows "get_psn_diff (b + of_int d) b = d"
proof -
  have "uint (b + of_int d :: u32) = (uint b + d) mod 2 ^ 32"
    by (simp add: uint_word_ariths uint_word_of_int mod_simps)
  then have "uint (b + of_int d) mod 2 ^ 24 = (uint b + d) mod 2 ^ 24"
    by (simp add: mod_mod_cancel)
  then have "(uint (b + of_int d) - uint b + 2 ^ 23) mod 2 ^ 24
      = (uint b + d - uint b + 2 ^ 23) mod 2 ^ 24"
    by (rule psn_mod_cong)
  also have "\<dots> = (d + 2 ^ 23) mod 2 ^ 24"
    by simp
  also have "\<dots> = d + 2 ^ 23"
    using assms by (intro mod_pos_pos_trivial) auto
  finally show ?thesis
    by (simp add: get_psn_diff_eq)
qed

section \<open>Packet counts\<close>

definition qp_mtu :: "ib_qp_type \<Rightarrow> nat \<Rightarrow> nat" where
  "qp_mtu qp_type attr_path_mtu =
    (if qp_type = IB_QPT_UD then 4096
     else if qp_type = IB_QPT_GSI \<or> qp_type = IB_QPT_SMI then 256
     else 128 * 2 ^ attr_path_mtu)"

lemma num_packets_word:
  fixes len :: u32
  assumes "m \<le> 5"
  shows "unat (drop_bit m (len div 128)) = unat len div (128 * 2 ^ m)"
    and "unat (push_bit m (drop_bit m (len div 128) * 128)) = unat len div (128 * 2 ^ m) * (128 * 2 ^ m)"
proof -
  show q: "unat (drop_bit m (len div 128)) = unat len div (128 * 2 ^ m)"
    by (simp add: unat_drop_bit unat_div div_mult2_eq)
  have lt: "unat len div (128 * 2 ^ m) * (128 * 2 ^ m) < 2 ^ LENGTH(32)"
    using unat_less_exp [of len] by (rule le_less_trans [OF div_times_less_eq_dividend])
  have "push_bit m (drop_bit m (len div 128) * 128)
      = of_nat (unat (drop_bit m (len div 128)) * (128 * 2 ^ m))"
    by (simp add: push_bit_eq_mult ac_simps)
  then show "unat (push_bit m (drop_bit m (len div 128) * 128))
      = unat len div (128 * 2 ^ m) * (128 * 2 ^ m)"
    by (simp only: q unat_of_nat_small [OF lt])
qed

lemma ceil_div_cases:
  fixes n d :: nat
  assumes "0 < d"
  shows "max 1 ((n + d - 1) div d) =
    (if n div d = 0 then 1 else if n div d * d < n then n div d + 1 else n div d)"
proof -
  have n: "n = n div d * d + n mod d"
    by simp
  have "n + d - 1 = (n mod d + d - 1) + n div d * d"
    using assms n by linarith
  then have "(n + d - 1) div d = n div d + (n mod d + d - 1) div d"
    using assms by (simp only: div_mult_self1)
  also have "(n mod d + d - 1) div d = (if n mod d = 0 then 0 else 1)"
    using assms mod_less_divisor [OF assms, of n] by (auto simp: div_eq_dividend_iff div_nat_eqI)
  finally show ?thesis
    using assms minus_mod_eq_div_mult [of n d] by (cases "n mod d = 0") (auto simp: max_def)
qed

text \<open>
  The number of packets \<^verbatim>\<open>pib_get_num_of_packets\<close> computes with 32-bit shifts is, for
  every payload length and every path MTU of the architecture, the length divided by the
  MTU of the queue pair and rounded up, and an empty message still takes one packet.
\<close>

theorem pib_get_num_of_packets_ceil:
  assumes "mtu \<le> IB_MTU_4096"
  shows "unat (pib_get_num_of_packets t mtu len) =
    max 1 ((unat len + qp_mtu t mtu - 1) div qp_mtu t mtu)"
proof -
  define m where "m = (if t = IB_QPT_UD then 5 else if t = IB_QPT_GSI \<or> t = IB_QPT_SMI then 1 else mtu)"
  have m: "m \<le> 5" and q: "qp_mtu t mtu = 128 * 2 ^ m"
    using assms by (auto simp: m_def qp_mtu_def)
  let ?n = "drop_bit m (len div 128)"
  have code: "pib_get_num_of_packets t mtu len =
      (if ?n = 0 then 1 else if len > push_bit m (?n * 128) then ?n + 1 else ?n)"
    by (cases t) (simp_all add: pib_get_num_of_packets_def m_def Let_def)
  have "unat ?n + 1 < 2 ^ 32"
    using unat_less_exp [of len] div_le_mono2 [of 128 "128 * 2 ^ m" "unat len"]
    by (simp add: num_packets_word(1) [OF m] less_mult_imp_div_less)
  then have "unat (?n + 1) = unat ?n + 1"
    by (simp add: unat_word_ariths)
  then show ?thesis
    by (subst q, subst q, subst ceil_div_cases)
       (simp_all add: code num_packets_word [OF m] word_less_nat_alt unat_eq_0 [symmetric])
qed

theorem pib_get_num_of_packets_ceil_witness:
  "unat (pib_get_num_of_packets IB_QPT_RC 2 1025) = 3"
  using pib_get_num_of_packets_ceil [of 2 IB_QPT_RC 1025] by (simp add: qp_mtu_def)

section \<open>The opcode automaton\<close>

text \<open>
  The framing of the request stream: a single-packet request, or a first packet, middle
  packets and a last packet of the same kind.
\<close>

definition only_opcodes :: "u8 set" where
  "only_opcodes =
    {IB_OPCODE_SEND_ONLY, IB_OPCODE_SEND_ONLY_WITH_IMMEDIATE, IB_OPCODE_RDMA_WRITE_ONLY,
     IB_OPCODE_RDMA_WRITE_ONLY_WITH_IMMEDIATE, IB_OPCODE_RDMA_READ_REQUEST,
     IB_OPCODE_COMPARE_SWAP, IB_OPCODE_FETCH_ADD}"

definition send_last_opcodes :: "u8 set" where
  "send_last_opcodes = {IB_OPCODE_SEND_LAST, IB_OPCODE_SEND_LAST_WITH_IMMEDIATE}"

definition write_last_opcodes :: "u8 set" where
  "write_last_opcodes = {IB_OPCODE_RDMA_WRITE_LAST, IB_OPCODE_RDMA_WRITE_LAST_WITH_IMMEDIATE}"

definition ending_opcodes :: "u8 set" where
  "ending_opcodes = only_opcodes \<union> send_last_opcodes \<union> write_last_opcodes"

lemmas opcode_sets = only_opcodes_def send_last_opcodes_def write_last_opcodes_def ending_opcodes_def

inductive messages :: "u8 list \<Rightarrow> bool" where
  no_msg: "messages []"
| only_msg: "op \<in> only_opcodes \<Longrightarrow> messages ops \<Longrightarrow> messages (op # ops)"
| send_msg: "l \<in> send_last_opcodes \<Longrightarrow> messages ops \<Longrightarrow>
    messages (IB_OPCODE_SEND_FIRST # replicate n IB_OPCODE_SEND_MIDDLE @ l # ops)"
| write_msg: "l \<in> write_last_opcodes \<Longrightarrow> messages ops \<Longrightarrow>
    messages (IB_OPCODE_RDMA_WRITE_FIRST # replicate n IB_OPCODE_RDMA_WRITE_MIDDLE @ l # ops)"

text \<open>A stream of opcodes passes when each one is in order after its predecessor.\<close>

fun in_order_stream :: "(u8 \<Rightarrow> u32) \<Rightarrow> u8 \<Rightarrow> u8 list \<Rightarrow> bool" where
  "in_order_stream oob prev [] = True"
| "in_order_stream oob prev (op # ops) \<longleftrightarrow>
    pib_opcode_is_in_order_sequence oob op prev \<and> in_order_stream oob op ops"

lemma table_opcode_cases:
  assumes "unat (op :: u8) < 21"
  shows "op \<in> {0, 1, 2, 3, 4, 5, 6, 7, 8, 9, 10, 11, 12, 13, 14, 15, 16, 17, 18, 19, 20}"
proof -
  have "op \<in> of_nat ` {..<21}"
    using assms by (intro image_eqI [of _ _ "unat op"]) auto
  then show ?thesis
    by (auto simp: lessThan_nat_numeral lessThan_Suc numeral_eq_Suc)
qed

lemma attr_OpCode_ending:
  assumes "unat op < 21"
  shows "flag_set (attr_OpCode oob op) PIB_ENDING_OPCODE \<longleftrightarrow> op \<in> ending_opcodes"
  using table_opcode_cases [OF assms]
  by (elim insertE emptyE) (simp_all add: attr_OpCode_def attr_OpCode_table_def opcode_sets)

lemma attr_OpCode_starting:
  assumes "unat op < 21"
  shows "flag_set (attr_OpCode oob op) PIB_STARTING_OPCODE \<longleftrightarrow>
    op \<in> only_opcodes \<union> {IB_OPCODE_SEND_FIRST, IB_OPCODE_RDMA_WRITE_FIRST}"
  using table_opcode_cases [OF assms]
  by (elim insertE emptyE) (simp_all add: attr_OpCode_def attr_OpCode_table_def opcode_sets)

lemma attr_OpCode_request:
  assumes "unat op < 21"
  shows "attr_OpCode oob op AND (PIB_STARTING_OPCODE OR PIB_MIDDLE_OPCODE OR PIB_ENDING_OPCODE) = 0
    \<longleftrightarrow> op \<in> {13, 14, 15, 16, 17, 18}"
  using table_opcode_cases [OF assms]
  by (elim insertE emptyE) (simp_all add: attr_OpCode_def attr_OpCode_table_def)

lemma in_order_sequence_iff:
  assumes "unat op < 21" "unat prev < 21"
  shows "pib_opcode_is_in_order_sequence oob op prev \<longleftrightarrow>
    (op \<in> only_opcodes \<union> {IB_OPCODE_SEND_FIRST, IB_OPCODE_RDMA_WRITE_FIRST} \<and> prev \<in> ending_opcodes) \<or>
    (op \<in> {IB_OPCODE_SEND_MIDDLE} \<union> send_last_opcodes \<and>
       prev \<in> {IB_OPCODE_SEND_FIRST, IB_OPCODE_SEND_MIDDLE}) \<or>
    (op \<in> {IB_OPCODE_RDMA_WRITE_MIDDLE} \<union> write_last_opcodes \<and>
       prev \<in> {IB_OPCODE_RDMA_WRITE_FIRST, IB_OPCODE_RDMA_WRITE_MIDDLE})"
  unfolding pib_opcode_is_in_order_sequence_def Let_def attr_OpCode_ending [OF assms(2)]
    attr_OpCode_starting [OF assms(1)] attr_OpCode_request [OF assms(1)]
  using table_opcode_cases [OF assms(1)]
  by (elim insertE emptyE) (simp_all add: only_opcodes_def send_last_opcodes_def write_last_opcodes_def)

definition message_kinds :: "(u8 \<times> u8 \<times> u8 set) set" where
  "message_kinds =
    {(IB_OPCODE_SEND_FIRST, IB_OPCODE_SEND_MIDDLE, send_last_opcodes),
     (IB_OPCODE_RDMA_WRITE_FIRST, IB_OPCODE_RDMA_WRITE_MIDDLE, write_last_opcodes)}"

lemma in_order_inside_message:
  assumes "unat op < 21"
  shows "pib_opcode_is_in_order_sequence oob op IB_OPCODE_SEND_FIRST \<longleftrightarrow>
      op = IB_OPCODE_SEND_MIDDLE \<or> op \<in> send_last_opcodes"
    and "pib_opcode_is_in_order_sequence oob op IB_OPCODE_SEND_MIDDLE \<longleftrightarrow>
      op = IB_OPCODE_SEND_MIDDLE \<or> op \<in> send_last_opcodes"
    and "pib_opcode_is_in_order_sequence oob op IB_OPCODE_RDMA_WRITE_FIRST \<longleftrightarrow>
      op = IB_OPCODE_RDMA_WRITE_MIDDLE \<or> op \<in> write_last_opcodes"
    and "pib_opcode_is_in_order_sequence oob op IB_OPCODE_RDMA_WRITE_MIDDLE \<longleftrightarrow>
      op = IB_OPCODE_RDMA_WRITE_MIDDLE \<or> op \<in> write_last_opcodes"
  by (auto simp: in_order_sequence_iff [OF assms] opcode_sets)

lemma message_kind_step:
  assumes "(fst_op, mid_op, lasts) \<in> message_kinds" "prev = fst_op \<or> prev = mid_op"
    and "unat op < 21" "pib_opcode_is_in_order_sequence oob op prev"
  shows "op = mid_op \<or> op \<in> lasts"
  using assms unfolding message_kinds_def
  by (elim insertE emptyE disjE; simp only: prod.inject in_order_inside_message; blast)

text \<open>A stream that is in the middle of a message of a kind runs to the end of that message.\<close>

lemma in_order_stream_rest:
  assumes "in_order_stream oob prev ops" "\<forall>op\<in>set ops. unat op < 21"
    and "last (prev # ops) \<in> ending_opcodes"
    and kind: "(fst_op, mid_op, lasts) \<in> message_kinds" and "prev = fst_op \<or> prev = mid_op"
  shows "\<exists>n l rest. ops = replicate n mid_op @ l # rest \<and> l \<in> lasts \<and>
    in_order_stream oob l rest"
  using assms
proof (induction ops arbitrary: prev)
  case Nil
  then show ?case by (auto simp: message_kinds_def opcode_sets)
next
  case (Cons op ops)
  from Cons.prems(1,2) have "op = mid_op \<or> op \<in> lasts"
    by (intro message_kind_step [OF kind Cons.prems(5), of _ oob]) simp_all
  then show ?case
  proof
    assume "op = mid_op"
    moreover from this Cons.prems have "\<exists>n l rest. ops = replicate n mid_op @ l # rest \<and> l \<in> lasts \<and>
        in_order_stream oob l rest"
      by (intro Cons.IH [of op]) simp_all
    ultimately show ?thesis
      by (metis append_Cons replicate_Suc)
  next
    assume "op \<in> lasts"
    with Cons.prems(1) show ?thesis
      by (intro exI [of _ 0] exI [of _ op] exI [of _ ops]) simp
  qed
qed

lemma ending_opcodes_facts:
  assumes "op \<in> ending_opcodes"
  shows "unat op < 21" "op \<notin> {IB_OPCODE_SEND_FIRST, IB_OPCODE_SEND_MIDDLE}"
    "op \<notin> {IB_OPCODE_RDMA_WRITE_FIRST, IB_OPCODE_RDMA_WRITE_MIDDLE}"
  using assms by (auto simp: opcode_sets)

lemma ending_opcodes_subsets:
  "only_opcodes \<subseteq> ending_opcodes" "send_last_opcodes \<subseteq> ending_opcodes"
  "write_last_opcodes \<subseteq> ending_opcodes"
  by (auto simp: ending_opcodes_def)

lemma in_order_after_ending:
  assumes "unat op < 21" "prev \<in> ending_opcodes"
  shows "pib_opcode_is_in_order_sequence oob op prev \<longleftrightarrow>
    op \<in> only_opcodes \<or> op = IB_OPCODE_SEND_FIRST \<or> op = IB_OPCODE_RDMA_WRITE_FIRST"
  unfolding in_order_sequence_iff [OF assms(1) ending_opcodes_facts(1) [OF assms(2)]]
  using ending_opcodes_facts(2,3) [OF assms(2)] assms(2) by (simp add: disj_ac)

lemma in_order_message_last:
  assumes "(fst_op, mid_op, lasts) \<in> message_kinds" "op = mid_op \<or> op \<in> lasts"
    and "prev = fst_op \<or> prev = mid_op"
  shows "pib_opcode_is_in_order_sequence oob op prev"
proof -
  consider "fst_op = IB_OPCODE_SEND_FIRST" "mid_op = IB_OPCODE_SEND_MIDDLE" "lasts = send_last_opcodes"
    | "fst_op = IB_OPCODE_RDMA_WRITE_FIRST" "mid_op = IB_OPCODE_RDMA_WRITE_MIDDLE"
      "lasts = write_last_opcodes"
    using assms(1) by (auto simp: message_kinds_def)
  then show ?thesis
  proof cases
    case 1
    then have "unat op < 21"
      using assms(2) by (auto simp: send_last_opcodes_def)
    with 1 assms(2,3) show ?thesis
      by (elim disjE) (simp_all add: in_order_inside_message)
  next
    case 2
    then have "unat op < 21"
      using assms(2) by (auto simp: write_last_opcodes_def)
    with 2 assms(2,3) show ?thesis
      by (elim disjE) (simp_all add: in_order_inside_message)
  qed
qed

lemma in_order_stream_middles:
  assumes "(fst_op, mid_op, lasts) \<in> message_kinds" "l \<in> lasts" "prev = fst_op \<or> prev = mid_op"
  shows "in_order_stream oob prev (replicate n mid_op @ l # ops) \<longleftrightarrow> in_order_stream oob l ops"
  using assms(3)
  by (induction n arbitrary: prev) (use assms(1,2) in_order_message_last in \<open>auto 0 3\<close>)

lemma in_order_start:
  assumes "prev \<in> ending_opcodes"
    and "op \<in> only_opcodes \<or> op = IB_OPCODE_SEND_FIRST \<or> op = IB_OPCODE_RDMA_WRITE_FIRST"
  shows "pib_opcode_is_in_order_sequence oob op prev"
proof -
  have "unat op < 21"
    using assms(2) by (auto simp: only_opcodes_def)
  with assms show ?thesis
    by (simp add: in_order_after_ending)
qed

lemma messages_in_order:
  assumes "messages ops" "prev \<in> ending_opcodes"
  shows "in_order_stream oob prev ops \<and> last (prev # ops) \<in> ending_opcodes"
  using assms
proof (induction arbitrary: prev rule: messages.induct)
  case no_msg
  then show ?case by simp
next
  case (only_msg op ops)
  from only_msg.hyps(1) have "op \<in> ending_opcodes"
    using ending_opcodes_subsets(1) by blast
  from only_msg.IH [OF this] only_msg.hyps(1) only_msg.prems show ?case
    by (simp add: in_order_start)
next
  case (send_msg l ops n)
  have "in_order_stream oob IB_OPCODE_SEND_FIRST (replicate n IB_OPCODE_SEND_MIDDLE @ l # ops)
      \<longleftrightarrow> in_order_stream oob l ops"
    by (rule in_order_stream_middles [of _ _ send_last_opcodes])
       (use send_msg.hyps in \<open>auto simp: message_kinds_def\<close>)
  moreover have "in_order_stream oob l ops \<and> last (l # ops) \<in> ending_opcodes"
    using send_msg.hyps ending_opcodes_subsets by (intro send_msg.IH) blast
  ultimately show ?case
    using send_msg.prems by (simp add: in_order_start)
next
  case (write_msg l ops n)
  have "in_order_stream oob IB_OPCODE_RDMA_WRITE_FIRST (replicate n IB_OPCODE_RDMA_WRITE_MIDDLE @ l # ops)
      \<longleftrightarrow> in_order_stream oob l ops"
    by (rule in_order_stream_middles [of _ _ write_last_opcodes])
       (use write_msg.hyps in \<open>auto simp: message_kinds_def\<close>)
  moreover have "in_order_stream oob l ops \<and> last (l # ops) \<in> ending_opcodes"
    using write_msg.hyps ending_opcodes_subsets by (intro write_msg.IH) blast
  ultimately show ?case
    using write_msg.prems by (simp add: in_order_start)
qed

lemma in_order_messages:
  assumes "in_order_stream oob prev ops" "last (prev # ops) \<in> ending_opcodes"
    and "\<forall>op\<in>set ops. unat op < 21" "prev \<in> ending_opcodes"
  shows "messages ops"
  using assms
proof (induction ops arbitrary: prev rule: length_induct)
  case (1 ops)
  show ?case
  proof (cases ops)
    case Nil
    then show ?thesis by (simp add: messages.no_msg)
  next
    case (Cons op ops')
    have shorter: "messages rest" if "length rest < length ops" "in_order_stream oob l rest"
      "last (l # rest) \<in> ending_opcodes" "set rest \<subseteq> set ops" "l \<in> ending_opcodes" for l rest
      using 1 that by (meson subsetD)
    have message: "\<exists>n l rest. ops' = replicate n mid_op @ l # rest \<and> l \<in> lasts \<and> messages rest"
      if k: "(op, mid_op, lasts) \<in> message_kinds" and le: "lasts \<subseteq> ending_opcodes" for mid_op lasts
    proof -
      obtain n l rest where r: "ops' = replicate n mid_op @ l # rest" "l \<in> lasts"
          "in_order_stream oob l rest"
        using in_order_stream_rest [OF _ _ _ k, of oob op ops'] "1.prems" Cons
        by auto
      with "1.prems" Cons le have "messages rest"
        by (intro shorter [of rest l]) auto
      with r show ?thesis by blast
    qed
    have "op \<in> only_opcodes \<or> op = IB_OPCODE_SEND_FIRST \<or> op = IB_OPCODE_RDMA_WRITE_FIRST"
      using "1.prems" Cons by (simp add: in_order_after_ending)
    then show ?thesis
    proof (elim disjE)
      assume o: "op \<in> only_opcodes"
      with "1.prems" Cons ending_opcodes_subsets(1) have "messages ops'"
        by (intro shorter [of ops' op]) (auto)
      with o Cons show ?thesis by (simp only: messages.only_msg)
    next
      assume o: "op = IB_OPCODE_SEND_FIRST"
      with message [of IB_OPCODE_SEND_MIDDLE send_last_opcodes] Cons show ?thesis
        by (auto simp: message_kinds_def ending_opcodes_subsets intro: messages.send_msg)
    next
      assume o: "op = IB_OPCODE_RDMA_WRITE_FIRST"
      with message [of IB_OPCODE_RDMA_WRITE_MIDDLE write_last_opcodes] Cons show ?thesis
        by (auto simp: message_kinds_def ending_opcodes_subsets intro: messages.write_msg)
    qed
  qed
qed

text \<open>
  C32. The opcode check that \<^verbatim>\<open>receive_request\<close> makes packet by packet accepts exactly the
  framing of messages: after the end of a message, a stream of opcodes of the table is in
  order and stops at the end of a message if and only if it is a sequence of whole
  messages, each a single packet or a first packet, any number of middle packets and a
  last packet of the same kind.
\<close>

theorem opcode_stream_is_framed:
  assumes "\<forall>op\<in>set ops. unat op < length attr_OpCode_table" "prev \<in> ending_opcodes"
  shows "in_order_stream oob prev ops \<and> last (prev # ops) \<in> ending_opcodes \<longleftrightarrow> messages ops"
proof -
  have "length attr_OpCode_table = 21"
    by (simp add: attr_OpCode_table_def)
  then have b: "\<forall>op\<in>set ops. unat op < 21"
    using assms(1) by simp
  show ?thesis
    using in_order_messages [OF _ _ b assms(2)] messages_in_order [OF _ assms(2)] by blast
qed

theorem opcode_stream_is_framed_witness:
  "messages [IB_OPCODE_SEND_FIRST, IB_OPCODE_SEND_MIDDLE, IB_OPCODE_SEND_LAST, IB_OPCODE_RDMA_READ_REQUEST]"
  using opcode_stream_is_framed [of "[IB_OPCODE_SEND_FIRST, IB_OPCODE_SEND_MIDDLE,
      IB_OPCODE_SEND_LAST, IB_OPCODE_RDMA_READ_REQUEST]" IB_OPCODE_SEND_ONLY "\<lambda>_. 0"]
  by (simp add: attr_OpCode_def attr_OpCode_table_def opcode_sets pib_opcode_is_in_order_sequence_def)

text \<open>
  \<^verbatim>\<open>get_psn_diff\<close> recovers the distance between two packet sequence numbers through the
  wrap-around at 24 bits: for every base and every distance of the half window on either
  side, the difference of the masked PSN at that distance and the base is that distance.
\<close>

theorem get_psn_diff_window:
  assumes "- (2 ^ 23) \<le> d" "d < 2 ^ 23"
  shows "get_psn_diff ((b + of_int d) AND PIB_PSN_MASK) b = d"
  using get_psn_diff_add [OF assms] by simp

theorem get_psn_diff_window_witness:
  "get_psn_diff ((0xFFFFFE + of_int 5) AND PIB_PSN_MASK) 0xFFFFFE = 5"
  using get_psn_diff_window [where d = 5 and b = "0xFFFFFE"] by simp

end
