(* ===== verification/Pib_Packet.thy ===== *)
theory Pib_Packet
  imports Pib_Lib
begin

text \<open>
  \<^verbatim>\<open>driver/pib_packet.h\<close> and \<^verbatim>\<open>pib_parse_packet_header\<close> of \<^verbatim>\<open>driver/pib_thread.c\<close>: the packet
  headers as records of host-order values, their packed big-endian layout, the accessors
  of the packet length, pad count and solicited bit, and the parser of a received packet.

  A packet that the driver writes into \<^verbatim>\<open>dev->thread.send_buffer\<close> is a record of its
  headers and the bytes behind them.  Shown here: reading a header back from its bytes
  gives the header; the bit-field accessors neither lose nor disturb anything; parsing the
  bytes of a well-formed packet returns its headers and the length of the headers.
\<close>

section \<open>Header structures\<close>

record pib_packet_lrh =
  lrh_dlid :: u16
  lrh_vl_lver :: u8
  lrh_sl_rsv_lnh :: u8
  lrh_slid :: u16
  lrh_pktlen :: u16

record ib_grh =
  grh_version_tclass_flow :: u32
  grh_paylen :: u16
  grh_next_hdr :: u8
  grh_hop_limit :: u8
  grh_sgid_prefix :: u64
  grh_sgid_id :: u64
  grh_dgid_prefix :: u64
  grh_dgid_id :: u64

record pib_packet_bth =
  bth_OpCode :: u8
  bth_se_m_padcnt_tver :: u8
  bth_pkey :: u16
  bth_destQP :: u32
  bth_psn :: u32

record pib_packet_deth =
  deth_qkey :: u32
  deth_srcQP :: u32

record pib_packet_reth =
  reth_vaddr :: u64
  reth_rkey :: u32
  reth_dmalen :: u32

record pib_packet_atomiceth =
  aeth_vaddr :: u64
  aeth_rkey :: u32
  aeth_swap_dt :: u64
  aeth_cmp_dt :: u64

abbreviation (input) "sizeof_lrh \<equiv> (8 :: nat)"
abbreviation (input) "sizeof_grh \<equiv> (40 :: nat)"
abbreviation (input) "sizeof_bth \<equiv> (12 :: nat)"
abbreviation (input) "sizeof_deth \<equiv> (8 :: nat)"
abbreviation (input) "sizeof_reth \<equiv> (16 :: nat)"
abbreviation (input) "sizeof_atomiceth \<equiv> (28 :: nat)"
abbreviation (input) "sizeof_aeth \<equiv> (4 :: nat)"
abbreviation (input) "sizeof_atomicacketh \<equiv> (8 :: nat)"
abbreviation (input) "sizeof_ieth \<equiv> (4 :: nat)"

section \<open>Accessors\<close>

definition pib_packet_lrh_get_pktlen :: "pib_packet_lrh \<Rightarrow> u16" where
  "pib_packet_lrh_get_pktlen lrh = lrh_pktlen lrh AND 0x7FF"

definition pib_packet_lrh_set_pktlen :: "u16 \<Rightarrow> pib_packet_lrh \<Rightarrow> pib_packet_lrh" where
  "pib_packet_lrh_set_pktlen v lrh = lrh \<lparr> lrh_pktlen := v AND 0x7FF \<rparr>"

definition pib_packet_bth_get_padcnt :: "pib_packet_bth \<Rightarrow> u8" where
  "pib_packet_bth_get_padcnt bth = drop_bit 4 (bth_se_m_padcnt_tver bth) AND 0x3"

definition pib_packet_bth_set_padcnt :: "u8 \<Rightarrow> pib_packet_bth \<Rightarrow> pib_packet_bth" where
  "pib_packet_bth_set_padcnt padcnt bth = bth \<lparr> bth_se_m_padcnt_tver :=
     (bth_se_m_padcnt_tver bth AND NOT 0x30) OR push_bit 4 (padcnt AND 0x3) \<rparr>"

definition pib_packet_bth_get_solicited :: "pib_packet_bth \<Rightarrow> u8" where
  "pib_packet_bth_get_solicited bth = drop_bit 7 (bth_se_m_padcnt_tver bth) AND 0x1"

definition pib_packet_bth_set_solicited :: "bool \<Rightarrow> pib_packet_bth \<Rightarrow> pib_packet_bth" where
  "pib_packet_bth_set_solicited solicited bth = bth \<lparr> bth_se_m_padcnt_tver :=
     (bth_se_m_padcnt_tver bth AND NOT 0x80) OR push_bit 7 (of_bool solicited) \<rparr>"

section \<open>Packed layout\<close>

definition lrh_bytes :: "pib_packet_lrh \<Rightarrow> u8 list" where
  "lrh_bytes lrh = bytes_be 2 (lrh_dlid lrh) @ [lrh_vl_lver lrh] @ [lrh_sl_rsv_lnh lrh] @
     bytes_be 2 (lrh_slid lrh) @ bytes_be 2 (lrh_pktlen lrh)"

definition lrh_of_bytes :: "u8 list \<Rightarrow> pib_packet_lrh" where
  "lrh_of_bytes b = \<lparr> lrh_dlid = word_be (field_at 0 2 b), lrh_vl_lver = b ! 2,
     lrh_sl_rsv_lnh = b ! 3, lrh_slid = word_be (field_at 4 2 b),
     lrh_pktlen = word_be (field_at 6 2 b) \<rparr>"

definition grh_bytes :: "ib_grh \<Rightarrow> u8 list" where
  "grh_bytes grh = bytes_be 4 (grh_version_tclass_flow grh) @ bytes_be 2 (grh_paylen grh) @
     [grh_next_hdr grh] @ [grh_hop_limit grh] @
     bytes_be 8 (grh_sgid_prefix grh) @ bytes_be 8 (grh_sgid_id grh) @
     bytes_be 8 (grh_dgid_prefix grh) @ bytes_be 8 (grh_dgid_id grh)"

definition grh_of_bytes :: "u8 list \<Rightarrow> ib_grh" where
  "grh_of_bytes b = \<lparr> grh_version_tclass_flow = word_be (field_at 0 4 b),
     grh_paylen = word_be (field_at 4 2 b), grh_next_hdr = b ! 6, grh_hop_limit = b ! 7,
     grh_sgid_prefix = word_be (field_at 8 8 b), grh_sgid_id = word_be (field_at 16 8 b),
     grh_dgid_prefix = word_be (field_at 24 8 b), grh_dgid_id = word_be (field_at 32 8 b) \<rparr>"

definition bth_bytes :: "pib_packet_bth \<Rightarrow> u8 list" where
  "bth_bytes bth = [bth_OpCode bth] @ [bth_se_m_padcnt_tver bth] @ bytes_be 2 (bth_pkey bth) @
     bytes_be 4 (bth_destQP bth) @ bytes_be 4 (bth_psn bth)"

definition bth_of_bytes :: "u8 list \<Rightarrow> pib_packet_bth" where
  "bth_of_bytes b = \<lparr> bth_OpCode = b ! 0, bth_se_m_padcnt_tver = b ! 1,
     bth_pkey = word_be (field_at 2 2 b), bth_destQP = word_be (field_at 4 4 b),
     bth_psn = word_be (field_at 8 4 b) \<rparr>"

definition deth_bytes :: "pib_packet_deth \<Rightarrow> u8 list" where
  "deth_bytes deth = bytes_be 4 (deth_qkey deth) @ bytes_be 4 (deth_srcQP deth)"

definition deth_of_bytes :: "u8 list \<Rightarrow> pib_packet_deth" where
  "deth_of_bytes b = \<lparr> deth_qkey = word_be (field_at 0 4 b), deth_srcQP = word_be (field_at 4 4 b) \<rparr>"

definition reth_bytes :: "pib_packet_reth \<Rightarrow> u8 list" where
  "reth_bytes reth = bytes_be 8 (reth_vaddr reth) @ bytes_be 4 (reth_rkey reth) @
     bytes_be 4 (reth_dmalen reth)"

definition reth_of_bytes :: "u8 list \<Rightarrow> pib_packet_reth" where
  "reth_of_bytes b = \<lparr> reth_vaddr = word_be (field_at 0 8 b), reth_rkey = word_be (field_at 8 4 b),
     reth_dmalen = word_be (field_at 12 4 b) \<rparr>"

definition atomiceth_bytes :: "pib_packet_atomiceth \<Rightarrow> u8 list" where
  "atomiceth_bytes ae = bytes_be 8 (aeth_vaddr ae) @ bytes_be 4 (aeth_rkey ae) @
     bytes_be 8 (aeth_swap_dt ae) @ bytes_be 8 (aeth_cmp_dt ae)"

definition atomiceth_of_bytes :: "u8 list \<Rightarrow> pib_packet_atomiceth" where
  "atomiceth_of_bytes b = \<lparr> aeth_vaddr = word_be (field_at 0 8 b),
     aeth_rkey = word_be (field_at 8 4 b), aeth_swap_dt = word_be (field_at 12 8 b),
     aeth_cmp_dt = word_be (field_at 20 8 b) \<rparr>"

lemmas header_layout_defs =
  lrh_bytes_def lrh_of_bytes_def grh_bytes_def grh_of_bytes_def bth_bytes_def bth_of_bytes_def
  deth_bytes_def deth_of_bytes_def reth_bytes_def reth_of_bytes_def
  atomiceth_bytes_def atomiceth_of_bytes_def

section \<open>Packets and the header parser\<close>

record packet =
  pkt_lrh :: pib_packet_lrh
  pkt_grh :: "ib_grh option"
  pkt_bth :: pib_packet_bth
  pkt_rest :: "u8 list"

definition packet_bytes :: "packet \<Rightarrow> u8 list" where
  "packet_bytes p = lrh_bytes (pkt_lrh p) @
     (case pkt_grh p of None \<Rightarrow> [] | Some g \<Rightarrow> grh_bytes g) @
     bth_bytes (pkt_bth p) @ pkt_rest p"

type_synonym parsed_header = "nat \<times> pib_packet_lrh \<times> ib_grh option \<times> pib_packet_bth option"

definition pib_parse_packet_header :: "u8 list \<Rightarrow> nat \<Rightarrow> int + parsed_header" where
  "pib_parse_packet_header buffer size0 =
    (let lrh = lrh_of_bytes buffer in
     if size0 < sizeof_lrh then Inl (-1)
     else if unat (pib_packet_lrh_get_pktlen lrh) * 4 \<noteq> size0 then Inl (-1)
     else
       let buffer = drop sizeof_lrh buffer; size1 = size0 - sizeof_lrh; ret = sizeof_lrh in
       if lrh_vl_lver lrh AND 0xF \<noteq> 0 then Inl (-2)
       else
         let lnh = lrh_sl_rsv_lnh lrh AND 0x3;
             skip_grh = (\<lambda>grh buffer sz ret.
               if sz < sizeof_bth then Inl (-1)
               else Inr (ret + sizeof_bth, lrh, grh, Some (bth_of_bytes buffer)))
         in if lnh = 0x2 then skip_grh None buffer size1 ret
            else if lnh = 0 then Inr (ret, lrh, None, None)
            else if lnh \<noteq> 0x3 then Inl (-3)
            else if size1 < sizeof_grh then Inl (-1)
            else skip_grh (Some (grh_of_bytes buffer)) (drop sizeof_grh buffer)
                   (size1 - sizeof_grh) (ret + sizeof_grh))"

section \<open>Round trips\<close>

lemma length_headers [simp]:
  "length (lrh_bytes l) = sizeof_lrh" "length (grh_bytes g) = sizeof_grh"
  "length (bth_bytes b) = sizeof_bth" "length (deth_bytes d) = sizeof_deth"
  "length (reth_bytes r) = sizeof_reth" "length (atomiceth_bytes a) = sizeof_atomiceth"
  by (simp_all add: header_layout_defs)

lemma lrh_of_bytes_append [simp]: "lrh_of_bytes (lrh_bytes l @ xs) = l"
  by (simp add: header_layout_defs nth_append)

lemma grh_of_bytes_append [simp]: "grh_of_bytes (grh_bytes g @ xs) = g"
  by (simp add: header_layout_defs nth_append)

lemma bth_of_bytes_append [simp]: "bth_of_bytes (bth_bytes b @ xs) = b"
  by (simp add: header_layout_defs nth_append)

lemma deth_of_bytes_append [simp]: "deth_of_bytes (deth_bytes d @ xs) = d"
  by (simp add: header_layout_defs)

lemma reth_of_bytes_append [simp]: "reth_of_bytes (reth_bytes r @ xs) = r"
  by (simp add: header_layout_defs)

lemma atomiceth_of_bytes_append [simp]: "atomiceth_of_bytes (atomiceth_bytes a @ xs) = a"
  by (simp add: header_layout_defs)

lemma byte_eqI:
  assumes "\<And>i. i \<in> {0, 1, 2, 3, 4, 5, 6, 7} \<Longrightarrow> bit a i = bit b i"
  shows "(a :: u8) = b"
proof (rule bit_word_eqI)
  fix i
  assume "i < LENGTH(8)"
  then have "i \<in> {0, 1, 2, 3, 4, 5, 6, 7}"
    by auto
  then show "bit a i = bit b i"
    by (rule assms)
qed

text \<open>
  The pad count and the solicited bit share one byte of the base transport header.
  Setting either one makes its getter return the value set (reduced to its width), leaves
  the getter of the other alone, and keeps the transport version in the low four bits.
\<close>

theorem bth_bit_fields:
  "pib_packet_bth_get_padcnt (pib_packet_bth_set_padcnt n b) = n AND 3 \<and>
   pib_packet_bth_get_solicited (pib_packet_bth_set_padcnt n b) = pib_packet_bth_get_solicited b \<and>
   pib_packet_bth_get_solicited (pib_packet_bth_set_solicited s b) = of_bool s \<and>
   pib_packet_bth_get_padcnt (pib_packet_bth_set_solicited s b) = pib_packet_bth_get_padcnt b \<and>
   bth_se_m_padcnt_tver (pib_packet_bth_set_solicited s (pib_packet_bth_set_padcnt n b)) AND 0xF
     = bth_se_m_padcnt_tver b AND 0xF"
  unfolding pib_packet_bth_get_padcnt_def pib_packet_bth_get_solicited_def
    pib_packet_bth_set_padcnt_def pib_packet_bth_set_solicited_def
  by (intro conjI byte_eqI; elim insertE emptyE; simp add: bit_simps)

text \<open>
  C40. Parsing the bytes of a packet, whatever follows them in the receive buffer, gives
  back its local route header, its global route header exactly when it has one, and its
  base transport header, and the returned header length is the offset of the rest, for
  every packet whose length field counts its four-byte words, whose link version is zero
  and whose next-header field says whether a global route header follows.
\<close>

theorem parse_packet_bytes:
  assumes "unat (pib_packet_lrh_get_pktlen (pkt_lrh p)) * 4 = length (packet_bytes p)"
    and "lrh_vl_lver (pkt_lrh p) AND 0xF = 0"
    and "lrh_sl_rsv_lnh (pkt_lrh p) AND 0x3 = (if pkt_grh p = None then 2 else 3)"
  shows "\<exists>n. pib_parse_packet_header (packet_bytes p @ footer) (length (packet_bytes p)) =
      Inr (n, pkt_lrh p, pkt_grh p, Some (pkt_bth p)) \<and>
    drop n (packet_bytes p) = pkt_rest p"
proof (cases "pkt_grh p")
  case None
  with assms show ?thesis
    by (intro exI [of _ 20])
       (simp add: pib_parse_packet_header_def packet_bytes_def)
next
  case (Some g)
  with assms show ?thesis
    by (intro exI [of _ 60])
       (simp add: pib_parse_packet_header_def packet_bytes_def)
qed

theorem parse_packet_bytes_witness:
  "\<exists>n. pib_parse_packet_header
     (packet_bytes \<lparr> pkt_lrh = \<lparr> lrh_dlid = 2, lrh_vl_lver = 0, lrh_sl_rsv_lnh = 2, lrh_slid = 1, lrh_pktlen = 6 \<rparr>,
        pkt_grh = None,
        pkt_bth = \<lparr> bth_OpCode = 4, bth_se_m_padcnt_tver = 0, bth_pkey = 0xFFFF, bth_destQP = 5, bth_psn = 7 \<rparr>,
        pkt_rest = [1, 2, 3, 4] \<rparr> @ [0, 0]) 24 =
     Inr (n, \<lparr> lrh_dlid = 2, lrh_vl_lver = 0, lrh_sl_rsv_lnh = 2, lrh_slid = 1, lrh_pktlen = 6 \<rparr>, None,
        Some \<lparr> bth_OpCode = 4, bth_se_m_padcnt_tver = 0, bth_pkey = 0xFFFF, bth_destQP = 5, bth_psn = 7 \<rparr>)"
  using parse_packet_bytes [of "\<lparr> pkt_lrh = \<lparr> lrh_dlid = 2, lrh_vl_lver = 0, lrh_sl_rsv_lnh = 2, lrh_slid = 1, lrh_pktlen = 6 \<rparr>,
        pkt_grh = None,
        pkt_bth = \<lparr> bth_OpCode = 4, bth_se_m_padcnt_tver = 0, bth_pkey = 0xFFFF, bth_destQP = 5, bth_psn = 7 \<rparr>,
        pkt_rest = [1, 2, 3, 4] \<rparr>" "[0, 0]"]
  by (auto simp: pib_packet_lrh_get_pktlen_def packet_bytes_def)

end
