(* ===== verification/Pib_State.thy ===== *)
theory Pib_State
  imports Pib_Packet "HOL-Library.Tree"
begin

text \<open>
  The structures of \<^verbatim>\<open>driver/pib.h\<close> as records, and the device they hang from.

  A \<^verbatim>\<open>struct pib_dev\<close> is a record that also carries one heap per object type (pointer to
  structure), the byte memory the memory regions point into, and the environment of the
  module: its parameters, the clock, and the oracles (which allocations and which calls of
  \<^verbatim>\<open>kernel_sendmsg\<close> succeed, and the entropy \<^verbatim>\<open>pib_random\<close> mixes).  Calls out of the driver
  (completion and event handlers) and transmitted packets are appended to logs.

  Operations on one queue pair take the device and the queue pair and return both, the way
  the C functions receive \<^verbatim>\<open>dev\<close> and \<^verbatim>\<open>qp\<close>; the caller holds the queue pair's lock for their
  whole duration.

  Locks, creation times, and the execution trace of \<^verbatim>\<open>debugfs\<close> are not part of the state.
\<close>

section \<open>Work requests and completions\<close>

record ib_sge =
  sge_addr :: u64
  sge_length :: u32
  sge_lkey :: u32

record ib_wc =
  wc_wr_id :: u64
  wc_status :: ib_wc_status
  wc_opcode :: u32
  wc_byte_len :: u32
  wc_qp :: nat
  wc_ex :: u32
  wc_src_qp :: u32
  wc_flags :: u32
  wc_pkey_index :: u16
  wc_slid :: u16
  wc_sl :: u8
  wc_dlid_path_bits :: u8
  wc_port_num :: u8

definition zero_wc :: ib_wc where
  "zero_wc = \<lparr> wc_wr_id = 0, wc_status = IB_WC_SUCCESS, wc_opcode = 0, wc_byte_len = 0,
     wc_qp = 0, wc_ex = 0, wc_src_qp = 0, wc_flags = 0, wc_pkey_index = 0, wc_slid = 0,
     wc_sl = 0, wc_dlid_path_bits = 0, wc_port_num = 0 \<rparr>"

datatype pib_swqe_list = PIB_SWQE_FREE | PIB_SWQE_SUBMITTED | PIB_SWQE_SENDING | PIB_SWQE_WAITING

record pib_swqe_processing =
  list_type :: pib_swqe_list
  pr_status :: ib_wc_status
  based_psn :: u32
  pr_expected_psn :: u32
  all_packets :: u32
  ack_packets :: u32
  sent_packets :: u32
  first_sent_packets :: u32
  schedule_time :: u64
  local_ack_time :: u64
  retry_cnt :: int
  rnr_retry :: int
  pr_done :: bool

record ib_fast_reg_page_list =
  fpl_max_page_list_len :: u32
  fpl_page_list :: "u64 list"

record fast_reg_wr =
  fr_iova_start :: u64
  fr_page_list :: ib_fast_reg_page_list
  fr_page_shift :: nat
  fr_page_list_len :: u32
  fr_length :: u32
  fr_access_flags :: u32
  fr_rkey :: u32

text \<open>
  The unions of \<^verbatim>\<open>struct pib_send_wqe\<close>: \<^verbatim>\<open>ex\<close> is one 32-bit cell (immediate data or the
  R_Key to invalidate); of \<^verbatim>\<open>wr\<close> only the member of the request's opcode is ever used.
\<close>

record pib_send_wqe =
  swqe_wr_id :: u64
  swqe_opcode :: ib_wr_opcode
  swqe_trace_id :: u32
  local_only_request :: bool
  swqe_send_flags :: u32
  swqe_total_length :: u32
  swqe_sge_array :: "ib_sge list"
  processing :: pib_swqe_processing
  swqe_ex :: u32
  swqe_inline_data :: "u8 list"
  rdma_remote_addr :: u64
  rdma_rkey :: u32
  atomic_remote_addr :: u64
  atomic_compare_add :: u64
  atomic_swap :: u64
  atomic_rkey :: u32
  ud_ah :: "nat option"
  ud_remote_qpn :: u32
  ud_remote_qkey :: u32
  ud_pkey_index :: u16
  ud_port_num :: u8
  swqe_fast_reg :: fast_reg_wr

record pib_recv_wqe =
  rwqe_wr_id :: u64
  rwqe_total_length :: u32
  rwqe_sge_array :: "ib_sge list"

text \<open>
  The work requests of the verbs.  A chain linked by \<^verbatim>\<open>next\<close> is a list; the member of the
  send request's union that its opcode uses is in the same fields as in the queue entry.
\<close>

record ib_recv_wr =
  rwr_wr_id :: u64
  rwr_num_sge :: int
  rwr_sg_list :: "ib_sge list"

record ib_send_wr =
  swr_wr_id :: u64
  swr_num_sge :: int
  swr_sg_list :: "ib_sge list"
  swr_opcode :: ib_wr_opcode
  swr_send_flags :: u32
  swr_ex :: u32
  swr_rdma_remote_addr :: u64
  swr_rdma_rkey :: u32
  swr_atomic_remote_addr :: u64
  swr_atomic_compare_add :: u64
  swr_atomic_swap :: u64
  swr_atomic_rkey :: u32
  swr_ud_ah :: "nat option"
  swr_ud_remote_qpn :: u32
  swr_ud_remote_qkey :: u32
  swr_ud_pkey_index :: u16
  swr_ud_port_num :: u8
  swr_fast_reg :: fast_reg_wr

abbreviation (input) "IB_SEND_FENCE \<equiv> (1 :: u32)"
abbreviation (input) "IB_SEND_SIGNALED \<equiv> (2 :: u32)"
abbreviation (input) "IB_SEND_SOLICITED \<equiv> (4 :: u32)"
abbreviation (input) "IB_SEND_INLINE \<equiv> (8 :: u32)"

abbreviation (input) "IB_WC_GRH \<equiv> (1 :: u32)"
abbreviation (input) "IB_WC_WITH_IMM \<equiv> (2 :: u32)"
abbreviation (input) "IB_WC_WITH_INVALIDATE \<equiv> (4 :: u32)"

abbreviation (input) "IB_ACCESS_LOCAL_WRITE \<equiv> (1 :: u32)"
abbreviation (input) "IB_ACCESS_REMOTE_WRITE \<equiv> (2 :: u32)"
abbreviation (input) "IB_ACCESS_REMOTE_READ \<equiv> (4 :: u32)"
abbreviation (input) "IB_ACCESS_REMOTE_ATOMIC \<equiv> (8 :: u32)"

section \<open>Protection domains and memory regions\<close>

datatype pib_mr_state = PIB_MR_INVALID | PIB_MR_FREE | PIB_MR_VALID

text \<open>
  The pinned user memory of \<^verbatim>\<open>ib_umem_get\<close>: the kernel addresses of its pages (\<^verbatim>\<open>None\<close> where
  \<^verbatim>\<open>page_address\<close> gives \<^verbatim>\<open>NULL\<close>), the offset of the region in the first page, and the page size.
\<close>

record ib_umem =
  umem_pages :: "u64 option list"
  umem_offset :: u64
  umem_page_size :: u64

record pib_mr =
  mr_lkey :: u32
  mr_rkey :: u32
  mr_pd :: nat
  mr_umem :: "ib_umem option"
  mr_num :: u32
  mr_state :: pib_mr_state
  is_fast_reg_mr :: bool
  mr_is_dma :: bool
  mr_start :: u64
  mr_length :: u64
  mr_virt_addr :: u64
  mr_access_flags :: u32
  max_page_list_len :: u32
  page_list_len :: u32
  mr_page_list :: "u64 list"
  page_shift :: nat

record pib_pd =
  pd_num :: u32
  pd_nr_mr :: int
  mr_table :: "nat \<Rightarrow> nat option"

record pib_ucontext =
  ucontext_num :: u32

section \<open>Completion queues and shared receive queues\<close>

datatype pib_state = PIB_STATE_OK | PIB_STATE_ERR

datatype cq_notify = No_notify | IB_CQ_SOLICITED | IB_CQ_NEXT_COMP

record pib_cq =
  cq_num :: u32
  cq_cqe :: int
  cq_state :: pib_state
  notify_flag :: cq_notify
  has_notified :: bool
  nr_cqe :: int
  cqe_head :: "ib_wc list"
  free_cqe_head :: "ib_wc list"

record pib_srq =
  srq_max_wr :: u32
  srq_max_sge :: u32
  srq_srq_limit :: u32
  srq_pd :: nat
  srq_num :: u32
  srq_state :: pib_state
  srq_nr_recv_wqe :: int
  srq_recv_wqe_head :: "pib_recv_wqe list"
  srq_free_recv_wqe_head :: "pib_recv_wqe list"
  issue_srq_limit :: bool

section \<open>Queue pairs\<close>

record ib_qp_cap =
  cap_max_send_wr :: u32
  cap_max_recv_wr :: u32
  cap_max_send_sge :: u32
  cap_max_recv_sge :: u32
  cap_max_inline_data :: u32

record ib_ah_attr =
  ah_dlid :: u16
  ah_sl :: u8
  ah_src_path_bits :: u8
  ah_flags :: u32
  ah_port_num :: u8
  ah_dgid_prefix :: u64
  ah_dgid_id :: u64
  ah_flow_label :: u32
  ah_sgid_index :: u8
  ah_hop_limit :: u8
  ah_traffic_class :: u8

abbreviation (input) "IB_AH_GRH \<equiv> (1 :: u32)"

record pib_ah =
  ah_pd :: nat
  ah_num :: u32
  ib_ah_attr :: ib_ah_attr

record ib_qp_attr =
  path_mtu :: nat
  attr_qkey :: u32
  rq_psn :: u32
  sq_psn :: u32
  dest_qp_num :: u32
  qp_access_flags :: u32
  attr_cap :: ib_qp_cap
  ah_attr :: ib_ah_attr
  alt_ah_attr :: ib_ah_attr
  attr_pkey_index :: u16
  alt_pkey_index :: u16
  max_rd_atomic :: u8
  max_dest_rd_atomic :: u8
  min_rnr_timer :: u8
  attr_port_num :: u8
  attr_timeout :: u8
  attr_retry_cnt :: u8
  attr_rnr_retry :: u8
  alt_port_num :: u8
  alt_timeout :: u8
  en_sqd_async_notify :: bool
  path_mig_state :: nat

datatype ib_sig_type = IB_SIGNAL_ALL_WR | IB_SIGNAL_REQ_WR

record ib_qp_init_attr =
  init_srq :: "nat option"
  init_send_cq :: "nat option"
  init_recv_cq :: "nat option"
  init_cap :: ib_qp_cap
  sq_sig_type :: ib_sig_type
  init_qp_type :: ib_qp_type
  init_port_num :: u8
  init_create_flags :: u32

record pib_rd_atom_slot =
  slot_psn :: u32
  slot_expected_psn :: u32
  slot_OpCode :: u8
  slot_vaddress :: u64
  slot_rkey :: u32
  slot_dmalen :: u32
  slot_atomic_res :: u64

datatype pib_ack_type = PIB_ACK_NORMAL | PIB_ACK_RMDA_READ | PIB_ACK_ATOMIC

record pib_ack =
  ack_type :: pib_ack_type
  ack_psn :: u32
  ack_expected_psn :: u32
  ack_msn :: u32
  ack_syndrome :: u8
  ack_vaddress :: u64
  ack_rkey :: u32
  ack_size :: u32
  ack_offset :: u32
  ack_atomic_res :: u64

record pib_requester =
  req_psn :: u32
  req_expected_psn :: u32
  nr_submitted_swqe :: int
  submitted_swqe_head :: "pib_send_wqe list"
  nr_sending_swqe :: int
  sending_swqe_head :: "pib_send_wqe list"
  nr_waiting_swqe :: int
  waiting_swqe_head :: "pib_send_wqe list"
  req_max_rd_atomic :: u8
  req_nr_rd_atomic :: int
  free_swqe_head :: "pib_send_wqe list"
  nr_contig_requests :: int
  req_nr_contig_read_acks :: int

record pib_responder =
  rsp_psn :: u32
  rsp_nr_recv_wqe :: int
  rsp_recv_wqe_head :: "pib_recv_wqe list"
  rsp_nr_rd_atomic :: int
  ack_head :: "pib_ack list"
  free_rwqe_head :: "pib_recv_wqe list"
  last_OpCode :: u8
  rsp_offset :: u32
  rdma_write_vaddr :: u64
  rdma_write_rkey :: u32
  rdma_write_dmalen :: u32
  slot_index :: nat
  slots :: "pib_rd_atom_slot list"
  rsp_nr_contig_read_acks :: int

record pib_qp =
  qp_ptr :: nat
  qp_num :: u32
  qp_type :: ib_qp_type
  qp_state :: ib_qp_state
  qp_pd :: nat
  qp_event_handler :: bool
  send_cq :: nat
  recv_cq :: nat
  qp_attr :: ib_qp_attr
  qp_init_attr :: ib_qp_init_attr
  qp_local_ack_timeout :: u64
  sched_on :: bool
  sched_time :: u64
  sched_tid :: u64
  requester :: pib_requester
  responder :: pib_responder
  mcast_head :: "u16 list"
  push_rcqe :: bool
  issue_comm_est :: bool
  issue_sq_drained :: bool
  issue_last_wqe_reached :: bool

section \<open>The device\<close>

datatype ib_event_type =
    IB_EVENT_CQ_ERR | IB_EVENT_QP_FATAL | IB_EVENT_QP_REQ_ERR | IB_EVENT_QP_ACCESS_ERR
  | IB_EVENT_COMM_EST | IB_EVENT_SQ_DRAINED | IB_EVENT_SRQ_ERR | IB_EVENT_SRQ_LIMIT_REACHED
  | IB_EVENT_QP_LAST_WQE_REACHED
  | IB_EVENT_PORT_ACTIVE | IB_EVENT_PORT_ERR | IB_EVENT_LID_CHANGE | IB_EVENT_PKEY_CHANGE
  | IB_EVENT_SM_CHANGE | IB_EVENT_CLIENT_REREGISTER

datatype pib_callback =
    Comp_handler nat
  | Cq_event ib_event_type nat
  | Srq_event ib_event_type nat
  | Qp_event ib_event_type nat
  | Port_event ib_event_type u32

datatype pib_work = Cq_overflow_work nat | Srq_error_work nat | Netd_comm_work u8

text \<open>
  The state of a port is written by the subnet manager; like the enumeration of the code, it can
  hold numbers without a name.
\<close>

abbreviation (input) "IB_PORT_NOP \<equiv> (0 :: u8)"
abbreviation (input) "IB_PORT_DOWN \<equiv> (1 :: u8)"
abbreviation (input) "IB_PORT_INIT \<equiv> (2 :: u8)"
abbreviation (input) "IB_PORT_ARMED \<equiv> (3 :: u8)"
abbreviation (input) "IB_PORT_ACTIVE \<equiv> (4 :: u8)"
abbreviation (input) "IB_PORT_ACTIVE_DEFER \<equiv> (5 :: u8)"

record pib_port_perf =
  perf_OpCode :: u8
  perf_tag :: u16
  perf_counter_select :: "u16 list"
  perf_counter :: "u64 list"
  symbol_error_counter :: u64
  link_error_recovery_counter :: u64
  link_downed_counter :: u64
  rcv_errors :: u64
  rcv_remphys_errors :: u64
  rcv_switch_relay_errors :: u64
  xmit_discards :: u64
  xmit_constraint_errors :: u64
  rcv_constraint_errors :: u64
  local_link_integrity_errors :: u64
  excessive_buffer_overrun_errors :: u64
  vl15_dropped :: u64
  xmit_data :: u64
  rcv_data :: u64
  xmit_packets :: u64
  rcv_packets :: u64
  xmit_wait :: u64
  unicast_xmit_packets :: u64
  unicast_rcv_packets :: u64
  multicast_xmit_packets :: u64
  multicast_rcv_packets :: u64

text \<open>
  What the ports of an adapter, of the easy switch and of \<^verbatim>\<open>pibnetd\<close> have in common: the attributes
  that subnet management reads and writes, and the counters.  A socket address is only passed on; it is a number here.
\<close>

record mgmt_port =
  port_port_num :: u8
  port_state :: u8
  port_max_mtu :: nat
  port_active_mtu :: nat
  port_gid_tbl_len :: nat
  port_port_cap_flags :: u32
  port_max_msg_sz :: u32
  port_bad_pkey_cntr :: u32
  port_qkey_viol_cntr :: u32
  port_pkey_tbl_len :: u16
  port_lid :: u16
  port_sm_lid :: u16
  port_lmc :: u8
  port_max_vl_num :: u8
  port_active_width :: u8
  port_active_speed :: u8
  port_phys_state :: u8
  port_mkey :: u8
  port_mkeyprot :: u8
  port_mkey_lease_period :: u16
  port_link_down_default_state :: u8
  port_link_width_enabled :: u8
  port_link_speed_enabled :: u8
  port_master_smsl :: u8
  port_client_reregister :: u8
  port_subnet_timeout :: u8
  port_local_phy_errors :: u8
  port_overrun_errors :: u8
  port_perf :: pib_port_perf
  port_gid :: "(u64 \<times> u64) list"
  port_pkey_table :: "u16 list"

record pib_port = mgmt_port +
  port_is_connected :: bool
  port_sockaddr :: nat
  port_qp_info :: "nat \<Rightarrow> nat option"
  port_to_udp_port :: u16

record pib_thread =
  thread_stop :: bool
  thread_wq_schedule :: bool
  thread_ready_to_recv :: bool
  thread_qp_schedule :: bool
  send_buffer :: "packet option"
  thread_port_num :: u8
  thread_slid :: u16
  thread_dlid :: u16
  thread_src_qp_num :: u32
  thread_trace_id :: u32
  ready_to_send :: bool

text \<open>The triple a list of objects comes with: last number given out, count, the list.\<close>

record obj_list =
  last_num :: nat
  nr_obj :: int
  obj_head :: "nat list"

record ib_device_attr =
  max_qp :: int
  max_qp_wr :: int
  max_sge :: int
  max_cq :: int
  max_cqe :: int
  max_mr :: int
  max_pd :: int
  max_qp_rd_atom :: int
  max_srq :: int
  max_srq_wr :: int
  max_srq_sge :: int
  max_qp_init_rd_atom :: int
  cap_srq_resize :: bool
  cap_change_phy_port :: bool
  cap_resize_max_wr :: bool
  sys_image_guid :: u64
  local_ca_ack_delay :: u8

record pib_module =
  pib_behavior :: u64
  pib_manner_warn :: u64
  pib_manner_err :: u64
  kernel_HZ :: nat
  imm_data_lkey_hack :: bool
  multi_host_mode :: bool
  netd_sockaddr :: nat
  hca_guid_base :: u64
  attr_oob :: "u8 \<Rightarrow> u32"
  inline_oob :: "nat \<Rightarrow> u8"
  entropy :: "nat \<Rightarrow> u32"

type_synonym sched_node = "u64 \<times> u64 \<times> nat"

record pib_dev =
  module :: pib_module
  jiffies :: u64
  kmem :: "bool list"
  sendmsg_ok :: "bool list"
  random_count :: u32
  next_ptr :: nat
  ib_dev_attr :: ib_device_attr
  dev_id :: nat
  node_guid :: u64
  node_desc :: "u8 list"
  obj_num_bitmap :: "nat \<Rightarrow> bool"
  phys_port_cnt :: nat
  ucontext_list :: obj_list
  ah_list :: obj_list
  pd_list :: obj_list
  mr_list :: obj_list
  srq_list :: obj_list
  cq_list :: obj_list
  qp_list :: obj_list
  qp_table :: "(u32 \<times> nat) tree"
  wakeup_time :: u64
  master_tid :: u64
  sched_root :: "sched_node tree"
  wq_head :: "pib_work list"
  timer_head :: "(u64 \<times> pib_work) list"
  thread :: pib_thread
  mcast_table :: "u16 \<Rightarrow> (nat \<times> u32) list"
  ports :: "pib_port list"
  perf_local_ack_timeout :: u64
  lid_table :: "u16 \<Rightarrow> nat option"
  easy_sw_sockaddr :: "nat option"
  wire :: "(nat \<times> packet) list"
  callbacks :: "pib_callback list"
  ucontexts :: "nat \<Rightarrow> pib_ucontext"
  ahs :: "nat \<Rightarrow> pib_ah"
  pds :: "nat \<Rightarrow> pib_pd"
  mrs :: "nat \<Rightarrow> pib_mr"
  cqs :: "nat \<Rightarrow> pib_cq"
  srqs :: "nat \<Rightarrow> pib_srq"
  qps :: "nat \<Rightarrow> pib_qp"
  mem :: "u64 \<Rightarrow> u8"

abbreviation upd_cq :: "nat \<Rightarrow> (pib_cq \<Rightarrow> pib_cq) \<Rightarrow> pib_dev \<Rightarrow> pib_dev" where
  "upd_cq p f d \<equiv> d \<lparr> cqs := (cqs d)(p := f (cqs d p)) \<rparr>"

abbreviation upd_srq :: "nat \<Rightarrow> (pib_srq \<Rightarrow> pib_srq) \<Rightarrow> pib_dev \<Rightarrow> pib_dev" where
  "upd_srq p f d \<equiv> d \<lparr> srqs := (srqs d)(p := f (srqs d p)) \<rparr>"

abbreviation upd_mr :: "nat \<Rightarrow> (pib_mr \<Rightarrow> pib_mr) \<Rightarrow> pib_dev \<Rightarrow> pib_dev" where
  "upd_mr p f d \<equiv> d \<lparr> mrs := (mrs d)(p := f (mrs d p)) \<rparr>"

abbreviation upd_pd :: "nat \<Rightarrow> (pib_pd \<Rightarrow> pib_pd) \<Rightarrow> pib_dev \<Rightarrow> pib_dev" where
  "upd_pd p f d \<equiv> d \<lparr> pds := (pds d)(p := f (pds d p)) \<rparr>"

section \<open>Module-wide helpers\<close>

abbreviation (input) "PIB_BEHAVIOR_AH_PD_VIOLATOIN_COMP_ERR \<equiv> (1 :: nat)"
abbreviation (input) "PIB_BEHAVIOR_RDMA_WRITE_WITH_IMM_ALWAYS_ASYNC_ERR \<equiv> (2 :: nat)"
abbreviation (input) "PIB_BEHAVIOR_SRQ_SHUFFLE \<equiv> (3 :: nat)"
abbreviation (input) "PIB_BEHAVIOR_CORRUPT_INVALID_WC_ATTRS \<equiv> (4 :: nat)"
abbreviation (input) "PIB_BEHAVIOR_QPN_REALLOCATION \<equiv> (5 :: nat)"
abbreviation (input) "PIB_BEHAVIOR_RELAXED_INVALIDATION_ORDERING \<equiv> (6 :: nat)"
abbreviation (input) "PIB_BEHAVIOR_ZERO_LEN_SGE_CONSIDER_AS_MAX_LEN \<equiv> (16 :: nat)"

abbreviation (input) "PIB_MAX_PAYLOAD_LEN \<equiv> (0x40000000 :: u64)"
abbreviation (input) "PIB_MAX_SGE \<equiv> (32 :: nat)"
abbreviation (input) "PIB_MAX_RD_ATOM \<equiv> (16 :: nat)"

definition pib_get_behavior :: "pib_dev \<Rightarrow> nat \<Rightarrow> bool" where
  "pib_get_behavior d b \<longleftrightarrow> flag_set (pib_behavior (module d)) (push_bit b 1)"

text \<open>
  \<^verbatim>\<open>kmem_cache_zalloc\<close> and \<^verbatim>\<open>kzalloc\<close>: the allocation oracle says for each call in turn
  whether it succeeds; behind its end every allocation succeeds.
\<close>

definition kmem_alloc :: "pib_dev \<Rightarrow> bool \<times> pib_dev" where
  "kmem_alloc d = (case kmem d of [] \<Rightarrow> (True, d) | b # bs \<Rightarrow> (b, d \<lparr> kmem := bs \<rparr>))"

lemma kmem_alloc_frame:
  assumes "kmem_alloc d = (ok, d')"
  shows "\<exists>bs. d' = d \<lparr> kmem := bs \<rparr>"
  using assms by (auto simp: kmem_alloc_def split: list.splits intro: exI [of _ "kmem d"])

text \<open>
  \<^verbatim>\<open>pib_random\<close>: the static counter is part of the device; the other terms of the
  exclusive or (the clock, the task, the cycle counter) come from the entropy oracle.
\<close>

definition pib_random :: "pib_dev \<Rightarrow> u32 \<times> pib_dev" where
  "pib_random d =
    (let count = random_count d + 1
     in (entropy (module d) (unat count) XOR count, d \<lparr> random_count := count \<rparr>))"

definition pib_queue_work :: "pib_work \<Rightarrow> pib_dev \<Rightarrow> pib_dev" where
  "pib_queue_work w d = d \<lparr> wq_head := wq_head d @ [w],
     thread := (thread d) \<lparr> thread_wq_schedule := True \<rparr> \<rparr>"

definition pib_cancel_work :: "pib_work \<Rightarrow> pib_dev \<Rightarrow> pib_dev" where
  "pib_cancel_work w d = d \<lparr> wq_head := remove1 w (wq_head d) \<rparr>"

text \<open>Delayed work: the time a timer fires at, and the work it then queues.\<close>

definition pib_queue_delayed_work :: "pib_work \<Rightarrow> u64 \<Rightarrow> pib_dev \<Rightarrow> pib_dev" where
  "pib_queue_delayed_work w delay d = d \<lparr> timer_head := timer_head d @ [(jiffies d + delay, w)] \<rparr>"

definition delayed_work_timeout_callback :: "u64 \<times> pib_work \<Rightarrow> pib_dev \<Rightarrow> pib_dev" where
  "delayed_work_timeout_callback w d =
    (let d = d \<lparr> timer_head := remove1 w (timer_head d), wq_head := wq_head d @ [snd w] \<rparr>
     in d \<lparr> thread := (thread d) \<lparr> thread_wq_schedule := True \<rparr> \<rparr>)"

definition pib_stop_delayed_queue :: "pib_dev \<Rightarrow> pib_dev" where
  "pib_stop_delayed_queue d = d \<lparr> wq_head := wq_head d @ map snd (timer_head d), timer_head := [] \<rparr>"

definition callback :: "pib_callback \<Rightarrow> pib_dev \<Rightarrow> pib_dev" where
  "callback c d = d \<lparr> callbacks := callbacks d @ [c] \<rparr>"

section \<open>Zeroed structures\<close>

text \<open>
  What \<^verbatim>\<open>kzalloc\<close> and \<^verbatim>\<open>kmem_cache_zalloc\<close> return, and a device on which nothing has been
  created yet.
\<close>

definition zero_mr :: pib_mr where
  "zero_mr = \<lparr> mr_lkey = 0, mr_rkey = 0, mr_pd = 0, mr_umem = None, mr_num = 0,
     mr_state = PIB_MR_INVALID, is_fast_reg_mr = False, mr_is_dma = False, mr_start = 0,
     mr_length = 0, mr_virt_addr = 0, mr_access_flags = 0, max_page_list_len = 0,
     page_list_len = 0, mr_page_list = [], page_shift = 0 \<rparr>"

definition zero_pd :: pib_pd where
  "zero_pd = \<lparr> pd_num = 0, pd_nr_mr = 0, mr_table = (\<lambda>_. None) \<rparr>"

definition zero_cq :: pib_cq where
  "zero_cq = \<lparr> cq_num = 0, cq_cqe = 0, cq_state = PIB_STATE_OK, notify_flag = No_notify,
     has_notified = False, nr_cqe = 0, cqe_head = [], free_cqe_head = [] \<rparr>"

definition zero_srq :: pib_srq where
  "zero_srq = \<lparr> srq_max_wr = 0, srq_max_sge = 0, srq_srq_limit = 0, srq_pd = 0, srq_num = 0,
     srq_state = PIB_STATE_OK, srq_nr_recv_wqe = 0, srq_recv_wqe_head = [],
     srq_free_recv_wqe_head = [], issue_srq_limit = False \<rparr>"

definition zero_rwqe :: pib_recv_wqe where
  "zero_rwqe = \<lparr> rwqe_wr_id = 0, rwqe_total_length = 0, rwqe_sge_array = [] \<rparr>"

definition zero_processing :: pib_swqe_processing where
  "zero_processing = \<lparr> list_type = PIB_SWQE_FREE, pr_status = IB_WC_SUCCESS, based_psn = 0,
     pr_expected_psn = 0, all_packets = 0, ack_packets = 0, sent_packets = 0,
     first_sent_packets = 0, schedule_time = 0, local_ack_time = 0, retry_cnt = 0,
     rnr_retry = 0, pr_done = False \<rparr>"

definition zero_swqe :: pib_send_wqe where
  "zero_swqe = \<lparr> swqe_wr_id = 0, swqe_opcode = IB_WR_RDMA_WRITE, swqe_trace_id = 0,
     local_only_request = False, swqe_send_flags = 0, swqe_total_length = 0,
     swqe_sge_array = [], processing = zero_processing, swqe_ex = 0, swqe_inline_data = [],
     rdma_remote_addr = 0, rdma_rkey = 0, atomic_remote_addr = 0, atomic_compare_add = 0,
     atomic_swap = 0, atomic_rkey = 0, ud_ah = None, ud_remote_qpn = 0, ud_remote_qkey = 0,
     ud_pkey_index = 0, ud_port_num = 0,
     swqe_fast_reg = \<lparr> fr_iova_start = 0,
       fr_page_list = \<lparr> fpl_max_page_list_len = 0, fpl_page_list = [] \<rparr>, fr_page_shift = 0,
       fr_page_list_len = 0, fr_length = 0, fr_access_flags = 0, fr_rkey = 0 \<rparr> \<rparr>"

definition zero_slot :: pib_rd_atom_slot where
  "zero_slot = \<lparr> slot_psn = 0, slot_expected_psn = 0, slot_OpCode = 0, slot_vaddress = 0,
     slot_rkey = 0, slot_dmalen = 0, slot_atomic_res = 0 \<rparr>"

definition zero_ah_attr :: ib_ah_attr where
  "zero_ah_attr = \<lparr> ah_dlid = 0, ah_sl = 0, ah_src_path_bits = 0, ah_flags = 0, ah_port_num = 0,
     ah_dgid_prefix = 0, ah_dgid_id = 0, ah_flow_label = 0, ah_sgid_index = 0,
     ah_hop_limit = 0, ah_traffic_class = 0 \<rparr>"

definition zero_cap :: ib_qp_cap where
  "zero_cap = \<lparr> cap_max_send_wr = 0, cap_max_recv_wr = 0, cap_max_send_sge = 0,
     cap_max_recv_sge = 0, cap_max_inline_data = 0 \<rparr>"

definition zero_qp_attr :: ib_qp_attr where
  "zero_qp_attr = \<lparr> path_mtu = 0, attr_qkey = 0, rq_psn = 0, sq_psn = 0, dest_qp_num = 0,
     qp_access_flags = 0, attr_cap = zero_cap, ah_attr = zero_ah_attr, alt_ah_attr = zero_ah_attr,
     attr_pkey_index = 0, alt_pkey_index = 0, max_rd_atomic = 0, max_dest_rd_atomic = 0,
     min_rnr_timer = 0, attr_port_num = 0, attr_timeout = 0, attr_retry_cnt = 0,
     attr_rnr_retry = 0, alt_port_num = 0, alt_timeout = 0, en_sqd_async_notify = False,
     path_mig_state = 0 \<rparr>"

definition zero_init_attr :: ib_qp_init_attr where
  "zero_init_attr = \<lparr> init_srq = None, init_send_cq = None, init_recv_cq = None,
     init_cap = zero_cap, sq_sig_type = IB_SIGNAL_ALL_WR, init_qp_type = IB_QPT_SMI, init_port_num = 0, init_create_flags = 0 \<rparr>"

definition zero_requester :: pib_requester where
  "zero_requester = \<lparr> req_psn = 0, req_expected_psn = 0, nr_submitted_swqe = 0,
     submitted_swqe_head = [], nr_sending_swqe = 0, sending_swqe_head = [],
     nr_waiting_swqe = 0, waiting_swqe_head = [], req_max_rd_atomic = 0, req_nr_rd_atomic = 0,
     free_swqe_head = [], nr_contig_requests = 0, req_nr_contig_read_acks = 0 \<rparr>"

definition zero_responder :: pib_responder where
  "zero_responder = \<lparr> rsp_psn = 0, rsp_nr_recv_wqe = 0, rsp_recv_wqe_head = [],
     rsp_nr_rd_atomic = 0, ack_head = [], free_rwqe_head = [], last_OpCode = 0, rsp_offset = 0,
     rdma_write_vaddr = 0, rdma_write_rkey = 0, rdma_write_dmalen = 0, slot_index = 0,
     slots = replicate PIB_MAX_RD_ATOM zero_slot, rsp_nr_contig_read_acks = 0 \<rparr>"

definition zero_qp :: pib_qp where
  "zero_qp = \<lparr> qp_ptr = 0, qp_num = 0, qp_type = IB_QPT_SMI, qp_state = IB_QPS_RESET,
     qp_pd = 0, qp_event_handler = False, send_cq = 0, recv_cq = 0, qp_attr = zero_qp_attr,
     qp_init_attr = zero_init_attr, qp_local_ack_timeout = 0, sched_on = False,
     sched_time = 0, sched_tid = 0, requester = zero_requester, responder = zero_responder,
     mcast_head = [], push_rcqe = False, issue_comm_est = False, issue_sq_drained = False,
     issue_last_wqe_reached = False \<rparr>"

definition empty_list :: obj_list where
  "empty_list = \<lparr> last_num = 0, nr_obj = 0, obj_head = [] \<rparr>"

definition zero_perf :: pib_port_perf where
  "zero_perf = \<lparr> perf_OpCode = 0, perf_tag = 0, perf_counter_select = replicate 16 0, perf_counter = replicate 16 0,
     symbol_error_counter = 0, link_error_recovery_counter = 0, link_downed_counter = 0, rcv_errors = 0,
     rcv_remphys_errors = 0, rcv_switch_relay_errors = 0, xmit_discards = 0, xmit_constraint_errors = 0,
     rcv_constraint_errors = 0, local_link_integrity_errors = 0, excessive_buffer_overrun_errors = 0,
     vl15_dropped = 0, xmit_data = 0, rcv_data = 0, xmit_packets = 0, rcv_packets = 0, xmit_wait = 0,
     unicast_xmit_packets = 0, unicast_rcv_packets = 0, multicast_xmit_packets = 0, multicast_rcv_packets = 0 \<rparr>"

definition zero_mgmt_port :: mgmt_port where
  "zero_mgmt_port = \<lparr> port_port_num = 0, port_state = 0, port_max_mtu = 0, port_active_mtu = 0, port_gid_tbl_len = 0,
     port_port_cap_flags = 0, port_max_msg_sz = 0, port_bad_pkey_cntr = 0, port_qkey_viol_cntr = 0, port_pkey_tbl_len = 0,
     port_lid = 0, port_sm_lid = 0, port_lmc = 0, port_max_vl_num = 0, port_active_width = 0, port_active_speed = 0,
     port_phys_state = 0, port_mkey = 0, port_mkeyprot = 0, port_mkey_lease_period = 0, port_link_down_default_state = 0,
     port_link_width_enabled = 0, port_link_speed_enabled = 0, port_master_smsl = 0, port_client_reregister = 0,
     port_subnet_timeout = 0, port_local_phy_errors = 0, port_overrun_errors = 0, port_perf = zero_perf,
     port_gid = replicate 16 (0, 0), port_pkey_table = replicate 32 0 \<rparr>"

definition zero_port :: pib_port where
  "zero_port = mgmt_port.extend zero_mgmt_port
     \<lparr> port_is_connected = False, port_sockaddr = 0, port_qp_info = (\<lambda>_. None), port_to_udp_port = 0 \<rparr>"

definition blank_dev :: pib_dev where
  "blank_dev = \<lparr>
     module = \<lparr> pib_behavior = 0, pib_manner_warn = 0, pib_manner_err = 0, kernel_HZ = 1000,
       imm_data_lkey_hack = False, multi_host_mode = False, netd_sockaddr = 0, hca_guid_base = 0,
       attr_oob = (\<lambda>_. 0), inline_oob = (\<lambda>_. 0), entropy = (\<lambda>_. 0) \<rparr>,
     jiffies = 0, kmem = [], sendmsg_ok = [], random_count = 0, next_ptr = 1,
     ib_dev_attr = \<lparr> max_qp = 0x1000000, max_qp_wr = 16351, max_sge = 32, max_cq = 0xFFFF,
       max_cqe = 4194303, max_mr = 0xFFFF, max_pd = 0xFFFF, max_qp_rd_atom = 16,
       max_srq = 0xFFFF, max_srq_wr = 16383, max_srq_sge = 31, max_qp_init_rd_atom = 128,
       cap_srq_resize = False, cap_change_phy_port = True, cap_resize_max_wr = False, sys_image_guid = 0,
       local_ca_ack_delay = 0 \<rparr>,
     dev_id = 0, node_guid = 0, node_desc = [],
     obj_num_bitmap = (\<lambda>_. False),
     phys_port_cnt = 2, ucontext_list = empty_list, ah_list = empty_list,
     pd_list = empty_list, mr_list = empty_list, srq_list = empty_list, cq_list = empty_list,
     qp_list = empty_list, qp_table = Leaf, wakeup_time = 0, master_tid = 0, sched_root = Leaf,
     wq_head = [], timer_head = [],
     thread = \<lparr> thread_stop = False, thread_wq_schedule = False, thread_ready_to_recv = False,
       thread_qp_schedule = False, send_buffer = None,
       thread_port_num = 0, thread_slid = 0, thread_dlid = 0, thread_src_qp_num = 0,
       thread_trace_id = 0, ready_to_send = False \<rparr>,
     mcast_table = (\<lambda>_. []), ports = [], perf_local_ack_timeout = 0, lid_table = (\<lambda>_. None),
     easy_sw_sockaddr = None, wire = [], callbacks = [],
     ucontexts = (\<lambda>_. \<lparr> ucontext_num = 0 \<rparr>),
     ahs = (\<lambda>_. \<lparr> ah_pd = 0, ah_num = 0, ib_ah_attr = zero_ah_attr \<rparr>), pds = (\<lambda>_. zero_pd), mrs = (\<lambda>_. zero_mr),
     cqs = (\<lambda>_. zero_cq), srqs = (\<lambda>_. zero_srq), qps = (\<lambda>_. zero_qp), mem = (\<lambda>_. 0) \<rparr>"

end
