(* ===== verification/Pib_MAD.thy ===== *)
theory Pib_MAD
  imports Pib_State
begin

text \<open>
  Management datagrams: the layout of subnet management packets and of the attributes they carry
  (\<^verbatim>\<open>driver/pib_mad.h\<close>, \<^verbatim>\<open>pibnetd/pibnetd_packet.h\<close>), and the two halves of the PortInfo attribute that the
  adapter and the easy switch share (\<^verbatim>\<open>driver/pib_mad.c\<close>).  Shown here: reading an attribute from its
  bytes gives back what was written.

  The fields are numbers; on the wire they are big-endian.  The host is little-endian where
  the code forgets a conversion.
\<close>

section \<open>Classes, methods, attributes, results\<close>

abbreviation (input) "IB_MGMT_BASE_VERSION \<equiv> (1 :: u8)"
abbreviation (input) "PIB_MGMT_CLASS_VERSION \<equiv> (1 :: u8)"
abbreviation (input) "IB_MGMT_CLASS_SUBN_LID_ROUTED \<equiv> (0x01 :: u8)"
abbreviation (input) "IB_MGMT_CLASS_SUBN_DIRECTED_ROUTE \<equiv> (0x81 :: u8)"
abbreviation (input) "IB_MGMT_CLASS_PERF_MGMT \<equiv> (0x04 :: u8)"

abbreviation (input) "IB_MGMT_METHOD_GET \<equiv> (0x01 :: u8)"
abbreviation (input) "IB_MGMT_METHOD_SET \<equiv> (0x02 :: u8)"
abbreviation (input) "IB_MGMT_METHOD_GET_RESP \<equiv> (0x81 :: u8)"
abbreviation (input) "IB_MGMT_METHOD_TRAP \<equiv> (0x05 :: u8)"
abbreviation (input) "IB_MGMT_METHOD_REPORT \<equiv> (0x06 :: u8)"
abbreviation (input) "IB_MGMT_METHOD_REPORT_RESP \<equiv> (0x86 :: u8)"
abbreviation (input) "IB_MGMT_METHOD_TRAP_REPRESS \<equiv> (0x07 :: u8)"

abbreviation (input) "IB_SMP_ATTR_NOTICE \<equiv> (0x0002 :: u16)"
abbreviation (input) "IB_SMP_ATTR_NODE_DESC \<equiv> (0x0010 :: u16)"
abbreviation (input) "IB_SMP_ATTR_NODE_INFO \<equiv> (0x0011 :: u16)"
abbreviation (input) "IB_SMP_ATTR_SWITCH_INFO \<equiv> (0x0012 :: u16)"
abbreviation (input) "IB_SMP_ATTR_GUID_INFO \<equiv> (0x0014 :: u16)"
abbreviation (input) "IB_SMP_ATTR_PORT_INFO \<equiv> (0x0015 :: u16)"
abbreviation (input) "IB_SMP_ATTR_PKEY_TABLE \<equiv> (0x0016 :: u16)"
abbreviation (input) "IB_SMP_ATTR_SL_TO_VL_TABLE \<equiv> (0x0017 :: u16)"
abbreviation (input) "IB_SMP_ATTR_VL_ARB_TABLE \<equiv> (0x0018 :: u16)"
abbreviation (input) "IB_SMP_ATTR_LINEAR_FORWARD_TABLE \<equiv> (0x0019 :: u16)"
abbreviation (input) "IB_SMP_ATTR_RANDOM_FORWARD_TABLE \<equiv> (0x001A :: u16)"
abbreviation (input) "IB_SMP_ATTR_MCAST_FORWARD_TABLE \<equiv> (0x001B :: u16)"
abbreviation (input) "IB_SMP_ATTR_SM_INFO \<equiv> (0x0020 :: u16)"

abbreviation (input) "IB_SMP_DIRECTION \<equiv> (0x8000 :: u16)"
abbreviation (input) "IB_MGMT_MAD_STATUS_BAD_VERSION \<equiv> (0x0004 :: u16)"
abbreviation (input) "PIB_SMP_UNSUP_METHOD \<equiv> (0x0008 :: u16)"
abbreviation (input) "PIB_SMP_UNSUP_METH_ATTR \<equiv> (0x000C :: u16)"
abbreviation (input) "PIB_SMP_INVALID_FIELD \<equiv> (0x001C :: u16)"

abbreviation (input) "IB_MAD_RESULT_FAILURE \<equiv> (0 :: u32)"
abbreviation (input) "IB_MAD_RESULT_SUCCESS \<equiv> (1 :: u32)"
abbreviation (input) "IB_MAD_RESULT_REPLY \<equiv> (2 :: u32)"
abbreviation (input) "IB_MAD_RESULT_CONSUMED \<equiv> (4 :: u32)"

abbreviation (input) "IB_PORT_SM \<equiv> (0x2 :: u32)"
abbreviation (input) "IB_PORT_SM_DISABLED \<equiv> (0x400 :: u32)"
abbreviation (input) "PIB_LINK_WIDTH_SUPPORTED \<equiv> (15 :: u8)"
abbreviation (input) "PIB_LINK_SPEED_SUPPORTED \<equiv> (7 :: u8)"
abbreviation (input) "IB_WIDTH_1X \<equiv> (1 :: u8)"
abbreviation (input) "IB_WIDTH_4X \<equiv> (2 :: u8)"
abbreviation (input) "IB_WIDTH_8X \<equiv> (4 :: u8)"
abbreviation (input) "IB_WIDTH_12X \<equiv> (8 :: u8)"
abbreviation (input) "IB_SPEED_SDR \<equiv> (1 :: u8)"
abbreviation (input) "IB_SPEED_DDR \<equiv> (2 :: u8)"
abbreviation (input) "IB_SPEED_QDR \<equiv> (4 :: u8)"
abbreviation (input) "PIB_PHYS_PORT_POLLING \<equiv> (2 :: u8)"
abbreviation (input) "PIB_PHYS_PORT_LINK_UP \<equiv> (5 :: u8)"
abbreviation (input) "PIB_PKEY_PER_BLOCK \<equiv> (32 :: nat)"
abbreviation (input) "IB_LID_PERMISSIVE \<equiv> (0xFFFF :: u16)"
abbreviation (input) "PIB_SMP_MAX_PATH_HOPS \<equiv> (64 :: nat)"
abbreviation (input) "PIB_DRIVER_DEVICE_ID \<equiv> (1 :: u16)"
abbreviation (input) "PIB_DRIVER_REVISION \<equiv> (1 :: u32)"

text \<open>A number of two bytes that is stored without the conversion to network order.\<close>

definition swab16 :: "u16 \<Rightarrow> u16" where
  "swab16 w = push_bit 8 w OR drop_bit 8 w"

section \<open>Subnet management packets\<close>

record ib_smp =
  smp_base_version :: u8
  smp_mgmt_class :: u8
  smp_class_version :: u8
  smp_method :: u8
  smp_status :: u16
  smp_hop_ptr :: u8
  smp_hop_cnt :: u8
  smp_tid :: u64
  smp_attr_id :: u16
  smp_resv :: u16
  smp_attr_mod :: u32
  smp_mkey :: u64
  smp_dr_slid :: u16
  smp_dr_dlid :: u16
  smp_reserved :: "u8 list"
  smp_data :: "u8 list"
  smp_initial_path :: "u8 list"
  smp_return_path :: "u8 list"

definition smp_bytes :: "ib_smp \<Rightarrow> u8 list" where
  "smp_bytes s = [smp_base_version s, smp_mgmt_class s, smp_class_version s, smp_method s] @ bytes_be 2 (smp_status s) @
     [smp_hop_ptr s, smp_hop_cnt s] @ bytes_be 8 (smp_tid s) @ bytes_be 2 (smp_attr_id s) @ bytes_be 2 (smp_resv s) @
     bytes_be 4 (smp_attr_mod s) @ bytes_be 8 (smp_mkey s) @ bytes_be 2 (smp_dr_slid s) @ bytes_be 2 (smp_dr_dlid s) @
     smp_reserved s @ smp_data s @ smp_initial_path s @ smp_return_path s"

definition smp_of_bytes :: "u8 list \<Rightarrow> ib_smp" where
  "smp_of_bytes b = \<lparr> smp_base_version = b ! 0, smp_mgmt_class = b ! 1, smp_class_version = b ! 2, smp_method = b ! 3,
     smp_status = word_be (field_at 4 2 b), smp_hop_ptr = b ! 6, smp_hop_cnt = b ! 7, smp_tid = word_be (field_at 8 8 b),
     smp_attr_id = word_be (field_at 16 2 b), smp_resv = word_be (field_at 18 2 b), smp_attr_mod = word_be (field_at 20 4 b),
     smp_mkey = word_be (field_at 24 8 b), smp_dr_slid = word_be (field_at 32 2 b), smp_dr_dlid = word_be (field_at 34 2 b),
     smp_reserved = field_at 36 28 b, smp_data = field_at 64 64 b, smp_initial_path = field_at 128 64 b,
     smp_return_path = field_at 192 64 b \<rparr>"

definition sizeof_smp :: nat where "sizeof_smp = 256"

text \<open>The arrays of a packet have their lengths.\<close>

definition smp_ok :: "ib_smp \<Rightarrow> bool" where
  "smp_ok s \<longleftrightarrow> length (smp_reserved s) = 28 \<and> length (smp_data s) = 64 \<and>
     length (smp_initial_path s) = PIB_SMP_MAX_PATH_HOPS \<and> length (smp_return_path s) = PIB_SMP_MAX_PATH_HOPS"

section \<open>Attributes\<close>

record ib_port_info =
  pi_mkey :: u64
  pi_gid_prefix :: u64
  pi_lid :: u16
  pi_sm_lid :: u16
  pi_cap_mask :: u32
  pi_diag_code :: u16
  pi_mkey_lease_period :: u16
  pi_local_port_num :: u8
  pi_link_width_enabled :: u8
  pi_link_width_supported :: u8
  pi_link_width_active :: u8
  pi_linkspeed_portstate :: u8
  pi_portphysstate_linkdown :: u8
  pi_mkeyprot_resv_lmc :: u8
  pi_linkspeedactive_enabled :: u8
  pi_neighbormtu_mastersmsl :: u8
  pi_vlcap_inittype :: u8
  pi_vl_high_limit :: u8
  pi_vl_arb_high_cap :: u8
  pi_vl_arb_low_cap :: u8
  pi_inittypereply_mtucap :: u8
  pi_vlstallcnt_hoqlife :: u8
  pi_operationalvl_pei_peo_fpi_fpo :: u8
  pi_mkey_violations :: u16
  pi_pkey_violations :: u16
  pi_qkey_violations :: u16
  pi_guid_cap :: u8
  pi_clientrereg_resv_subnetto :: u8
  pi_resv_resptimevalue :: u8
  pi_localphyerrors_overrunerrors :: u8
  pi_max_credit_hint :: u16
  pi_resv :: u8
  pi_link_roundtrip_latency :: "u8 list"

definition zero_port_info :: ib_port_info where
  "zero_port_info = \<lparr> pi_mkey = 0, pi_gid_prefix = 0, pi_lid = 0, pi_sm_lid = 0, pi_cap_mask = 0, pi_diag_code = 0,
     pi_mkey_lease_period = 0, pi_local_port_num = 0, pi_link_width_enabled = 0, pi_link_width_supported = 0,
     pi_link_width_active = 0, pi_linkspeed_portstate = 0, pi_portphysstate_linkdown = 0, pi_mkeyprot_resv_lmc = 0,
     pi_linkspeedactive_enabled = 0, pi_neighbormtu_mastersmsl = 0, pi_vlcap_inittype = 0, pi_vl_high_limit = 0,
     pi_vl_arb_high_cap = 0, pi_vl_arb_low_cap = 0, pi_inittypereply_mtucap = 0, pi_vlstallcnt_hoqlife = 0,
     pi_operationalvl_pei_peo_fpi_fpo = 0, pi_mkey_violations = 0, pi_pkey_violations = 0, pi_qkey_violations = 0,
     pi_guid_cap = 0, pi_clientrereg_resv_subnetto = 0, pi_resv_resptimevalue = 0, pi_localphyerrors_overrunerrors = 0,
     pi_max_credit_hint = 0, pi_resv = 0, pi_link_roundtrip_latency = [0, 0, 0] \<rparr>"

definition port_info_bytes :: "ib_port_info \<Rightarrow> u8 list" where
  "port_info_bytes p = bytes_be 8 (pi_mkey p) @ bytes_be 8 (pi_gid_prefix p) @ bytes_be 2 (pi_lid p) @ bytes_be 2 (pi_sm_lid p) @
     bytes_be 4 (pi_cap_mask p) @ bytes_be 2 (pi_diag_code p) @ bytes_be 2 (pi_mkey_lease_period p) @
     [pi_local_port_num p, pi_link_width_enabled p, pi_link_width_supported p, pi_link_width_active p,
      pi_linkspeed_portstate p, pi_portphysstate_linkdown p, pi_mkeyprot_resv_lmc p, pi_linkspeedactive_enabled p,
      pi_neighbormtu_mastersmsl p, pi_vlcap_inittype p, pi_vl_high_limit p, pi_vl_arb_high_cap p, pi_vl_arb_low_cap p,
      pi_inittypereply_mtucap p, pi_vlstallcnt_hoqlife p, pi_operationalvl_pei_peo_fpi_fpo p] @
     bytes_be 2 (pi_mkey_violations p) @ bytes_be 2 (pi_pkey_violations p) @ bytes_be 2 (pi_qkey_violations p) @
     [pi_guid_cap p, pi_clientrereg_resv_subnetto p, pi_resv_resptimevalue p, pi_localphyerrors_overrunerrors p] @
     bytes_be 2 (pi_max_credit_hint p) @ [pi_resv p] @ pi_link_roundtrip_latency p"

definition port_info_of_bytes :: "u8 list \<Rightarrow> ib_port_info" where
  "port_info_of_bytes b = \<lparr> pi_mkey = word_be (field_at 0 8 b), pi_gid_prefix = word_be (field_at 8 8 b),
     pi_lid = word_be (field_at 16 2 b), pi_sm_lid = word_be (field_at 18 2 b), pi_cap_mask = word_be (field_at 20 4 b),
     pi_diag_code = word_be (field_at 24 2 b), pi_mkey_lease_period = word_be (field_at 26 2 b),
     pi_local_port_num = b ! 28, pi_link_width_enabled = b ! 29, pi_link_width_supported = b ! 30,
     pi_link_width_active = b ! 31, pi_linkspeed_portstate = b ! 32, pi_portphysstate_linkdown = b ! 33,
     pi_mkeyprot_resv_lmc = b ! 34, pi_linkspeedactive_enabled = b ! 35, pi_neighbormtu_mastersmsl = b ! 36,
     pi_vlcap_inittype = b ! 37, pi_vl_high_limit = b ! 38, pi_vl_arb_high_cap = b ! 39, pi_vl_arb_low_cap = b ! 40,
     pi_inittypereply_mtucap = b ! 41, pi_vlstallcnt_hoqlife = b ! 42, pi_operationalvl_pei_peo_fpi_fpo = b ! 43,
     pi_mkey_violations = word_be (field_at 44 2 b), pi_pkey_violations = word_be (field_at 46 2 b),
     pi_qkey_violations = word_be (field_at 48 2 b), pi_guid_cap = b ! 50, pi_clientrereg_resv_subnetto = b ! 51,
     pi_resv_resptimevalue = b ! 52, pi_localphyerrors_overrunerrors = b ! 53, pi_max_credit_hint = word_be (field_at 54 2 b),
     pi_resv = b ! 56, pi_link_roundtrip_latency = field_at 57 3 b \<rparr>"

record pib_smp_node_info =
  ni_base_version :: u8
  ni_class_version :: u8
  ni_node_type :: u8
  ni_node_ports :: u8
  ni_sys_image_guid :: u64
  ni_node_guid :: u64
  ni_port_guid :: u64
  ni_partition_cap :: u16
  ni_device_id :: u16
  ni_revision :: u32
  ni_local_port_num :: u8
  ni_vendor_id :: "u8 list"

definition node_info_bytes :: "pib_smp_node_info \<Rightarrow> u8 list" where
  "node_info_bytes n = [ni_base_version n, ni_class_version n, ni_node_type n, ni_node_ports n] @
     bytes_be 8 (ni_sys_image_guid n) @ bytes_be 8 (ni_node_guid n) @ bytes_be 8 (ni_port_guid n) @
     bytes_be 2 (ni_partition_cap n) @ bytes_be 2 (ni_device_id n) @ bytes_be 4 (ni_revision n) @
     [ni_local_port_num n] @ ni_vendor_id n"

record pib_smp_switch_info =
  si_linear_fdb_cap :: u16
  si_random_fdb_cap :: u16
  si_multicast_fdb_cap :: u16
  si_linear_fdb_top :: u16
  si_default_port :: u8
  si_default_mcast_primary_port :: u8
  si_default_mcast_not_primary_port :: u8
  si_various1 :: u8
  si_lids_per_port :: u16
  si_partition_enforcement_cap :: u16
  si_various2 :: u8

definition switch_info_bytes :: "pib_smp_switch_info \<Rightarrow> u8 list" where
  "switch_info_bytes s = bytes_be 2 (si_linear_fdb_cap s) @ bytes_be 2 (si_random_fdb_cap s) @
     bytes_be 2 (si_multicast_fdb_cap s) @ bytes_be 2 (si_linear_fdb_top s) @
     [si_default_port s, si_default_mcast_primary_port s, si_default_mcast_not_primary_port s, si_various1 s] @
     bytes_be 2 (si_lids_per_port s) @ bytes_be 2 (si_partition_enforcement_cap s) @ [si_various2 s]"

definition switch_info_of_bytes :: "u8 list \<Rightarrow> pib_smp_switch_info" where
  "switch_info_of_bytes b = \<lparr> si_linear_fdb_cap = word_be (field_at 0 2 b), si_random_fdb_cap = word_be (field_at 2 2 b),
     si_multicast_fdb_cap = word_be (field_at 4 2 b), si_linear_fdb_top = word_be (field_at 6 2 b), si_default_port = b ! 8,
     si_default_mcast_primary_port = b ! 9, si_default_mcast_not_primary_port = b ! 10, si_various1 = b ! 11,
     si_lids_per_port = word_be (field_at 12 2 b), si_partition_enforcement_cap = word_be (field_at 14 2 b),
     si_various2 = b ! 16 \<rparr>"

text \<open>Structures laid over the data of a packet that was cleared before.\<close>

definition overlay :: "nat \<Rightarrow> u8 list \<Rightarrow> u8 list" where
  "overlay n bytes = take n (bytes @ replicate (n - length bytes) 0)"

abbreviation put_data :: "u8 list \<Rightarrow> ib_smp \<Rightarrow> ib_smp" where
  "put_data bytes smp \<equiv> smp \<lparr> smp_data := overlay 64 bytes \<rparr>"

text \<open>\<^verbatim>\<open>strncpy\<close>: the characters before the terminator, and zeros up to the length given.\<close>

definition strncpy :: "nat \<Rightarrow> u8 list \<Rightarrow> u8 list" where
  "strncpy n src = overlay n (takeWhile (\<lambda>c. c \<noteq> 0) src)"

definition pkeys_of_bytes :: "u8 list \<Rightarrow> u16 list" where
  "pkeys_of_bytes b = map (\<lambda>i. word_be (field_at (2 * i) 2 b)) [0..<PIB_PKEY_PER_BLOCK]"

definition pkeys_bytes :: "u16 list \<Rightarrow> u8 list" where
  "pkeys_bytes ks = concat (map (bytes_be 2) ks)"

section \<open>The PortInfo attribute\<close>

datatype pib_port_type = PIB_PORT_CA | PIB_PORT_SW_EXT | PIB_PORT_BASE_SP0 | PIB_PORT_ENH_SP0

text \<open>
  The management key of a port is one byte; it is assigned from and to the eight bytes of the
  attribute without a conversion, which is its first byte there.
\<close>

definition portinfo_of_port :: "'a mgmt_port_scheme \<Rightarrow> pib_port_type \<Rightarrow> ib_port_info" where
  "portinfo_of_port port type =
    (let i = zero_port_info;
         i = (if type \<noteq> PIB_PORT_SW_EXT
              then i \<lparr> pi_mkey := push_bit 56 (ucast (port_mkey port)), pi_lid := port_lid port, pi_sm_lid := port_sm_lid port,
                       pi_gid_prefix := fst (port_gid port ! 0), pi_cap_mask := port_port_cap_flags port,
                       pi_mkey_lease_period := port_mkey_lease_period port \<rparr>
              else i);
         i = (if type \<noteq> PIB_PORT_BASE_SP0
              then i \<lparr> pi_link_width_enabled := port_link_width_enabled port,
                       pi_link_width_supported := PIB_LINK_WIDTH_SUPPORTED, pi_link_width_active := port_active_width port,
                       pi_linkspeed_portstate := push_bit 4 PIB_LINK_SPEED_SUPPORTED OR port_state port,
                       pi_portphysstate_linkdown := push_bit 4 (port_phys_state port) OR port_link_down_default_state port \<rparr>
              else i);
         i = (if type \<noteq> PIB_PORT_SW_EXT
              then i \<lparr> pi_mkeyprot_resv_lmc := push_bit 6 (port_mkeyprot port) OR port_lmc port \<rparr> else i);
         i = (if type \<noteq> PIB_PORT_BASE_SP0
              then i \<lparr> pi_linkspeedactive_enabled := push_bit 4 (port_active_speed port) OR port_link_speed_enabled port,
                       pi_neighbormtu_mastersmsl := pi_neighbormtu_mastersmsl i OR push_bit 4 (of_nat (port_active_mtu port)) \<rparr>
              else i);
         i = (if type \<noteq> PIB_PORT_SW_EXT
              then i \<lparr> pi_neighbormtu_mastersmsl := pi_neighbormtu_mastersmsl i OR port_master_smsl port \<rparr> else i);
         i = (if type \<noteq> PIB_PORT_BASE_SP0 then i \<lparr> pi_vlcap_inittype := pi_vlcap_inittype i OR push_bit 4 0x5 \<rparr> else i);
         i = (if type \<noteq> PIB_PORT_BASE_SP0
              then i \<lparr> pi_inittypereply_mtucap := pi_inittypereply_mtucap i OR 5 \<rparr> else i);
         i = (if type \<noteq> PIB_PORT_SW_EXT
              then i \<lparr> pi_clientrereg_resv_subnetto := push_bit 7 (port_client_reregister port) OR port_subnet_timeout port \<rparr>
              else i)
     in if type \<noteq> PIB_PORT_BASE_SP0
        then i \<lparr> pi_localphyerrors_overrunerrors := push_bit 4 (port_local_phy_errors port) OR port_overrun_errors port \<rparr>
        else i)"

text \<open>The whole data is cleared first, whatever the caller has put there.\<close>

definition pib_subn_get_portinfo :: "ib_smp \<Rightarrow> 'a mgmt_port_scheme \<Rightarrow> pib_port_type \<Rightarrow> ib_smp" where
  "pib_subn_get_portinfo smp port type = put_data (port_info_bytes (portinfo_of_port port type)) smp"

definition active_width_of :: "u8 \<Rightarrow> u8 \<Rightarrow> u8" where
  "active_width_of enabled old =
    (if enabled = 0 \<or> 15 < enabled then old
     else if enabled = 1 then IB_WIDTH_1X
     else if enabled \<le> 3 then IB_WIDTH_4X
     else if enabled \<le> 7 then IB_WIDTH_8X
     else IB_WIDTH_12X)"

definition active_speed_of :: "u8 \<Rightarrow> u8 \<Rightarrow> u8" where
  "active_speed_of enabled old =
    (if enabled = 1 then IB_SPEED_SDR
     else if enabled = 3 then IB_SPEED_DDR
     else if enabled = 5 \<or> enabled = 7 then IB_SPEED_QDR
     else old)"

text \<open>What the subnet manager may set on every port that is not an external port of a switch.\<close>

definition set_address_attrs :: "ib_port_info \<Rightarrow> 'a mgmt_port_scheme \<Rightarrow> 'a mgmt_port_scheme" where
  "set_address_attrs i port = port \<lparr>
     port_mkey := ucast (drop_bit 56 (pi_mkey i)), port_lid := pi_lid i, port_sm_lid := pi_sm_lid i,
     port_gid := (port_gid port)[0 := (pi_gid_prefix i, snd (port_gid port ! 0))],
     port_mkey_lease_period := pi_mkey_lease_period i,
     port_mkeyprot := drop_bit 6 (pi_mkeyprot_resv_lmc i) AND 0x3, port_lmc := pi_mkeyprot_resv_lmc i AND 0x7,
     port_master_smsl := pi_neighbormtu_mastersmsl i AND 0xF,
     port_client_reregister := drop_bit 7 (pi_clientrereg_resv_subnetto i) AND 0x1,
     port_subnet_timeout := pi_clientrereg_resv_subnetto i AND 0x1F \<rparr>"

text \<open>What it may set on every port that is not port 0 of a switch.  Zero in a field often means no change.\<close>

definition set_link_attrs :: "ib_port_info \<Rightarrow> 'a mgmt_port_scheme \<Rightarrow> 'a mgmt_port_scheme" where
  "set_link_attrs i port = port \<lparr>
     port_link_width_enabled := (if pi_link_width_enabled i = 0 then port_link_width_enabled port
       else if pi_link_width_enabled i = 255 then PIB_LINK_WIDTH_SUPPORTED else pi_link_width_enabled i),
     port_state := (if pi_linkspeed_portstate i AND 0xF \<noteq> 0 then pi_linkspeed_portstate i AND 0xF else port_state port),
     port_phys_state := (if drop_bit 4 (pi_portphysstate_linkdown i) \<noteq> 0 then drop_bit 4 (pi_portphysstate_linkdown i)
       else port_phys_state port),
     port_link_down_default_state := (if pi_portphysstate_linkdown i AND 0xF \<noteq> 0 then pi_portphysstate_linkdown i AND 0xF
       else port_link_down_default_state port),
     port_link_speed_enabled := (let e = pi_linkspeedactive_enabled i AND 0xF in
       if e = 0 then port_link_speed_enabled port else if e = 15 then PIB_LINK_SPEED_SUPPORTED else e),
     port_active_mtu := unat (drop_bit 4 (pi_neighbormtu_mastersmsl i)),
     port_local_phy_errors := drop_bit 4 (pi_localphyerrors_overrunerrors i) AND 0xF,
     port_overrun_errors := pi_localphyerrors_overrunerrors i AND 0xF \<rparr>"

definition pib_subn_set_portinfo :: "ib_smp \<Rightarrow> 'a mgmt_port_scheme \<Rightarrow> pib_port_type \<Rightarrow> 'a mgmt_port_scheme" where
  "pib_subn_set_portinfo smp port type =
    (let i = port_info_of_bytes (smp_data smp);
         port = (if type \<noteq> PIB_PORT_SW_EXT then set_address_attrs i port else port);
         port = (if type \<noteq> PIB_PORT_BASE_SP0 then set_link_attrs i port else port)
     in port \<lparr> port_active_width := active_width_of (port_link_width_enabled port) (port_active_width port),
               port_active_speed := active_speed_of (port_link_speed_enabled port) (port_active_speed port) \<rparr>)"

section \<open>Round trips of the layouts\<close>

lemmas mad_layout_defs = smp_bytes_def smp_of_bytes_def port_info_bytes_def port_info_of_bytes_def
  node_info_bytes_def switch_info_bytes_def switch_info_of_bytes_def

lemma length_smp_bytes: "smp_ok s \<Longrightarrow> length (smp_bytes s) = sizeof_smp"
  by (simp add: smp_ok_def smp_bytes_def sizeof_smp_def)

lemma smp_of_bytes_append: "smp_ok s \<Longrightarrow> smp_of_bytes (smp_bytes s @ xs) = s"
  by (simp add: smp_ok_def mad_layout_defs nth_append)

lemma port_info_of_bytes_append:
  "length (pi_link_roundtrip_latency i) = 3 \<Longrightarrow> port_info_of_bytes (port_info_bytes i @ xs) = i"
  by (simp add: mad_layout_defs nth_append)

lemma switch_info_of_bytes_append: "switch_info_of_bytes (switch_info_bytes s @ xs) = s"
  by (simp add: mad_layout_defs nth_append)

lemma length_overlay [simp]: "length (overlay n bytes) = n"
  by (simp add: overlay_def)

lemma overlay_append: "length bytes \<le> n \<Longrightarrow> overlay n bytes = bytes @ replicate (n - length bytes) 0"
  by (simp add: overlay_def)

lemma field_at_concat:
  "(\<And>x. length (f x) = n) \<Longrightarrow> i < length xs \<Longrightarrow> field_at (n * i) n (concat (map f xs) @ ys) = f (xs ! i)"
proof (induction xs arbitrary: i)
  case (Cons x xs)
  then show ?case by (cases i) (simp_all add: field_at_def)
qed simp

lemma pkeys_of_bytes_append:
  "length ks = PIB_PKEY_PER_BLOCK \<Longrightarrow> pkeys_of_bytes (pkeys_bytes ks @ xs) = ks"
  unfolding pkeys_of_bytes_def pkeys_bytes_def
  by (rule nth_equalityI) (simp_all add: field_at_concat del: bytes_be.simps upt_rec_numeral)

lemma length_pkeys_bytes [simp]: "length (pkeys_bytes ks) = 2 * length ks"
  by (induction ks) (simp_all add: pkeys_bytes_def)

lemma smp_ok_put_data [simp]: "smp_ok (put_data bytes smp) \<longleftrightarrow> smp_ok (smp \<lparr> smp_data := replicate 64 0 \<rparr>)"
  by (simp add: smp_ok_def)

end
