(* ===== verification/Pib_Objnum.thy ===== *)
theory Pib_Objnum
  imports Pib_State
begin

text \<open>
  The object numbers of \<^verbatim>\<open>driver/pib_main.c\<close>: \<^verbatim>\<open>setup_obj_num_bitmap\<close>, \<^verbatim>\<open>pib_alloc_obj_num\<close> and
  \<^verbatim>\<open>pib_dealloc_obj_num\<close>.  One bitmap of the device holds a range per object type; numbers
  are handed out round robin.  All ranges are shorter than \<open>2 ^ 25\<close>, so the 32-bit
  arithmetic of the source does not wrap and numbers are naturals here.

  The contract of such a pool is the locale \<open>number_pool\<close>; the bitmap of every object type
  is an instance, and the freedom from double allocation of the objects rests on it.
\<close>

section \<open>The allocator\<close>

text \<open>\<^verbatim>\<open>linux/bitmap.h\<close>: the first clear bit at or behind an offset, or the size.\<close>

function find_next_zero_bit :: "(nat \<Rightarrow> bool) \<Rightarrow> nat \<Rightarrow> nat \<Rightarrow> nat" where
  "find_next_zero_bit bm sz n =
    (if n < sz then (if bm n then find_next_zero_bit bm sz (Suc n) else n) else sz)"
  by pat_completeness auto
termination by (relation "measure (\<lambda>(bm, sz, n). sz - n)") auto

declare find_next_zero_bit.simps [simp del]

abbreviation (input) "PIB_MAX_CONTEXT \<equiv> (0x10000 :: nat)"
abbreviation (input) "PIB_MAX_PD \<equiv> (0x10000 :: nat)"
abbreviation (input) "PIB_MAX_SRQ \<equiv> (0x10000 :: nat)"
abbreviation (input) "PIB_MAX_CQ \<equiv> (0x10000 :: nat)"
abbreviation (input) "PIB_MAX_MR \<equiv> (0x10000 :: nat)"
abbreviation (input) "PIB_MAX_AH \<equiv> (0x1000000 :: nat)"
abbreviation (input) "PIB_MAX_QP \<equiv> (0x1000000 :: nat)"
abbreviation (input) "PIB_BITMAP_CONTEXT_START \<equiv> (0 :: nat)"
abbreviation (input) "PIB_BITMAP_PD_START \<equiv> PIB_MAX_CONTEXT"
abbreviation (input) "PIB_BITMAP_SRQ_START \<equiv> PIB_BITMAP_PD_START + PIB_MAX_PD"
abbreviation (input) "PIB_BITMAP_CQ_START \<equiv> PIB_BITMAP_SRQ_START + PIB_MAX_SRQ"
abbreviation (input) "PIB_BITMAP_MR_START \<equiv> PIB_BITMAP_CQ_START + PIB_MAX_CQ"
abbreviation (input) "PIB_BITMAP_AH_START \<equiv> PIB_BITMAP_MR_START + PIB_MAX_MR"
abbreviation (input) "PIB_BITMAP_QP_START \<equiv> PIB_BITMAP_AH_START + PIB_MAX_AH"

abbreviation (input) "PIB_QP0 \<equiv> (0 :: nat)"
abbreviation (input) "PIB_QP1 \<equiv> (1 :: nat)"
abbreviation (input) "PIB_LINK_QP \<equiv> (3 :: nat)"
abbreviation (input) "IB_MULTICAST_QPN \<equiv> (0xFFFFFF :: nat)"

definition setup_obj_num_bitmap :: "(nat \<Rightarrow> bool) \<Rightarrow> nat \<Rightarrow> bool" where
  "setup_obj_num_bitmap bm =
    bm(PIB_BITMAP_CONTEXT_START := True, PIB_BITMAP_PD_START := True,
       PIB_BITMAP_SRQ_START := True, PIB_BITMAP_CQ_START := True,
       PIB_BITMAP_MR_START := True, PIB_BITMAP_AH_START := True,
       PIB_BITMAP_QP_START + PIB_QP0 := True, PIB_BITMAP_QP_START + PIB_QP1 := True,
       PIB_BITMAP_QP_START + PIB_LINK_QP := True,
       PIB_BITMAP_QP_START + IB_MULTICAST_QPN := True)"

text \<open>The bitmap of the device and the last number given out; \<open>None\<close> is \<^verbatim>\<open>(u32)-1\<close>.\<close>

type_synonym num_state = "(nat \<Rightarrow> bool) \<times> nat"

definition pib_alloc_obj_num :: "nat \<Rightarrow> nat \<Rightarrow> num_state \<Rightarrow> nat option \<times> num_state" where
  "pib_alloc_obj_num start sz = (\<lambda>(bitmap, last_num_p).
    (let bm = (\<lambda>i. bitmap (start div 64 * 64 + i));
         found = (\<lambda>n. (Some n, bitmap(start div 64 * 64 + n := True), n));
         n = find_next_zero_bit bm sz (last_num_p + 1)
     in if n \<noteq> sz then found n
        else
          let n = find_next_zero_bit bm sz 1
          in if n \<noteq> sz then found n else (None, bitmap, last_num_p)))"

definition pib_dealloc_obj_num :: "nat \<Rightarrow> nat \<Rightarrow> (nat \<Rightarrow> bool) \<Rightarrow> nat \<Rightarrow> bool" where
  "pib_dealloc_obj_num start index bitmap = bitmap(start div 64 * 64 + index := False)"

section \<open>The contract of a pool of numbers\<close>

datatype 'n pool_op = Alloc | Dealloc 'n

locale number_pool =
  fixes alloc :: "'s \<Rightarrow> 'n option \<times> 's"
    and dealloc :: "'n \<Rightarrow> 's \<Rightarrow> 's"
    and used :: "'s \<Rightarrow> 'n set"
    and numbers :: "'n set"
  assumes alloc_some: "alloc s = (Some n, s') \<Longrightarrow> n \<in> numbers - used s \<and> used s' = insert n (used s)"
    and alloc_none: "alloc s = (None, s') \<Longrightarrow> numbers \<subseteq> used s \<and> used s' = used s"
    and used_dealloc: "used (dealloc n s) = used s - {n}"
begin

fun run :: "'n pool_op list \<Rightarrow> 's \<Rightarrow> 'n list \<times> 's" where
  "run [] s = ([], s)"
| "run (Alloc # ops) s =
    (let (r, s) = alloc s; (ns, s) = run ops s
     in (case r of None \<Rightarrow> ns | Some n \<Rightarrow> n # ns, s))"
| "run (Dealloc n # ops) s = run ops (dealloc n s)"

lemma alloc_after_dealloc:
  assumes "n \<in> numbers" shows "fst (alloc (dealloc n s)) \<noteq> None"
  using assms alloc_none used_dealloc by (cases "alloc (dealloc n s)") fastforce

text \<open>A number that is in use and that nobody gives back is never handed out again.\<close>

lemma run_keeps_used:
  assumes "n \<in> used s" "Dealloc n \<notin> set ops"
  shows "n \<notin> set (fst (run ops s)) \<and> n \<in> used (snd (run ops s))"
  using assms
proof (induction ops s rule: run.induct)
  case (1 s)
  then show ?case by simp
next
  case (2 ops s)
  obtain r s' where a: "alloc s = (r, s')" by force
  then have "n \<in> used s'" and "r \<noteq> Some n"
    using 2 alloc_some alloc_none by (cases r; force)+
  with 2 a show ?case
    by (auto split: prod.splits option.splits)
next
  case (3 m ops s)
  then show ?case by (simp add: used_dealloc)
qed

text \<open>Without returns, the numbers handed out are distinct, and were free.\<close>

lemma run_allocs_distinct:
  "distinct (fst (run (replicate k Alloc) s)) \<and>
   set (fst (run (replicate k Alloc) s)) \<subseteq> numbers - used s"
proof (induction k arbitrary: s)
  case 0
  then show ?case by simp
next
  case (Suc k)
  obtain r s' where a: "alloc s = (r, s')" by force
  show ?case
  proof (cases r)
    case None
    with a alloc_none have "used s' = used s" by blast
    with Suc [of s'] a None show ?thesis by (simp split: prod.splits)
  next
    case (Some n)
    with a alloc_some [of s n s'] Suc [of s'] show ?thesis
      by (auto split: prod.splits)
  qed
qed

end

section \<open>The bitmap is such a pool\<close>

lemma find_next_zero_bit_spec:
  assumes "n \<le> sz"
  shows "find_next_zero_bit bm sz n \<in> {n..sz} \<and>
    (\<forall>i\<in>{n..<find_next_zero_bit bm sz n}. bm i) \<and>
    (find_next_zero_bit bm sz n < sz \<longrightarrow> \<not> bm (find_next_zero_bit bm sz n))"
  using assms
proof (induction bm sz n rule: find_next_zero_bit.induct)
  case (1 bm sz n)
  show ?case
  proof (cases "n < sz \<and> bm n")
    case True
    with 1 have "find_next_zero_bit bm sz n = find_next_zero_bit bm sz (Suc n)"
      by (subst find_next_zero_bit.simps) simp
    moreover have "{n..<m} = insert n {Suc n..<m}" if "Suc n \<le> m" for m
      using that by auto
    ultimately show ?thesis
      using 1 True by auto
  next
    case False
    with 1 show ?thesis
      by (subst (1 2 3 4) find_next_zero_bit.simps) auto
  qed
qed

lemma find_next_zero_bit_beyond: "sz \<le> n \<Longrightarrow> find_next_zero_bit bm sz n = sz"
  by (subst find_next_zero_bit.simps) simp

definition used_nums :: "nat \<Rightarrow> num_state \<Rightarrow> nat set" where
  "used_nums start s = {i. fst s (start div 64 * 64 + i)}"

lemma find_next_zero_bit_found:
  assumes "m = find_next_zero_bit bm sz n"
  shows "m \<noteq> sz \<Longrightarrow> n \<le> m \<and> m < sz \<and> \<not> bm m" and "i \<in> {n..<m} \<Longrightarrow> bm i" and "m = sz \<Longrightarrow> i \<in> {n..<sz} \<Longrightarrow> bm i"
  using find_next_zero_bit_spec [of n sz bm] find_next_zero_bit_beyond [of sz n bm] assms
  by (cases "n \<le> sz"; auto)+

lemma alloc_obj_num_cases:
  obtains (found) n where
      "pib_alloc_obj_num start sz (bm, l) = (Some n, bm(start div 64 * 64 + n := True), n)"
      "n \<in> {1..<sz} - used_nums start (bm, l)"
      "if l < n then {l<..<n} \<subseteq> used_nums start (bm, l)
       else {l<..<sz} \<union> {1..<n} \<subseteq> used_nums start (bm, l)"
  | (full) "pib_alloc_obj_num start sz (bm, l) = (None, bm, l)"
      "{1..<sz} \<subseteq> used_nums start (bm, l)"
proof -
  define b where "b = (\<lambda>i. bm (start div 64 * 64 + i))"
  define m where "m = find_next_zero_bit b sz (l + 1)"
  define n where "n = find_next_zero_bit b sz 1"
  note behind = find_next_zero_bit_found [OF m_def] and front = find_next_zero_bit_found [OF n_def]
  have used: "used_nums start (bm, l) = {i. b i}"
    by (simp add: used_nums_def b_def)
  have alloc: "pib_alloc_obj_num start sz (bm, l) =
      (if m \<noteq> sz then (Some m, bm(start div 64 * 64 + m := True), m)
       else if n \<noteq> sz then (Some n, bm(start div 64 * 64 + n := True), n)
       else (None, bm, l))"
    by (simp add: pib_alloc_obj_num_def Let_def m_def n_def b_def)
  consider (a) "m \<noteq> sz" | (b) "m = sz" "n \<noteq> sz" | (c) "m = sz" "n = sz"
    by blast
  then show thesis
  proof cases
    case a
    with behind(1,2) show ?thesis
      by (intro found [of m]) (auto simp: alloc used)
  next
    case b
    moreover from this front(1) behind(3) [of n] have "\<not> l < n"
      by auto
    ultimately show ?thesis
      using front(1,2) behind(3) by (intro found [of n]) (auto simp: alloc used)
  next
    case c
    with front(3) show ?thesis
      by (intro full) (auto simp: alloc used)
  qed
qed

lemma alloc_obj_num_Some:
  assumes "pib_alloc_obj_num start sz (bm, l) = (Some n, bm', l')"
  shows "n \<in> {1..<sz} - used_nums start (bm, l)" "bm' = bm(start div 64 * 64 + n := True)" "l' = n"
  by (rule alloc_obj_num_cases [of start sz bm l]; use assms in simp)+

interpretation objnum: number_pool "pib_alloc_obj_num start sz"
  "\<lambda>n (bm, l). (pib_dealloc_obj_num start n bm, l)" "used_nums start" "{1..<sz}" for start sz
proof
  fix s s' n
  assume a: "pib_alloc_obj_num start sz s = (Some n, s')"
  show "n \<in> {1..<sz} - used_nums start s \<and> used_nums start s' = insert n (used_nums start s)"
    by (cases s; rule alloc_obj_num_cases [of start sz "fst s" "snd s"])
       (use a in \<open>auto simp: used_nums_def\<close>)
next
  fix s s'
  assume a: "pib_alloc_obj_num start sz s = (None, s')"
  show "{1..<sz} \<subseteq> used_nums start s \<and> used_nums start s' = used_nums start s"
    by (cases s; rule alloc_obj_num_cases [of start sz "fst s" "snd s"]) (use a in auto)
next
  fix n s
  show "used_nums start ((\<lambda>(bm, l). (pib_dealloc_obj_num start n bm, l)) s) = used_nums start s - {n}"
    by (auto simp: used_nums_def pib_dealloc_obj_num_def split: prod.splits)
qed

text \<open>
  \<^verbatim>\<open>pib_alloc_obj_num\<close> hands out a number of the range that is not in use, sets exactly
  its bit, remembers it, and goes round robin: every number it skipped, counting up from
  the last one given out and around the end of the range, is in use.  It reports failure
  only when all numbers of the range are in use, and then changes nothing.
\<close>

theorem pib_alloc_obj_num_round_robin:
  "case pib_alloc_obj_num start sz (bm, l) of
     (None, s') \<Rightarrow> {1..<sz} \<subseteq> used_nums start (bm, l) \<and> s' = (bm, l)
   | (Some n, s') \<Rightarrow> n \<in> {1..<sz} - used_nums start (bm, l) \<and>
       s' = (bm(start div 64 * 64 + n := True), n) \<and>
       (if l < n then {l<..<n} \<subseteq> used_nums start (bm, l)
        else {l<..<sz} \<union> {1..<n} \<subseteq> used_nums start (bm, l))"
  by (rule alloc_obj_num_cases [of start sz bm l]) simp_all

text \<open>
  The queue pair numbers that \<^verbatim>\<open>setup_obj_num_bitmap\<close> reserves (0 and 1 for management,
  3 for the link, the multicast number) are never handed out, whatever sequence of
  allocations and returns of other numbers follows, and no two queue pairs alive at the
  same time get the same number: a number in use stays out of the results until it is
  returned.
\<close>

theorem reserved_qp_numbers_stay_reserved:
  assumes "n \<in> {PIB_QP0, PIB_QP1, PIB_LINK_QP, IB_MULTICAST_QPN} \<or>
      n \<in> used_nums PIB_BITMAP_QP_START (setup_obj_num_bitmap bm, l)"
    and "Dealloc n \<notin> set ops"
  shows "n \<notin> set (fst (objnum.run PIB_BITMAP_QP_START PIB_MAX_QP ops (setup_obj_num_bitmap bm, l)))"
proof -
  have "n \<in> used_nums PIB_BITMAP_QP_START (setup_obj_num_bitmap bm, l)"
    using assms(1) by (auto simp: used_nums_def setup_obj_num_bitmap_def)
  from objnum.run_keeps_used [OF this assms(2)] show ?thesis
    by simp
qed

theorem reserved_qp_numbers_stay_reserved_witness:
  "3 \<notin> set (fst (objnum.run PIB_BITMAP_QP_START PIB_MAX_QP [Alloc, Alloc, Dealloc 2, Alloc]
     (setup_obj_num_bitmap (\<lambda>_. False), 0)))"
  using reserved_qp_numbers_stay_reserved [of 3 "\<lambda>_. False" 0 "[Alloc, Alloc, Dealloc 2, Alloc]"]
  by simp

end
