(* ===== verification/Pib_MR.thy ===== *)
theory Pib_MR
  imports Pib_Objnum
begin

text \<open>
  Memory regions, \<^verbatim>\<open>driver/pib_mr.c\<close>: registration and its keys, the copy loops between
  packet buffers and the pages of a region (by scatter/gather list and by R_Key), the
  atomic operations, invalidation and fast registration.

  Memory is a function from kernel addresses to bytes; words in it are little-endian, as
  on the machines the driver is built for.  A buffer the code reads from is a byte list, a
  buffer it writes to is returned as a byte list.  \<^verbatim>\<open>generate_new_key\<close> of \<^verbatim>\<open>reg_mr\<close> may loop
  for as long as the random numbers are bad, so registration is an \<open>option\<close>, with \<open>None\<close>
  for not returning.

  Shown here: keys find their slot; the page walk of \<^verbatim>\<open>mr_copy_data\<close> is the copy through the
  page table, byte by byte; what was written is read back; an access that is refused
  leaves memory alone and one that is granted stays inside the region; registration
  returns, and gives the region a free slot.
\<close>

section \<open>Bytes in memory\<close>

type_synonym memory = "u64 \<Rightarrow> u8"

definition mem_read :: "memory \<Rightarrow> u64 \<Rightarrow> nat \<Rightarrow> u8 list" where
  "mem_read m a n = map (\<lambda>i. m (a + of_nat i)) [0..<n]"

definition mem_write :: "u64 \<Rightarrow> u8 list \<Rightarrow> memory \<Rightarrow> memory" where
  "mem_write a bs m = (\<lambda>x. if unat (x - a) < length bs then bs ! unat (x - a) else m x)"

definition bytes_le :: "u64 \<Rightarrow> u8 list" where
  "bytes_le w = rev (bytes_be 8 w)"

definition word_le :: "u8 list \<Rightarrow> u64" where
  "word_le bs = word_be (rev bs)"

datatype pib_mr_direction =
    PIB_MR_COPY_FROM | PIB_MR_COPY_TO | PIB_MR_CAS | PIB_MR_FETCHADD | PIB_MR_CHECK

text \<open>
  \<^verbatim>\<open>mr_copy_data_sub\<close>: the flag says whether the caller returns at once; the bytes are those
  stored through \<^verbatim>\<open>buffer\<close>.  (\<^verbatim>\<open>PIB_MR_CHECK\<close> never reaches it, it is a \<^verbatim>\<open>BUG\<close> there.)
\<close>

fun mr_copy_data_sub ::
  "u8 list \<Rightarrow> u64 \<Rightarrow> nat \<Rightarrow> u64 \<Rightarrow> u64 \<Rightarrow> pib_mr_direction \<Rightarrow> memory \<Rightarrow> bool \<times> u8 list \<times> memory" where
  "mr_copy_data_sub buffer target_vaddr n swap compare PIB_MR_COPY_FROM m =
    (False, mem_read m target_vaddr n, m)"
| "mr_copy_data_sub buffer target_vaddr n swap compare PIB_MR_COPY_TO m =
    (False, [], mem_write target_vaddr (take n buffer) m)"
| "mr_copy_data_sub buffer target_vaddr n swap compare PIB_MR_CAS m =
    (let old = word_le (mem_read m target_vaddr 8)
     in (True, bytes_le old,
         if old = compare then mem_write target_vaddr (bytes_le swap) m else m))"
| "mr_copy_data_sub buffer target_vaddr n swap compare PIB_MR_FETCHADD m =
    (let res = word_le (mem_read m target_vaddr 8) + compare
     in (True, bytes_le (res - compare), mem_write target_vaddr (bytes_le res) m))"
| "mr_copy_data_sub buffer target_vaddr n swap compare PIB_MR_CHECK m = (False, [], m)"

text \<open>The loop of \<^verbatim>\<open>mr_copy_data\<close> over the pages of a region.\<close>

fun mr_copy_pages ::
  "u64 option list \<Rightarrow> u64 \<Rightarrow> u64 \<Rightarrow> u8 list \<Rightarrow> u64 \<Rightarrow> u64 \<Rightarrow> u64 \<Rightarrow> u64 \<Rightarrow> pib_mr_direction \<Rightarrow>
   u8 list \<Rightarrow> memory \<Rightarrow> errno option \<times> u8 list \<times> memory" where
  "mr_copy_pages [] page_size addr buffer offset sz swap compare dir out m = (None, out, m)"
| "mr_copy_pages (None # pages) page_size addr buffer offset sz swap compare dir out m =
    (Some EINVAL, out, m)"
| "mr_copy_pages (Some vaddr # pages) page_size addr buffer offset sz swap compare dir out m =
    (if addr \<le> offset \<and> offset < addr + page_size then
       let chunk = min (addr + page_size - offset) sz;
           target_vaddr = vaddr + (offset AND (page_size - 1));
           (ret, o', m') = mr_copy_data_sub buffer target_vaddr (unat chunk) swap compare dir m
       in if ret then (None, out @ o', m')
          else if sz - chunk = 0 then (None, out @ o', m')
          else mr_copy_pages pages page_size (addr + page_size) (drop (unat chunk) buffer)
                 (offset + chunk) (sz - chunk) swap compare dir (out @ o') m'
     else if sz = 0 then (None, out, m)
     else mr_copy_pages pages page_size (addr + page_size) buffer offset sz swap compare dir out m)"

text \<open>
  A region that is valid and not a DMA region has pinned memory; without it the code
  dereferences \<^verbatim>\<open>NULL\<close>, which is \<open>EFAULT\<close> here.
\<close>

definition mr_copy_data ::
  "pib_mr \<Rightarrow> u8 list \<Rightarrow> u64 \<Rightarrow> u64 \<Rightarrow> u64 \<Rightarrow> u64 \<Rightarrow> pib_mr_direction \<Rightarrow> memory \<Rightarrow>
   errno option \<times> u8 list \<times> memory" where
  "mr_copy_data mr buffer offset sz swap compare dir m =
    (if mr_state mr \<noteq> PIB_MR_VALID then (Some EPERM, [], m)
     else if mr_is_dma mr then
       (case mr_copy_data_sub buffer offset (unat sz) swap compare dir m of
          (ret, out, m') \<Rightarrow> (None, out, m'))
     else if sz = 0 then (None, [], m)
     else (case mr_umem mr of
         None \<Rightarrow> (Some EFAULT, [], m)
       | Some umem \<Rightarrow>
           let offset = offset + umem_offset umem
           in if is_fast_reg_mr mr then
                mr_copy_pages (map Some (take (unat (page_list_len mr)) (mr_page_list mr)))
                  (push_bit (page_shift mr) 1) 0 buffer offset sz swap compare dir [] m
              else
                mr_copy_pages (umem_pages umem) (umem_page_size umem) 0
                  buffer offset sz swap compare dir [] m))"

section \<open>Keys and access checks\<close>

abbreviation (input) "PIB_MAX_MR_PER_PD \<equiv> (4096 :: nat)"
abbreviation (input) "PIB_MR_INDEX_MASK \<equiv> (0xFFF00 :: u32)"
abbreviation (input) "PIB_LOCAL_DMA_LKEY \<equiv> (0 :: u32)"
abbreviation (input) "PIB_IMM_DATA_LKEY \<equiv> (0xA0B0C0D0 :: u32)"

definition key_index :: "u32 \<Rightarrow> nat" where
  "key_index key = unat (drop_bit 8 (key AND PIB_MR_INDEX_MASK))"

definition mr_at_key :: "pib_dev \<Rightarrow> nat \<Rightarrow> u32 \<Rightarrow> nat option" where
  "mr_at_key d pd key = mr_table (pds d pd) (key_index key)"

fun copy_sges ::
  "pib_dev \<Rightarrow> nat \<Rightarrow> ib_sge list \<Rightarrow> u8 list \<Rightarrow> u64 \<Rightarrow> u64 \<Rightarrow> u32 \<Rightarrow> pib_mr_direction \<Rightarrow> u8 list \<Rightarrow>
   ib_wc_status \<times> u8 list \<times> pib_dev" where
  "copy_sges d pd [] buffer offset sz access dir out = (IB_WC_LOC_PROT_ERR, out, d)"
| "copy_sges d pd (sge # sges) buffer offset sz access dir out =
    (case mr_at_key d pd (sge_lkey sge) of
       None \<Rightarrow> (IB_WC_LOC_PROT_ERR, out, d)
     | Some p \<Rightarrow>
       (let mr = mrs d p; len = ucast (sge_length sge) :: u64 in
        if mr_state mr \<noteq> PIB_MR_VALID then (IB_WC_LOC_PROT_ERR, out, d)
        else if sge_lkey sge \<noteq> mr_lkey mr then (IB_WC_LOC_PROT_ERR, out, d)
        else if mr_access_flags mr AND access \<noteq> access then (IB_WC_LOC_PROT_ERR, out, d)
        else
          let rng = min len (offset + sz);
              offset' = (if 0 < offset then (if len < offset then offset - len else 0) else offset)
          in if sge_addr sge < mr_start mr \<or> mr_start mr + mr_length mr \<le> sge_addr sge \<or>
                sge_addr sge + rng \<le> mr_start mr \<or> mr_start mr + mr_length mr < sge_addr sge + rng
             then copy_sges d pd sges buffer offset' sz access dir out
             else
               let mr_base = sge_addr sge - mr_start mr in
               if offset < rng then
                 let chunk = rng - offset;
                     (err, o', m') = mr_copy_data mr buffer (mr_base + offset) chunk 0 0 dir (mem d);
                     d' = d \<lparr> mem := m' \<rparr>
                 in if sz - chunk = 0 then (IB_WC_SUCCESS, out @ o', d')
                    else copy_sges d' pd sges (drop (unat chunk) buffer) offset' (sz - chunk)
                           access dir (out @ o')
               else if sz = 0 then (IB_WC_SUCCESS, out, d)
               else copy_sges d pd sges buffer offset' sz access dir out))"

definition pib_util_mr_copy_data ::
  "pib_dev \<Rightarrow> nat \<Rightarrow> ib_sge list \<Rightarrow> u8 list \<Rightarrow> u64 \<Rightarrow> u64 \<Rightarrow> u32 \<Rightarrow> pib_mr_direction \<Rightarrow>
   ib_wc_status \<times> u8 list \<times> pib_dev" where
  "pib_util_mr_copy_data d pd sge_array buffer offset sz access dir =
    (if PIB_MAX_PAYLOAD_LEN < sz then (IB_WC_LOC_LEN_ERR, [], d)
     else copy_sges d pd sge_array buffer offset sz access dir [])"

definition copy_data_with_rkey ::
  "pib_dev \<Rightarrow> nat \<Rightarrow> u32 \<Rightarrow> u8 list \<Rightarrow> u64 \<Rightarrow> u64 \<Rightarrow> u32 \<Rightarrow> pib_mr_direction \<Rightarrow> bool \<Rightarrow>
   ib_wc_status \<times> u8 list \<times> pib_dev" where
  "copy_data_with_rkey d pd rkey buffer address sz access dir check_only =
    (if PIB_MAX_PAYLOAD_LEN < sz then (IB_WC_LOC_LEN_ERR, [], d)
     else (case mr_at_key d pd rkey of
         None \<Rightarrow> (IB_WC_LOC_PROT_ERR, [], d)
       | Some p \<Rightarrow>
         (let mr = mrs d p in
          if mr_state mr \<noteq> PIB_MR_VALID then (IB_WC_LOC_PROT_ERR, [], d)
          else if rkey \<noteq> mr_rkey mr then (IB_WC_LOC_PROT_ERR, [], d)
          else if mr_access_flags mr AND access \<noteq> access then (IB_WC_LOC_PROT_ERR, [], d)
          else if mr_is_dma mr then (IB_WC_LOC_PROT_ERR, [], d)
          else if address < mr_start mr \<or> mr_start mr + mr_length mr \<le> address \<or>
                  address + sz \<le> mr_start mr \<or> mr_start mr + mr_length mr < address + sz
          then (IB_WC_LOC_PROT_ERR, [], d)
          else if check_only then (IB_WC_SUCCESS, [], d)
          else (case mr_copy_data mr buffer (address - mr_start mr) sz 0 0 dir (mem d) of
              (Some e, out, m') \<Rightarrow> (IB_WC_LOC_PROT_ERR, out, d \<lparr> mem := m' \<rparr>)
            | (None, out, m') \<Rightarrow> (IB_WC_SUCCESS, out, d \<lparr> mem := m' \<rparr>)))))"

definition pib_util_mr_verify_rkey_validation ::
  "pib_dev \<Rightarrow> nat \<Rightarrow> u32 \<Rightarrow> u64 \<Rightarrow> u64 \<Rightarrow> u32 \<Rightarrow> ib_wc_status" where
  "pib_util_mr_verify_rkey_validation d pd rkey address sz access =
    fst (copy_data_with_rkey d pd rkey [] address sz access PIB_MR_CHECK True)"

definition pib_util_mr_copy_data_with_rkey ::
  "pib_dev \<Rightarrow> nat \<Rightarrow> u32 \<Rightarrow> u8 list \<Rightarrow> u64 \<Rightarrow> u64 \<Rightarrow> u32 \<Rightarrow> pib_mr_direction \<Rightarrow>
   ib_wc_status \<times> u8 list \<times> pib_dev" where
  "pib_util_mr_copy_data_with_rkey d pd rkey buffer address sz access dir =
    copy_data_with_rkey d pd rkey buffer address sz access dir False"

text \<open>The result cell is returned as \<open>Some\<close> when the operation stored through it.\<close>

definition pib_util_mr_atomic ::
  "pib_dev \<Rightarrow> nat \<Rightarrow> u32 \<Rightarrow> u64 \<Rightarrow> u64 \<Rightarrow> u64 \<Rightarrow> pib_mr_direction \<Rightarrow>
   ib_wc_status \<times> u64 option \<times> pib_dev" where
  "pib_util_mr_atomic d pd rkey address swap compare dir =
    (case mr_at_key d pd rkey of
       None \<Rightarrow> (IB_WC_LOC_PROT_ERR, None, d)
     | Some p \<Rightarrow>
       (let mr = mrs d p in
        if mr_state mr \<noteq> PIB_MR_VALID then (IB_WC_LOC_PROT_ERR, None, d)
        else if rkey \<noteq> mr_rkey mr then (IB_WC_LOC_PROT_ERR, None, d)
        else if mr_access_flags mr AND IB_ACCESS_REMOTE_ATOMIC \<noteq> IB_ACCESS_REMOTE_ATOMIC
        then (IB_WC_LOC_PROT_ERR, None, d)
        else if address < mr_start mr \<or> mr_start mr + mr_length mr \<le> address \<or>
                address + 8 \<le> mr_start mr \<or> mr_start mr + mr_length mr < address + 8
        then (IB_WC_LOC_PROT_ERR, None, d)
        else (case mr_copy_data mr [] (address - mr_start mr) 8 swap compare
                (if dir = PIB_MR_FETCHADD then PIB_MR_FETCHADD else PIB_MR_CAS) (mem d) of
            (Some e, out, m') \<Rightarrow> (IB_WC_LOC_PROT_ERR, None, d \<lparr> mem := m' \<rparr>)
          | (None, out, m') \<Rightarrow>
              (IB_WC_SUCCESS, if out = [] then None else Some (word_le out), d \<lparr> mem := m' \<rparr>))))"

section \<open>Invalidation and fast registration\<close>

definition pib_util_mr_invalidate :: "pib_dev \<Rightarrow> nat \<Rightarrow> u32 \<Rightarrow> ib_wc_status \<times> pib_dev" where
  "pib_util_mr_invalidate d pd rkey =
    (case mr_at_key d pd rkey of
       None \<Rightarrow> (IB_WC_MW_BIND_ERR, d)
     | Some p \<Rightarrow>
       (let mr = mrs d p in
        if mr_state mr = PIB_MR_INVALID then (IB_WC_MW_BIND_ERR, d)
        else if \<not> is_fast_reg_mr mr then (IB_WC_MW_BIND_ERR, d)
        else if rkey \<noteq> mr_rkey mr then (IB_WC_MW_BIND_ERR, d)
        else (IB_WC_SUCCESS, upd_mr p (mr_state_update (\<lambda>_. PIB_MR_FREE)) d)))"

text \<open>\<^verbatim>\<open>ps * page_list_len\<close> is computed in 64 bits; the length is widened to them.\<close>

definition pib_util_mr_fast_reg_pmr :: "pib_dev \<Rightarrow> nat \<Rightarrow> fast_reg_wr \<Rightarrow> ib_wc_status \<times> pib_dev" where
  "pib_util_mr_fast_reg_pmr d pd fr =
    (case mr_at_key d pd (fr_rkey fr) of
       None \<Rightarrow> (IB_WC_MW_BIND_ERR, d)
     | Some p \<Rightarrow>
       (let mr = mrs d p; ps = push_bit (fr_page_shift fr) 1 :: u64 in
        if mr_state mr = PIB_MR_INVALID \<or> mr_state mr = PIB_MR_VALID then (IB_WC_MW_BIND_ERR, d)
        else if \<not> is_fast_reg_mr mr then (IB_WC_MW_BIND_ERR, d)
        else if fr_rkey fr \<noteq> mr_rkey mr then (IB_WC_MW_BIND_ERR, d)
        else if fr_page_list_len fr > max_page_list_len mr then (IB_WC_MW_BIND_ERR, d)
        else if fr_page_list_len fr > fpl_max_page_list_len (fr_page_list fr)
        then (IB_WC_MW_BIND_ERR, d)
        else if (ucast (fr_length fr) :: u64) > ps * ucast (fr_page_list_len fr)
        then (IB_WC_MW_BIND_ERR, d)
        else (IB_WC_SUCCESS, upd_mr p (\<lambda>mr. mr \<lparr>
            mr_start := fr_iova_start fr, mr_virt_addr := fr_iova_start fr,
            mr_length := ucast (fr_length fr), mr_access_flags := fr_access_flags fr,
            page_list_len := fr_page_list_len fr, page_shift := fr_page_shift fr,
            mr_page_list := take (unat (fr_page_list_len fr)) (fpl_page_list (fr_page_list fr)) @
              drop (unat (fr_page_list_len fr)) (mr_page_list mr) \<rparr>) d)))"

section \<open>Registration\<close>

definition make_key :: "nat \<Rightarrow> u32 \<Rightarrow> u32" where
  "make_key i r = push_bit 8 (of_nat i + r * of_nat PIB_MAX_MR_PER_PD)"

partial_function (option) generate_new_key :: "nat \<Rightarrow> pib_dev \<Rightarrow> (u32 \<times> u32 \<times> pib_dev) option" where
  "generate_new_key i d =
    (let (r1, d) = pib_random d; (r2, d) = pib_random d;
         lkey = make_key i r1; rkey = make_key i r2
     in if lkey = PIB_LOCAL_DMA_LKEY then generate_new_key i d
        else if imm_data_lkey_hack (module d) \<and> lkey = PIB_IMM_DATA_LKEY then generate_new_key i d
        else Some (lkey, rkey, d))"

text \<open>\<^verbatim>\<open>reg_mr\<close>: the inner result is false for its return value \<open>-1\<close>.\<close>

definition reg_mr :: "nat \<Rightarrow> nat \<Rightarrow> pib_dev \<Rightarrow> (bool \<times> pib_dev) option" where
  "reg_mr pd mr d =
    (case List.find (\<lambda>i. mr_table (pds d pd) i = None) [0..<PIB_MAX_MR_PER_PD] of
       None \<Rightarrow> Some (False, d)
     | Some i \<Rightarrow>
       (case generate_new_key i d of
          None \<Rightarrow> None
        | Some (lkey, rkey, d) \<Rightarrow>
            Some (True,
              upd_pd pd (\<lambda>x. x \<lparr> mr_table := (mr_table x)(i := Some mr), pd_nr_mr := pd_nr_mr x + 1 \<rparr>)
              (upd_mr mr (\<lambda>x. x \<lparr> mr_lkey := lkey, mr_rkey := rkey \<rparr>) d))))"

definition create_mr ::
  "nat \<Rightarrow> pib_mr_state \<Rightarrow> bool \<Rightarrow> u32 \<Rightarrow> pib_dev \<Rightarrow> ((errno + nat) \<times> pib_dev) option" where
  "create_mr pd init_state fast_reg_mr max_len d =
    (case kmem_alloc d of
       (False, d) \<Rightarrow> Some (Inl ENOMEM, d)
     | (True, d) \<Rightarrow>
       (let mr = next_ptr d;
            with_pages = (fast_reg_mr \<and> 0 < sint max_len);
            d = d \<lparr> next_ptr := Suc mr, mrs := (mrs d)(mr := zero_mr \<lparr> mr_pd := pd \<rparr>) \<rparr>;
            (ok, d) = (if with_pages then kmem_alloc d else (True, d))
        in if \<not> ok then Some (Inl ENOMEM, d)
           else (case pib_alloc_obj_num PIB_BITMAP_MR_START PIB_MAX_MR
                        (obj_num_bitmap d, last_num (mr_list d)) of
               (None, bm, l) \<Rightarrow> Some (Inl ENOMEM, d)
             | (Some num, bm, l) \<Rightarrow>
               (let d = upd_mr mr (mr_num_update (\<lambda>_. of_nat num))
                      (d \<lparr> obj_num_bitmap := bm,
                          mr_list := \<lparr> last_num = l, nr_obj = nr_obj (mr_list d) + 1,
                                       obj_head = obj_head (mr_list d) @ [mr] \<rparr> \<rparr>)
                in case reg_mr pd mr d of
                     None \<Rightarrow> None
                   | Some (False, d) \<Rightarrow>
                       Some (Inl ENOMEM,
                         d \<lparr> mr_list := (mr_list d) \<lparr> nr_obj := nr_obj (mr_list d) - 1,
                                obj_head := remove1 mr (obj_head (mr_list d)) \<rparr>,
                            obj_num_bitmap := pib_dealloc_obj_num PIB_BITMAP_MR_START num
                              (obj_num_bitmap d) \<rparr>)
                   | Some (True, d) \<Rightarrow>
                       Some (Inr mr, upd_mr mr (\<lambda>x. x \<lparr> mr_state := init_state,
                         mr_page_list := (if with_pages then replicate (unat max_len) 0 else []),
                         max_page_list_len := max_len \<rparr>) d)))))"

definition pib_get_dma_mr :: "nat \<Rightarrow> u32 \<Rightarrow> pib_dev \<Rightarrow> ((errno + nat) \<times> pib_dev) option" where
  "pib_get_dma_mr pd access_flags d =
    (case create_mr pd PIB_MR_VALID False 0 d of
       None \<Rightarrow> None
     | Some (Inl e, d) \<Rightarrow> Some (Inl e, d)
     | Some (Inr mr, d) \<Rightarrow>
         Some (Inr mr, upd_mr mr (\<lambda>x. x \<lparr> mr_start := 0, mr_length := - 1, mr_virt_addr := 0,
           mr_access_flags := access_flags, mr_is_dma := True \<rparr>) d))"

text \<open>\<^verbatim>\<open>ib_umem_get\<close> is outside of the driver: its result is an argument.\<close>

definition pib_reg_user_mr ::
  "nat \<Rightarrow> u64 \<Rightarrow> u64 \<Rightarrow> u64 \<Rightarrow> u32 \<Rightarrow> errno + ib_umem \<Rightarrow> pib_dev \<Rightarrow> ((errno + nat) \<times> pib_dev) option" where
  "pib_reg_user_mr pd start len virt_addr access_flags umem d =
    (case umem of
       Inl e \<Rightarrow> Some (Inl e, d)
     | Inr umem \<Rightarrow>
       (case create_mr pd PIB_MR_VALID False 0 d of
          None \<Rightarrow> None
        | Some (Inl e, d) \<Rightarrow> Some (Inl ENOMEM, d)
        | Some (Inr mr, d) \<Rightarrow>
            Some (Inr mr, upd_mr mr (\<lambda>x. x \<lparr> mr_start := start, mr_length := len,
              mr_virt_addr := virt_addr, mr_access_flags := access_flags,
              mr_umem := Some umem \<rparr>) d)))"

definition pib_alloc_fast_reg_mr :: "nat \<Rightarrow> u32 \<Rightarrow> pib_dev \<Rightarrow> ((errno + nat) \<times> pib_dev) option" where
  "pib_alloc_fast_reg_mr pd max_len d =
    (case create_mr pd PIB_MR_FREE True max_len d of
       None \<Rightarrow> None
     | Some (Inl e, d) \<Rightarrow> Some (Inl e, d)
     | Some (Inr mr, d) \<Rightarrow>
         Some (Inr mr, upd_mr mr (\<lambda>x. x \<lparr> mr_start := 0, mr_length := - 1, mr_virt_addr := 0,
           mr_access_flags := 0 \<rparr>) d))"

definition pib_dereg_mr :: "nat \<Rightarrow> pib_dev \<Rightarrow> errno option \<times> pib_dev" where
  "pib_dereg_mr mr d =
    (let pd = mr_pd (mrs d mr);
         lkey = key_index (mr_lkey (mrs d mr));
         (ret, d) = (if mr_table (pds d pd) lkey = Some mr
           then (None, upd_pd pd (\<lambda>x. x \<lparr> mr_table := (mr_table x)(lkey := None),
                   pd_nr_mr := pd_nr_mr x - 1 \<rparr>) d)
           else (Some ENOENT, d))
     in (ret,
         d \<lparr> mr_list := (mr_list d) \<lparr> nr_obj := nr_obj (mr_list d) - 1,
               obj_head := remove1 mr (obj_head (mr_list d)) \<rparr>,
            obj_num_bitmap := pib_dealloc_obj_num PIB_BITMAP_MR_START (unat (mr_num (mrs d mr)))
              (obj_num_bitmap d) \<rparr>))"

section \<open>Reading and writing bytes\<close>

lemma length_mem_read [simp]: "length (mem_read m a n) = n"
  by (simp add: mem_read_def)

lemma unat_offset_same:
  fixes a :: u64
  assumes "i < 2 ^ 64"
  shows "unat (a + of_nat i - a) = i"
  using assms by (simp add: unat_of_nat_small)

lemma address_iff:
  fixes a x :: u64
  assumes "n < 2 ^ 64"
  shows "x = a + of_nat n \<longleftrightarrow> unat (x - a) = n"
proof
  assume "unat (x - a) = n"
  then have "x - a = of_nat n"
    by auto
  then show "x = a + of_nat n"
    by (simp add: algebra_simps)
qed (use unat_offset_same [OF assms] in simp)

text \<open>Writing a block is writing its bytes one after the other.\<close>

definition write_bytes :: "(nat \<Rightarrow> u64) \<Rightarrow> u8 list \<Rightarrow> nat \<Rightarrow> memory \<Rightarrow> memory" where
  "write_bytes loc bs n m = fold (\<lambda>i m. m(loc i := bs ! i)) [0..<n] m"

lemma write_bytes_0 [simp]: "write_bytes loc bs 0 m = m"
  by (simp add: write_bytes_def)

lemma write_bytes_Suc [simp]:
  "write_bytes loc bs (Suc n) m = (write_bytes loc bs n m)(loc n := bs ! n)"
  by (simp add: write_bytes_def)

lemma write_bytes_add:
  "write_bytes loc bs (a + b) m =
    write_bytes (\<lambda>i. loc (a + i)) (drop a bs) b (write_bytes loc bs a m)"
  if "a + b \<le> length bs"
  using that by (induction b) auto

lemma write_bytes_cong:
  assumes "\<And>i. i < n \<Longrightarrow> loc i = loc' i" "\<And>i. i < n \<Longrightarrow> bs ! i = bs' ! i"
  shows "write_bytes loc bs n m = write_bytes loc' bs' n m"
  using assms by (induction n) auto

lemma mem_write_bytes:
  assumes "length bs < 2 ^ 64"
  shows "mem_write a bs m = write_bytes (\<lambda>i. a + of_nat i) bs (length bs) m"
  using assms
proof (induction bs rule: rev_induct)
  case Nil
  then show ?case by (simp add: mem_write_def)
next
  case (snoc b bs)
  have "write_bytes (\<lambda>i. a + of_nat i) (bs @ [b]) (length bs) m =
      write_bytes (\<lambda>i. a + of_nat i) bs (length bs) m"
    by (rule write_bytes_cong) (simp_all add: nth_append)
  moreover have "mem_write a (bs @ [b]) m = (mem_write a bs m)(a + of_nat (length bs) := b)"
  proof
    fix x
    have "x = a + of_nat (length bs) \<longleftrightarrow> unat (x - a) = length bs"
      using snoc.prems by (intro address_iff) simp
    then show "mem_write a (bs @ [b]) m x = ((mem_write a bs m)(a + of_nat (length bs) := b)) x"
      by (auto simp: mem_write_def nth_append)
  qed
  ultimately show ?case
    using snoc by simp
qed

lemma read_written_bytes:
  assumes "inj_on loc {..<n}" "i < n"
  shows "write_bytes loc bs n m (loc i) = bs ! i"
  using assms
proof (induction n)
  case 0
  then show ?case by simp
next
  case (Suc n)
  then have "inj_on loc {..<n}"
    by (auto intro: inj_on_subset)
  moreover have "loc i \<noteq> loc n" if "i < n"
    using Suc.prems that by (auto simp: inj_on_def)
  ultimately show ?case
    using Suc by (cases "i = n") auto
qed

lemma write_bytes_other:
  assumes "\<And>i. i < n \<Longrightarrow> loc i \<noteq> x"
  shows "write_bytes loc bs n m x = m x"
  using assms by (induction n) auto

lemma word_le_bytes_le [simp]: "word_le (bytes_le w) = w"
  by (simp add: word_le_def bytes_le_def)

lemma length_bytes_le [simp]: "length (bytes_le w) = 8"
  by (simp add: bytes_le_def)

lemma mem_read_write_same:
  assumes "length bs < 2 ^ 64"
  shows "mem_read (mem_write a bs m) a (length bs) = bs"
  using assms by (auto simp: mem_read_def mem_write_def unat_of_nat_small intro!: nth_equalityI)

section \<open>The page walk\<close>

text \<open>
  The reference: byte \<open>o\<close> of the pinned area lies in page \<open>o div P\<close> at \<open>o mod P\<close>.
\<close>

definition page_addr :: "u64 option list \<Rightarrow> nat \<Rightarrow> nat \<Rightarrow> u64" where
  "page_addr pages P o' = the (pages ! (o' div P)) + of_nat (o' mod P)"

lemma page_addr_here: "r < P \<Longrightarrow> page_addr (Some v # pages) P r = v + of_nat r"
  by (simp add: page_addr_def)

lemma page_addr_next: "0 < P \<Longrightarrow> page_addr (p # pages) P (P + r) = page_addr pages P r"
  by (simp add: page_addr_def div_add_self1 [of P r])

lemma and_page_mask:
  fixes x :: u64
  assumes "k < 64"
  shows "x AND (2 ^ k - 1) = of_nat (unat x mod 2 ^ k)"
proof -
  have "x AND (2 ^ k - 1) = take_bit k x"
    by (simp add: take_bit_eq_mask mask_eq_exp_minus_1)
  also have "\<dots> = of_nat (unat (take_bit k x))"
    by simp
  also have "unat (take_bit k x) = unat x mod 2 ^ k"
    by (simp only: unsigned_take_bit_eq) (simp add: take_bit_eq_mod)
  finally show ?thesis .
qed


lemma mem_write_other: "length bs \<le> unat (x - a) \<Longrightarrow> mem_write a bs m x = m x"
  by (simp add: mem_write_def)

lemma of_nat_le_u64: "a < 2 ^ 64 \<Longrightarrow> b < 2 ^ 64 \<Longrightarrow> (of_nat a :: u64) \<le> of_nat b \<longleftrightarrow> a \<le> b"
  by (simp add: word_le_nat_alt unat_of_nat_small)

lemma of_nat_less_u64: "a < 2 ^ 64 \<Longrightarrow> b < 2 ^ 64 \<Longrightarrow> (of_nat a :: u64) < of_nat b \<longleftrightarrow> a < b"
  by (simp add: word_less_nat_alt unat_of_nat_small)

lemma of_nat_eq_u64: "a < 2 ^ 64 \<Longrightarrow> b < 2 ^ 64 \<Longrightarrow> (of_nat a :: u64) = of_nat b \<longleftrightarrow> a = b"
  by (simp add: word_unat_eq_iff unat_of_nat_small)

lemma of_nat_min_u64:
  "a < 2 ^ 64 \<Longrightarrow> b < 2 ^ 64 \<Longrightarrow> min (of_nat a :: u64) (of_nat b) = of_nat (min a b)"
  by (simp add: min_def of_nat_le_u64)

text \<open>One round of the loop, in natural numbers: the page that holds the offset, and one before it.\<close>

lemma copy_pages_here:
  fixes k n q j :: nat
  defines "P \<equiv> (2 :: nat) ^ k"
  defines "c \<equiv> min (Suc j * P - q) n"
  assumes "k < 64" "n < 2 ^ 64" "j * P \<le> q" "q < Suc j * P" "Suc j * P < 2 ^ 64"
  shows "mr_copy_pages (Some v # pages) (2 ^ k) (of_nat (j * P)) buffer (of_nat q) (of_nat n)
      swap compare dir out m =
    (let (ret, o', m') = mr_copy_data_sub buffer (v + of_nat (q - j * P)) c swap compare dir m
     in if ret \<or> c = n then (None, out @ o', m')
        else mr_copy_pages pages (2 ^ k) (of_nat (Suc j * P)) (drop c buffer) (of_nat (q + c))
               (of_nat (n - c)) swap compare dir (out @ o') m')"
proof -
  have PW: "(2 ^ k :: u64) = of_nat P"
    by (simp add: P_def)
  have q: "q < 2 ^ 64" and cl: "c \<le> n" "c < 2 ^ 64"
    using assms by (auto simp: c_def)
  have up: "of_nat (j * P) + 2 ^ k = (of_nat (Suc j * P) :: u64)"
    by (simp add: PW algebra_simps)
  have inside: "(of_nat (j * P) :: u64) \<le> of_nat q \<and> of_nat q < (of_nat (Suc j * P) :: u64)"
    using assms q by (simp only: of_nat_le_u64 of_nat_less_u64)
  have "(of_nat (Suc j * P) :: u64) - of_nat q = of_nat (Suc j * P - q)"
    using assms by (simp only: of_nat_diff less_imp_le)
  then have chunk: "min (of_nat (Suc j * P) - of_nat q) (of_nat n) = (of_nat c :: u64)"
    using assms by (simp only: of_nat_min_u64 c_def)
  have rest: "of_nat n - of_nat c = (of_nat (n - c) :: u64)"
    using cl by (simp only: of_nat_diff)
  have done_iff: "(of_nat n :: u64) = of_nat c \<longleftrightarrow> n = c"
    using of_nat_eq_u64 [of n c] cl assms by simp
  have "q mod P = q - j * P"
    using assms by (intro mod_nat_eqI) (auto simp: P_def)
  then have low: "(of_nat q AND (2 ^ k - 1) :: u64) = of_nat (q - j * P)"
    using and_page_mask [OF \<open>k < 64\<close>, of "of_nat q"] q by (simp add: unat_of_nat_small P_def)
  show ?thesis
    unfolding mr_copy_pages.simps up chunk low rest Let_def
    using inside cl by (simp add: done_iff unat_of_nat_small split: prod.split)
qed

lemma copy_pages_skip:
  fixes k n q j :: nat
  defines "P \<equiv> (2 :: nat) ^ k"
  assumes "k < 64" "0 < n" "n < 2 ^ 64" "Suc j * P \<le> q" "q < 2 ^ 64"
  shows "mr_copy_pages (Some v # pages) (2 ^ k) (of_nat (j * P)) buffer (of_nat q) (of_nat n)
      swap compare dir out m =
    mr_copy_pages pages (2 ^ k) (of_nat (Suc j * P)) buffer (of_nat q) (of_nat n)
      swap compare dir out m"
proof -
  have "of_nat (j * P) + 2 ^ k = (of_nat (Suc j * P) :: u64)"
    by (simp add: P_def algebra_simps)
  moreover have "\<not> of_nat q < (of_nat (Suc j * P) :: u64)"
    using assms by (simp only: of_nat_less_u64 not_less le_less_trans)
  moreover have "(of_nat n :: u64) \<noteq> 0"
    using of_nat_eq_u64 [of n 0] assms by simp
  ultimately show ?thesis
    by (simp only: mr_copy_pages.simps simp_thms if_False)
qed

lemma walk_bounds:
  fixes P n q j :: nat
  assumes "q + n \<le> (j + Suc l) * P" "(j + Suc l) * P < 2 ^ 64" "j * P \<le> q"
  shows "n < 2 ^ 64" "Suc j * P < 2 ^ 64" "q < 2 ^ 64"
    "q + n \<le> (Suc j + l) * P" "(Suc j + l) * P < 2 ^ 64"
  using assms by (auto simp: algebra_simps)

lemma page_addr_skip:
  assumes "Suc j * P \<le> q" "0 < P"
  shows "page_addr (p # pages) P (q - j * P + i) = page_addr pages P (q - Suc j * P + i)"
proof -
  have "q - j * P + i = P + (q - Suc j * P + i)"
    using assms by simp
  then show ?thesis
    by (simp only: page_addr_next [OF assms(2)])
qed

text \<open>The part of a transfer that falls into the page at hand, and what is left of it.\<close>

lemma chunk_facts:
  fixes P n q j :: nat
  assumes "j * P \<le> q" "q < Suc j * P" "0 < n" and c: "c = min (Suc j * P - q) n"
  shows "c \<le> n" "0 < c"
    and "i < c \<Longrightarrow> page_addr (Some v # pages) P (q - j * P + i) = v + of_nat (q - j * P) + of_nat i"
    and "c \<noteq> n \<Longrightarrow> q + c = Suc j * P"
    and "c \<noteq> n \<Longrightarrow> page_addr (p # pages) P (q - j * P + (c + i)) = page_addr pages P i"
proof -
  have P0: "0 < P"
    using assms(1,2) by (cases P) auto
  show "c \<le> n" "0 < c" and full: "c \<noteq> n \<Longrightarrow> q + c = Suc j * P"
    using assms by auto
  show "i < c \<Longrightarrow> page_addr (Some v # pages) P (q - j * P + i) = v + of_nat (q - j * P) + of_nat i"
    using assms by (subst page_addr_here) (auto simp: algebra_simps)
  show "page_addr (p # pages) P (q - j * P + (c + i)) = page_addr pages P i" if "c \<noteq> n"
  proof -
    have "q - j * P + (c + i) = P + i"
      using full [OF that] assms(1) by simp
    then show ?thesis
      by (simp only: page_addr_next [OF P0])
  qed
qed

lemma map_upt_split:
  fixes c n :: nat
  assumes "c \<le> n"
  shows "map f [0..<n] = map f [0..<c] @ map (\<lambda>i. f (c + i)) [0..<n - c]"
  using assms by (intro nth_equalityI) (auto simp: nth_append)

lemma copy_from_pages:
  fixes k :: nat
  defines "P \<equiv> (2 :: nat) ^ k"
  assumes "k < 64" and "0 < n" "j * P \<le> q" "q + n \<le> (j + length pages) * P"
    and "(j + length pages) * P < 2 ^ 64" and "None \<notin> set pages"
  shows "mr_copy_pages pages (2 ^ k) (of_nat (j * P)) buffer (of_nat q) (of_nat n)
      swap compare PIB_MR_COPY_FROM out m =
    (None, out @ map (\<lambda>i. m (page_addr pages P (q - j * P + i))) [0..<n], m)"
  using assms(3-)
proof (induction pages arbitrary: j q n buffer out)
  case Nil
  then show ?case by simp
next
  case (Cons page pages)
  then obtain v where v: "page = Some v"
    by (cases page) auto
  have bounds: "n < 2 ^ 64" "Suc j * P < 2 ^ 64" "q < 2 ^ 64"
      "q + n \<le> (Suc j + length pages) * P" "(Suc j + length pages) * P < 2 ^ 64"
    using walk_bounds [of q n j "length pages" P] Cons.prems by simp_all
  show ?case
  proof (cases "q < Suc j * P")
    case False
    then have skip: "Suc j * P \<le> q" "0 < P" by (simp_all add: P_def)
    from copy_pages_skip [OF \<open>k < 64\<close> Cons.prems(1) bounds(1) _ bounds(3), of j v, folded P_def] this
      Cons.IH [OF Cons.prems(1) skip(1) bounds(4,5)] Cons.prems(5)
    show ?thesis
      by (simp only: v page_addr_skip) simp
  next
    case True
    define c where "c = min (Suc j * P - q) n"
    note chunk = chunk_facts [OF Cons.prems(2) True Cons.prems(1) c_def]
    let ?here = "mem_read m (v + of_nat (q - j * P)) c"
    have "map (\<lambda>i. m (page_addr (page # pages) P (q - j * P + i))) [0..<n] =
        ?here @ map (\<lambda>i. m (page_addr pages P i)) [0..<n - c]"
      by (subst map_upt_split [OF chunk(1)]) (cases "c = n"; simp add: v mem_read_def chunk(3,5))
    moreover have "mr_copy_pages pages (2 ^ k) (of_nat (Suc j * P)) (drop c buffer) (of_nat (q + c))
        (of_nat (n - c)) swap compare PIB_MR_COPY_FROM (out @ ?here) m
        = (None, (out @ ?here) @ map (\<lambda>i. m (page_addr pages P i)) [0..<n - c], m)" if "c \<noteq> n"
      using Cons.IH [of "n - c" "Suc j" "q + c"] that chunk(1,4) Cons.prems(5) bounds by simp
    ultimately show ?thesis
      unfolding v copy_pages_here [OF \<open>k < 64\<close> bounds(1), of j q, folded P_def, folded c_def,
          OF Cons.prems(2) True bounds(2)]
      by (cases "c = n") simp_all
  qed
qed

lemma copy_to_pages:
  fixes k :: nat
  defines "P \<equiv> (2 :: nat) ^ k"
  assumes "k < 64" and "0 < n" "j * P \<le> q" "q + n \<le> (j + length pages) * P"
    and "(j + length pages) * P < 2 ^ 64" and "None \<notin> set pages" and "n \<le> length buffer"
  shows "mr_copy_pages pages (2 ^ k) (of_nat (j * P)) buffer (of_nat q) (of_nat n)
      swap compare PIB_MR_COPY_TO out m =
    (None, out, write_bytes (\<lambda>i. page_addr pages P (q - j * P + i)) buffer n m)"
  using assms(3-)
proof (induction pages arbitrary: j q n buffer m)
  case Nil
  then show ?case by simp
next
  case (Cons page pages)
  then obtain v where v: "page = Some v"
    by (cases page) auto
  have bounds: "n < 2 ^ 64" "Suc j * P < 2 ^ 64" "q < 2 ^ 64"
      "q + n \<le> (Suc j + length pages) * P" "(Suc j + length pages) * P < 2 ^ 64"
    using walk_bounds [of q n j "length pages" P] Cons.prems by simp_all
  show ?case
  proof (cases "q < Suc j * P")
    case False
    then have skip: "Suc j * P \<le> q" "0 < P" by (simp_all add: P_def)
    from copy_pages_skip [OF \<open>k < 64\<close> Cons.prems(1) bounds(1) _ bounds(3), of j v, folded P_def] this
      Cons.IH [OF Cons.prems(1) skip(1) bounds(4,5)] Cons.prems(5,6)
    show ?thesis
      by (simp only: v page_addr_skip) simp
  next
    case True
    define c where "c = min (Suc j * P - q) n"
    note chunk = chunk_facts [OF Cons.prems(2) True Cons.prems(1) c_def]
    let ?m = "mem_write (v + of_nat (q - j * P)) (take c buffer) m"
    have "?m = write_bytes (\<lambda>i. v + of_nat (q - j * P) + of_nat i) (take c buffer) c m"
      using chunk(1) Cons.prems(6) bounds(1) by (subst mem_write_bytes) simp_all
    then have m: "?m = write_bytes (\<lambda>i. page_addr (page # pages) P (q - j * P + i)) buffer c m"
      by (simp only: v) (rule write_bytes_cong; simp add: chunk(3))
    have rest: "write_bytes (\<lambda>i. page_addr (page # pages) P (q - j * P + i)) buffer n m =
        write_bytes (page_addr pages P) (drop c buffer) (n - c) ?m" if "c \<noteq> n"
      using write_bytes_add [of c "n - c" buffer "\<lambda>i. page_addr (page # pages) P (q - j * P + i)" m]
        that chunk(1,5) Cons.prems(6) m by simp
    moreover have "mr_copy_pages pages (2 ^ k) (of_nat (Suc j * P)) (drop c buffer) (of_nat (q + c))
        (of_nat (n - c)) swap compare PIB_MR_COPY_TO out ?m
        = (None, out, write_bytes (page_addr pages P) (drop c buffer) (n - c) ?m)" if "c \<noteq> n"
      using Cons.IH [of "n - c" "Suc j" "q + c" "drop c buffer" ?m] that chunk(1,4) Cons.prems bounds
      by simp
    ultimately show ?thesis
      using m unfolding v copy_pages_here [OF \<open>k < 64\<close> bounds(1), of j q, folded P_def, folded c_def,
          OF Cons.prems(2) True bounds(2)]
      by (cases "c = n") simp_all
  qed
qed

text \<open>
  The regions that user memory registration makes: pinned pages all present, page size a
  power of two, and the transfer inside of the pinned area.
\<close>

definition user_mr :: "pib_mr \<Rightarrow> ib_umem \<Rightarrow> nat \<Rightarrow> bool" where
  "user_mr mr u k \<longleftrightarrow> mr_state mr = PIB_MR_VALID \<and> \<not> mr_is_dma mr \<and> \<not> is_fast_reg_mr mr \<and>
     mr_umem mr = Some u \<and> None \<notin> set (umem_pages u) \<and> k < 64 \<and> umem_page_size u = 2 ^ k \<and>
     length (umem_pages u) * 2 ^ k < 2 ^ 64"

definition byte_addr :: "ib_umem \<Rightarrow> nat \<Rightarrow> u64 \<Rightarrow> nat \<Rightarrow> u64" where
  "byte_addr u k offset i = page_addr (umem_pages u) (2 ^ k) (unat (umem_offset u) + unat offset + i)"

lemma mr_copy_data_user:
  assumes "user_mr mr u k"
    and "unat (umem_offset u) + unat offset + unat sz \<le> length (umem_pages u) * 2 ^ k"
  shows "mr_copy_data mr buffer offset sz swap compare PIB_MR_COPY_FROM m =
      (None, map (\<lambda>i. m (byte_addr u k offset i)) [0..<unat sz], m)"
    and "unat sz \<le> length buffer \<Longrightarrow>
      mr_copy_data mr buffer offset sz swap compare PIB_MR_COPY_TO m =
      (None, [], write_bytes (byte_addr u k offset) buffer (unat sz) m)"
proof -
  let ?q = "unat (umem_offset u) + unat offset"
  have k: "k < 64" "length (umem_pages u) * 2 ^ k < 2 ^ 64" "None \<notin> set (umem_pages u)"
    using assms(1) by (auto simp: user_mr_def)
  have off: "offset + umem_offset u = of_nat ?q"
    by (simp only: of_nat_add of_nat_unat ucast_id add.commute)
  have code: "mr_copy_data mr buffer offset sz swap compare dir m =
      (if sz = 0 then (None, [], m)
       else mr_copy_pages (umem_pages u) (2 ^ k) 0 buffer (of_nat ?q) (of_nat (unat sz))
         swap compare dir [] m)" for dir
    using assms(1) unfolding mr_copy_data_def user_mr_def Let_def off [symmetric] by simp
  have pos: "0 < unat sz" if "sz \<noteq> 0"
    using that by (simp add: unat_gt_0)
  show "mr_copy_data mr buffer offset sz swap compare PIB_MR_COPY_FROM m =
      (None, map (\<lambda>i. m (byte_addr u k offset i)) [0..<unat sz], m)"
    using copy_from_pages [OF k(1) pos, of 0 ?q "umem_pages u" buffer swap compare "[]" m] k assms(2)
    unfolding code byte_addr_def by simp
  show "mr_copy_data mr buffer offset sz swap compare PIB_MR_COPY_TO m =
      (None, [], write_bytes (byte_addr u k offset) buffer (unat sz) m)" if "unat sz \<le> length buffer"
    using copy_to_pages [OF k(1) pos, of 0 ?q "umem_pages u" buffer swap compare "[]" m] k assms(2) that
    unfolding code byte_addr_def [abs_def] by simp
qed

lemma atomic_pages:
  fixes k :: nat
  defines "P \<equiv> (2 :: nat) ^ k"
  assumes "k < 64" "dir = PIB_MR_CAS \<or> dir = PIB_MR_FETCHADD" and "j * P \<le> q"
    and "q < (j + length pages) * P" "(j + length pages) * P < 2 ^ 64" and "None \<notin> set pages"
    and "0 < n" "n < 2 ^ 64"
  shows "mr_copy_pages pages (2 ^ k) (of_nat (j * P)) buffer (of_nat q) (of_nat n)
      swap compare dir out m =
    (case mr_copy_data_sub buffer (page_addr pages P (q - j * P)) n swap compare dir m of
       (ret, o', m') \<Rightarrow> (None, out @ o', m'))"
  using assms(4-)
proof (induction pages arbitrary: j q buffer out)
  case Nil
  then show ?case by simp
next
  case (Cons page pages)
  then obtain v where v: "page = Some v"
    by (cases page) auto
  have bounds: "Suc j * P < 2 ^ 64" "q < 2 ^ 64" "q < (Suc j + length pages) * P"
      "(Suc j + length pages) * P < 2 ^ 64"
    using Cons.prems by (auto simp: algebra_simps)
  show ?case
  proof (cases "q < Suc j * P")
    case True
    then have a: "page_addr (page # pages) P (q - j * P) = v + of_nat (q - j * P)"
      using Cons.prems(1) unfolding v by (intro page_addr_here) auto
    show ?thesis
      unfolding a unfolding v copy_pages_here [OF \<open>k < 64\<close> Cons.prems(6), of j q, folded P_def,
          OF Cons.prems(1) True bounds(1)]
      using assms(3) by (elim disjE) (simp_all add: Let_def)
  next
    case False
    then have skip: "Suc j * P \<le> q" "0 < P" by (simp_all add: P_def)
    from copy_pages_skip [OF \<open>k < 64\<close> Cons.prems(5,6) _ bounds(2), of j v, folded P_def] this
      Cons.IH [OF skip(1) bounds(3,4)] Cons.prems(4-) page_addr_skip [OF skip, of page pages 0]
    show ?thesis
      by (simp only: v) simp
  qed
qed

lemma mr_copy_data_atomic:
  assumes "user_mr mr u k" "dir = PIB_MR_CAS \<or> dir = PIB_MR_FETCHADD"
    and "unat (umem_offset u) + unat offset < length (umem_pages u) * 2 ^ k"
  shows "mr_copy_data mr buffer offset 8 swap compare dir m =
    (case mr_copy_data_sub buffer (byte_addr u k offset 0) 8 swap compare dir m of
       (ret, o', m') \<Rightarrow> (None, o', m'))"
proof -
  let ?q = "unat (umem_offset u) + unat offset"
  have k: "k < 64" "length (umem_pages u) * 2 ^ k < 2 ^ 64" "None \<notin> set (umem_pages u)"
    using assms(1) by (auto simp: user_mr_def)
  have off: "offset + umem_offset u = of_nat ?q"
    by (simp only: of_nat_add of_nat_unat ucast_id add.commute)
  have "mr_copy_data mr buffer offset 8 swap compare dir m =
      mr_copy_pages (umem_pages u) (2 ^ k) (of_nat (0 * 2 ^ k)) buffer (of_nat ?q) (of_nat 8)
         swap compare dir [] m"
    using assms(1) unfolding mr_copy_data_def user_mr_def Let_def off [symmetric] by simp
  then show ?thesis
    using atomic_pages [OF k(1) assms(2), of 0 ?q "umem_pages u" 8 buffer swap compare "[]" m] k assms(3)
    unfolding byte_addr_def by simp
qed

section \<open>Keys\<close>

lemma key_index_bits: "drop_bit 8 (push_bit 8 (x :: u32) AND PIB_MR_INDEX_MASK) = take_bit 12 x"
proof (rule bit_word_eqI)
  fix n
  assume n: "n < LENGTH(32)"
  have mask: "PIB_MR_INDEX_MASK = push_bit 8 (mask 12)"
    by (simp add: mask_eq_exp_minus_1 push_bit_eq_mult)
  show "bit (drop_bit 8 (push_bit 8 x AND PIB_MR_INDEX_MASK)) n = bit (take_bit 12 x) n"
    unfolding mask using n by (auto simp: bit_simps)
qed

lemma key_index_make_key [simp]:
  assumes "i < PIB_MAX_MR_PER_PD"
  shows "key_index (make_key i r) = i"
proof -
  have "unat (of_nat i + r * of_nat 4096 :: u32) mod 2 ^ 12 = (i + unat r * 4096) mod 2 ^ 12"
    using assms by (simp add: unat_word_ariths unat_of_nat_small mod_simps mod_mod_cancel)
  then have "unat (of_nat i + r * of_nat 4096 :: u32) mod 2 ^ 12 = i"
    using assms by simp
  then show ?thesis
    by (simp only: key_index_def make_key_def key_index_bits unsigned_take_bit_eq) (simp only: take_bit_eq_mod)
qed

section \<open>Access through the R_Key\<close>

text \<open>
  What the driver relies on for a registered user region: the pinned pages cover it, its
  address range does not run into the end of the address space, and the pages are
  different page frames.
\<close>

definition mr_region_ok :: "pib_mr \<Rightarrow> ib_umem \<Rightarrow> nat \<Rightarrow> bool" where
  "mr_region_ok mr u k \<longleftrightarrow> user_mr mr u k \<and>
     unat (umem_offset u) + unat (mr_length mr) \<le> length (umem_pages u) * 2 ^ k \<and>
     unat (mr_start mr) + unat (mr_length mr) + 2 ^ 30 < 2 ^ 64 \<and>
     inj_on (page_addr (umem_pages u) (2 ^ k)) {..<length (umem_pages u) * 2 ^ k}"

definition in_region :: "pib_mr \<Rightarrow> u64 \<Rightarrow> u64 \<Rightarrow> bool" where
  "in_region mr address sz \<longleftrightarrow> unat (mr_start mr) \<le> unat address \<and>
     unat address + unat sz \<le> unat (mr_start mr) + unat (mr_length mr)"

lemma region_check_in_region:
  assumes "\<not> (address < mr_start mr \<or> mr_start mr + mr_length mr \<le> address \<or>
      address + sz \<le> mr_start mr \<or> mr_start mr + mr_length mr < address + sz)"
    and "unat (mr_start mr) + unat (mr_length mr) + 2 ^ 30 < 2 ^ 64" "unat sz \<le> 2 ^ 30"
  shows "in_region mr address sz"
proof -
  have e: "unat (mr_start mr + mr_length mr) = unat (mr_start mr) + unat (mr_length mr)"
    using assms(2) by (intro unat_add_no_overflow) simp
  then have "unat address < unat (mr_start mr) + unat (mr_length mr)"
    using assms(1) by (simp add: word_less_nat_alt word_le_nat_alt)
  then have "unat (address + sz) = unat address + unat sz"
    using assms(2,3) by (intro unat_add_no_overflow) simp
  with assms(1) e show ?thesis
    by (auto simp: in_region_def word_less_nat_alt word_le_nat_alt)
qed

lemma unat_minus_start:
  "in_region mr address sz \<Longrightarrow> unat (address - mr_start mr) = unat address - unat (mr_start mr)"
  by (auto simp: in_region_def unat_sub_if')

lemma in_region_pinned:
  assumes "in_region mr address sz" "mr_region_ok mr u k"
  shows "unat (umem_offset u) + unat (address - mr_start mr) + unat sz \<le> length (umem_pages u) * 2 ^ k"
  using assms unat_minus_start [OF assms(1)] by (auto simp: mr_region_ok_def in_region_def)

lemma payload_limit: "\<not> PIB_MAX_PAYLOAD_LEN < sz \<longleftrightarrow> unat sz \<le> 2 ^ 30"
  by (simp add: word_less_nat_alt not_less)

lemma byte_addr_inj:
  assumes "mr_region_ok mr u k"
    and "unat (umem_offset u) + unat offset + n \<le> length (umem_pages u) * 2 ^ k"
  shows "inj_on (byte_addr u k offset) {..<n}"
proof (rule inj_onI)
  fix x y
  let ?a = "\<lambda>i. unat (umem_offset u) + unat offset + i"
  assume "x \<in> {..<n}" "y \<in> {..<n}" "byte_addr u k offset x = byte_addr u k offset y"
  moreover have "inj_on (page_addr (umem_pages u) (2 ^ k)) {..<length (umem_pages u) * 2 ^ k}"
    using assms(1) by (simp add: mr_region_ok_def)
  ultimately have "?a x = ?a y"
    using assms(2) by (elim inj_onD) (auto simp: byte_addr_def)
  then show "x = y" by simp
qed

text \<open>The checks of \<^verbatim>\<open>copy_data_with_rkey\<close>, as one condition.\<close>

definition rkey_grants :: "pib_dev \<Rightarrow> nat \<Rightarrow> u32 \<Rightarrow> u64 \<Rightarrow> u64 \<Rightarrow> u32 \<Rightarrow> nat \<Rightarrow> bool" where
  "rkey_grants d pd rkey address sz access p \<longleftrightarrow> unat sz \<le> 2 ^ 30 \<and> mr_at_key d pd rkey = Some p \<and>
     mr_state (mrs d p) = PIB_MR_VALID \<and> rkey = mr_rkey (mrs d p) \<and>
     mr_access_flags (mrs d p) AND access = access \<and> \<not> mr_is_dma (mrs d p) \<and>
     \<not> (address < mr_start (mrs d p) \<or> mr_start (mrs d p) + mr_length (mrs d p) \<le> address \<or>
        address + sz \<le> mr_start (mrs d p) \<or> mr_start (mrs d p) + mr_length (mrs d p) < address + sz)"

lemma copy_data_with_rkey_granted:
  assumes "rkey_grants d pd rkey address sz access p"
  shows "copy_data_with_rkey d pd rkey buffer address sz access dir check_only =
    (if check_only then (IB_WC_SUCCESS, [], d)
     else (case mr_copy_data (mrs d p) buffer (address - mr_start (mrs d p)) sz 0 0 dir (mem d) of
        (e, out, m') \<Rightarrow> (if e = None then IB_WC_SUCCESS else IB_WC_LOC_PROT_ERR, out, d \<lparr> mem := m' \<rparr>)))"
proof -
  have "\<not> PIB_MAX_PAYLOAD_LEN < sz"
    using assms payload_limit by (simp add: rkey_grants_def)
  with assms show ?thesis
    unfolding copy_data_with_rkey_def rkey_grants_def Let_def
    by (cases "mr_copy_data (mrs d p) buffer (address - mr_start (mrs d p)) sz 0 0 dir (mem d)";
        cases "fst (mr_copy_data (mrs d p) buffer (address - mr_start (mrs d p)) sz 0 0 dir (mem d))")
       simp_all
qed

lemma copy_data_with_rkey_refused:
  assumes "\<nexists>p. rkey_grants d pd rkey address sz access p"
  shows "copy_data_with_rkey d pd rkey buffer address sz access dir check_only =
    (if unat sz \<le> 2 ^ 30 then IB_WC_LOC_PROT_ERR else IB_WC_LOC_LEN_ERR, [], d)"
proof (cases "mr_at_key d pd rkey")
  case None
  then show ?thesis
    using payload_limit [of sz] by (simp add: copy_data_with_rkey_def)
next
  case (Some p)
  with assms have "\<not> rkey_grants d pd rkey address sz access p"
    by blast
  with Some payload_limit [of sz] show ?thesis
    unfolding copy_data_with_rkey_def rkey_grants_def Let_def
    by (cases "unat sz \<le> 2 ^ 30") auto
qed

section \<open>Messages that arrive in segments\<close>

text \<open>
  The contract between the memory regions and the transport: a responder stores the
  packets of an RDMA WRITE at consecutive addresses, a requester reads a message in
  pieces.  A store changes the bytes of its range and no other byte of the region.
\<close>

locale segment_memory =
  fixes ok :: "'d \<Rightarrow> bool"
    and granted :: "'d \<Rightarrow> nat \<Rightarrow> nat \<Rightarrow> bool"
    and fetch :: "'d \<Rightarrow> nat \<Rightarrow> nat \<Rightarrow> 'b list"
    and store :: "'d \<Rightarrow> nat \<Rightarrow> 'b list \<Rightarrow> 'd"
  assumes store_ok: "ok d \<Longrightarrow> granted d a (length bs) \<Longrightarrow> ok (store d a bs)"
    and store_granted: "ok d \<Longrightarrow> granted d a (length bs) \<Longrightarrow> granted (store d a bs) b n = granted d b n"
    and granted_part: "granted d a n \<Longrightarrow> a \<le> b \<Longrightarrow> 0 < m \<Longrightarrow> b + m \<le> a + n \<Longrightarrow> granted d b m"
    and length_fetch: "ok d \<Longrightarrow> granted d a n \<Longrightarrow> length (fetch d a n) = n"
    and fetch_append: "ok d \<Longrightarrow> granted d a (n + m) \<Longrightarrow> 0 < n \<Longrightarrow> 0 < m \<Longrightarrow>
      fetch d a (n + m) = fetch d a n @ fetch d (a + n) m"
    and fetch_store: "ok d \<Longrightarrow> granted d a (length bs) \<Longrightarrow> granted d b n \<Longrightarrow> i < n \<Longrightarrow>
      fetch (store d a bs) b n ! i =
      (if a \<le> b + i \<and> b + i < a + length bs then bs ! (b + i - a) else fetch d b n ! i)"
begin

fun store_segments :: "'d \<Rightarrow> nat \<Rightarrow> 'b list list \<Rightarrow> 'd" where
  "store_segments d a [] = d"
| "store_segments d a (seg # segs) = store_segments (store d a seg) (a + length seg) segs"

text \<open>Segments behind a range do not disturb it, and the whole message is read back.\<close>

lemma store_segments_behind:
  assumes "ok d" "granted d a (length (concat segs))" "[] \<notin> set segs" "granted d b n" "b + n \<le> a"
  shows "fetch (store_segments d a segs) b n = fetch d b n"
  using assms
proof (induction segs arbitrary: d a)
  case Nil
  then show ?case by simp
next
  case (Cons seg segs)
  have seg: "granted d a (length seg)"
    using granted_part [OF Cons.prems(2), of a "length seg"] Cons.prems(3) by (cases seg) auto
  have "fetch (store d a seg) b n = fetch d b n"
    using seg Cons.prems
    by (intro nth_equalityI) (auto simp: length_fetch store_ok store_granted fetch_store)
  moreover have "fetch (store_segments (store d a seg) (a + length seg) segs) b n = fetch (store d a seg) b n"
  proof (cases "segs = []")
    case False
    with Cons.prems(3) have "0 < length (concat segs)"
      by (cases segs) auto
    then have "granted d (a + length seg) (length (concat segs))"
      using granted_part [OF Cons.prems(2), of "a + length seg" "length (concat segs)"] by simp
    with seg Cons.prems show ?thesis
      by (intro Cons.IH) (auto simp: store_ok store_granted)
  qed simp
  ultimately show ?case by simp
qed

lemma fetch_stored:
  assumes "ok d" "granted d a (length bs)"
  shows "fetch (store d a bs) a (length bs) = bs"
  using assms by (intro nth_equalityI) (auto simp: length_fetch store_ok store_granted fetch_store)

lemma store_segments_keeps:
  assumes "ok d" "granted d a (length (concat segs))" "[] \<notin> set segs"
  shows "ok (store_segments d a segs) \<and> granted (store_segments d a segs) b n = granted d b n"
  using assms
proof (induction segs arbitrary: d a)
  case Nil
  then show ?case by simp
next
  case (Cons seg segs)
  have "granted d a (length seg)"
    using granted_part [OF Cons.prems(2), of a "length seg"] Cons.prems(3) by (cases seg) auto
  moreover have "segs = [] \<or> granted d (a + length seg) (length (concat segs))"
    using granted_part [OF Cons.prems(2), of "a + length seg" "length (concat segs)"] Cons.prems(3)
    by (cases segs) auto
  ultimately show ?case
    using Cons by (auto simp: store_ok store_granted)
qed

lemma fetch_store_segments:
  assumes "ok d" "granted d a (length (concat segs))" "[] \<notin> set segs" "segs \<noteq> []"
  shows "fetch (store_segments d a segs) a (length (concat segs)) = concat segs"
  using assms
proof (induction segs arbitrary: d a)
  case Nil
  then show ?case by simp
next
  case (Cons seg segs)
  have seg: "granted d a (length seg)" "seg \<noteq> []"
    using granted_part [OF Cons.prems(2), of a "length seg"] Cons.prems(3) by (cases seg; auto)+
  then have "ok (store d a seg)"
    using Cons.prems(1) store_ok by blast
  show ?case
  proof (cases "segs = []")
    case True
    with seg Cons.prems show ?thesis by (simp add: fetch_stored)
  next
    case False
    with Cons.prems(3) have pos: "0 < length (concat segs)"
      by (cases segs) auto
    have rest: "granted (store d a seg) (a + length seg) (length (concat segs))"
      using granted_part [OF Cons.prems(2), of "a + length seg"] pos seg Cons.prems(1)
      by (simp add: store_granted)
    let ?d = "store_segments (store d a seg) (a + length seg) segs"
    note keeps = store_segments_keeps [OF \<open>ok (store d a seg)\<close> rest]
    have "fetch ?d a (length seg + length (concat segs)) =
        fetch ?d a (length seg) @ fetch ?d (a + length seg) (length (concat segs))"
      using keeps Cons.prems seg pos by (intro fetch_append) (auto simp: store_granted)
    also have "fetch ?d a (length seg) = fetch (store d a seg) a (length seg)"
      using \<open>ok (store d a seg)\<close> rest Cons.prems seg
      by (intro store_segments_behind) (auto simp: store_granted)
    also have "fetch ?d (a + length seg) (length (concat segs)) = concat segs"
      using \<open>ok (store d a seg)\<close> rest Cons.prems(3) False by (intro Cons.IH) auto
    finally show ?thesis
      using seg(1) Cons.prems(1) by (simp add: fetch_stored)
  qed
qed

end

text \<open>The region behind an R_Key that grants remote reading and writing is such a memory.\<close>

definition region_addr :: "pib_mr \<Rightarrow> ib_umem \<Rightarrow> nat \<Rightarrow> nat \<Rightarrow> u64" where
  "region_addr mr u k x =
    page_addr (umem_pages u) (2 ^ k) (unat (umem_offset u) + (x - unat (mr_start mr)))"

definition rkey_open :: "nat \<Rightarrow> u32 \<Rightarrow> pib_dev \<Rightarrow> bool" where
  "rkey_open pd rkey d \<longleftrightarrow> (\<exists>p u k. mr_at_key d pd rkey = Some p \<and> mr_region_ok (mrs d p) u k \<and>
     mr_rkey (mrs d p) = rkey \<and>
     mr_access_flags (mrs d p) AND IB_ACCESS_REMOTE_READ = IB_ACCESS_REMOTE_READ \<and>
     mr_access_flags (mrs d p) AND IB_ACCESS_REMOTE_WRITE = IB_ACCESS_REMOTE_WRITE)"

definition rkey_span :: "nat \<Rightarrow> u32 \<Rightarrow> pib_dev \<Rightarrow> nat \<Rightarrow> nat \<Rightarrow> bool" where
  "rkey_span pd rkey d a n \<longleftrightarrow> 0 < n \<and> n \<le> 2 ^ 30 \<and> (\<exists>p. mr_at_key d pd rkey = Some p \<and>
     unat (mr_start (mrs d p)) \<le> a \<and> a + n \<le> unat (mr_start (mrs d p)) + unat (mr_length (mrs d p)))"

definition rkey_fetch :: "nat \<Rightarrow> u32 \<Rightarrow> pib_dev \<Rightarrow> nat \<Rightarrow> nat \<Rightarrow> u8 list" where
  "rkey_fetch pd rkey d a n = fst (snd (pib_util_mr_copy_data_with_rkey d pd rkey [] (of_nat a) (of_nat n)
     IB_ACCESS_REMOTE_READ PIB_MR_COPY_FROM))"

definition rkey_store :: "nat \<Rightarrow> u32 \<Rightarrow> pib_dev \<Rightarrow> nat \<Rightarrow> u8 list \<Rightarrow> pib_dev" where
  "rkey_store pd rkey d a bs = snd (snd (pib_util_mr_copy_data_with_rkey d pd rkey bs (of_nat a)
     (of_nat (length bs)) IB_ACCESS_REMOTE_WRITE PIB_MR_COPY_TO))"

lemma span_grants:
  assumes "mr_at_key d pd rkey = Some p" "mr_region_ok (mrs d p) u k" "mr_rkey (mrs d p) = rkey"
    and "mr_access_flags (mrs d p) AND access = access" and span: "rkey_span pd rkey d a n"
  shows "rkey_grants d pd rkey (of_nat a) (of_nat n) access p"
    and "in_region (mrs d p) (of_nat a) (of_nat n)"
    and "unat (of_nat a - mr_start (mrs d p)) = a - unat (mr_start (mrs d p))"
    and "unat (of_nat a :: u64) = a" and "unat (of_nat n :: u64) = n"
proof -
  let ?s = "mr_start (mrs d p)" and ?l = "mr_length (mrs d p)"
  have b: "unat ?s \<le> a" "a + n \<le> unat ?s + unat ?l" "0 < n" "n \<le> 2 ^ 30"
      "unat ?s + unat ?l + 2 ^ 30 < 2 ^ 64"
    using span assms(1,2) by (auto simp: rkey_span_def mr_region_ok_def)
  then show a: "unat (of_nat a :: u64) = a" and n: "unat (of_nat n :: u64) = n"
    by (simp_all add: unat_of_nat_small)
  then show r: "in_region (mrs d p) (of_nat a) (of_nat n)"
    using b by (simp add: in_region_def)
  from unat_minus_start [OF this] show "unat (of_nat a - ?s) = a - unat ?s"
    by (simp add: a)
  have "unat (?s + ?l) = unat ?s + unat ?l" "unat (of_nat a + of_nat n :: u64) = a + n"
    using b a n by (simp_all add: unat_add_no_overflow)
  with assms(1,2,3,4) b a n show "rkey_grants d pd rkey (of_nat a) (of_nat n) access p"
    by (auto simp: rkey_grants_def word_less_nat_alt word_le_nat_alt mr_region_ok_def user_mr_def)
qed

lemma rkey_fetch_store_eq:
  assumes "mr_at_key d pd rkey = Some p" "mr_region_ok (mrs d p) u k" "mr_rkey (mrs d p) = rkey"
  shows "mr_access_flags (mrs d p) AND IB_ACCESS_REMOTE_READ = IB_ACCESS_REMOTE_READ \<Longrightarrow>
      rkey_span pd rkey d a n \<Longrightarrow>
      rkey_fetch pd rkey d a n = map (\<lambda>i. mem d (region_addr (mrs d p) u k (a + i))) [0..<n]"
    and "mr_access_flags (mrs d p) AND IB_ACCESS_REMOTE_WRITE = IB_ACCESS_REMOTE_WRITE \<Longrightarrow>
      rkey_span pd rkey d a (length bs) \<Longrightarrow>
      rkey_store pd rkey d a bs =
        d \<lparr> mem := write_bytes (\<lambda>i. region_addr (mrs d p) u k (a + i)) bs (length bs) (mem d) \<rparr>"
proof -
  have addr: "byte_addr u k (of_nat x - mr_start (mrs d p)) = (\<lambda>i. region_addr (mrs d p) u k (x + i))"
    if "unat (of_nat x - mr_start (mrs d p)) = x - unat (mr_start (mrs d p))"
      "unat (mr_start (mrs d p)) \<le> x" for x
    using that by (simp add: fun_eq_iff byte_addr_def region_addr_def add.assoc)
  have user: "user_mr (mrs d p) u k"
    using assms(2) by (simp add: mr_region_ok_def)
  have lo: "unat (mr_start (mrs d p)) \<le> x" if "rkey_span pd rkey d x m" for x m
    using that assms(1) by (simp add: rkey_span_def)
  show "rkey_fetch pd rkey d a n = map (\<lambda>i. mem d (region_addr (mrs d p) u k (a + i))) [0..<n]"
    if r: "mr_access_flags (mrs d p) AND IB_ACCESS_REMOTE_READ = IB_ACCESS_REMOTE_READ"
      and s: "rkey_span pd rkey d a n"
    using span_grants [OF assms r s] addr lo [OF s]
      mr_copy_data_user(1) [OF user in_region_pinned [OF _ assms(2)]]
    by (simp add: rkey_fetch_def pib_util_mr_copy_data_with_rkey_def copy_data_with_rkey_granted)
  show "rkey_store pd rkey d a bs =
        d \<lparr> mem := write_bytes (\<lambda>i. region_addr (mrs d p) u k (a + i)) bs (length bs) (mem d) \<rparr>"
    if w: "mr_access_flags (mrs d p) AND IB_ACCESS_REMOTE_WRITE = IB_ACCESS_REMOTE_WRITE"
      and s: "rkey_span pd rkey d a (length bs)"
    using span_grants [OF assms w s] addr lo [OF s]
      mr_copy_data_user(2) [OF user in_region_pinned [OF _ assms(2)]]
    by (simp add: rkey_store_def pib_util_mr_copy_data_with_rkey_def copy_data_with_rkey_granted)
qed

lemma rkey_openE:
  assumes "rkey_open pd rkey d"
  obtains p u k where "mr_at_key d pd rkey = Some p" "mr_region_ok (mrs d p) u k"
    "mr_rkey (mrs d p) = rkey"
    "mr_access_flags (mrs d p) AND IB_ACCESS_REMOTE_READ = IB_ACCESS_REMOTE_READ"
    "mr_access_flags (mrs d p) AND IB_ACCESS_REMOTE_WRITE = IB_ACCESS_REMOTE_WRITE"
  using assms by (auto simp: rkey_open_def)

lemma region_addr_inj:
  assumes "mr_region_ok mr u k" "unat (mr_start mr) \<le> x" "unat (mr_start mr) \<le> y"
    and "x < unat (mr_start mr) + unat (mr_length mr)" "y < unat (mr_start mr) + unat (mr_length mr)"
  shows "region_addr mr u k x = region_addr mr u k y \<longleftrightarrow> x = y"
proof
  assume "region_addr mr u k x = region_addr mr u k y"
  moreover have "inj_on (page_addr (umem_pages u) (2 ^ k)) {..<length (umem_pages u) * 2 ^ k}"
    using assms(1) by (simp add: mr_region_ok_def)
  ultimately have "unat (umem_offset u) + (x - unat (mr_start mr)) = unat (umem_offset u) + (y - unat (mr_start mr))"
    unfolding region_addr_def by (elim inj_onD) (use assms in \<open>auto simp: mr_region_ok_def\<close>)
  with assms(2,3) show "x = y"
    by simp
qed simp

lemma written_region_byte:
  assumes "mr_region_ok mr u k" "unat (mr_start mr) \<le> a" "unat (mr_start mr) \<le> x"
    and "a + length bs \<le> unat (mr_start mr) + unat (mr_length mr)"
    and "x < unat (mr_start mr) + unat (mr_length mr)"
  shows "write_bytes (\<lambda>i. region_addr mr u k (a + i)) bs (length bs) m (region_addr mr u k x) =
    (if a \<le> x \<and> x < a + length bs then bs ! (x - a) else m (region_addr mr u k x))"
proof (cases "a \<le> x \<and> x < a + length bs")
  case True
  have "inj_on (\<lambda>i. region_addr mr u k (a + i)) {..<length bs}"
    using assms by (auto simp: inj_on_def region_addr_inj)
  from read_written_bytes [OF this, of "x - a" bs m] True show ?thesis
    by (simp add: less_diff_conv2)
next
  case False
  then have "region_addr mr u k (a + i) \<noteq> region_addr mr u k x" if "i < length bs" for i
    using assms that by (auto simp: region_addr_inj)
  with False show ?thesis
    by (auto intro: write_bytes_other)
qed

interpretation rkeymem: segment_memory "rkey_open pd rkey" "rkey_span pd rkey"
  "rkey_fetch pd rkey" "rkey_store pd rkey" for pd rkey
proof
  fix d a b n m i and bs :: "u8 list"
  show "rkey_span pd rkey d b m" if "rkey_span pd rkey d a n" "a \<le> b" "0 < m" "b + m \<le> a + n"
    using that by (auto simp: rkey_span_def)
  assume op: "rkey_open pd rkey d"
  then obtain p u k where r: "mr_at_key d pd rkey = Some p" "mr_region_ok (mrs d p) u k"
      "mr_rkey (mrs d p) = rkey"
    and acc: "mr_access_flags (mrs d p) AND IB_ACCESS_REMOTE_READ = IB_ACCESS_REMOTE_READ"
      "mr_access_flags (mrs d p) AND IB_ACCESS_REMOTE_WRITE = IB_ACCESS_REMOTE_WRITE"
    by (rule rkey_openE)
  note fetch = rkey_fetch_store_eq(1) [OF r acc(1)] and store = rkey_fetch_store_eq(2) [OF r acc(2)]
  show "length (rkey_fetch pd rkey d a n) = n" if "rkey_span pd rkey d a n"
    using fetch [OF that] by simp
  show "rkey_fetch pd rkey d a (n + m) = rkey_fetch pd rkey d a n @ rkey_fetch pd rkey d (a + n) m"
    if "rkey_span pd rkey d a (n + m)" "0 < n" "0 < m"
  proof -
    have "rkey_span pd rkey d a n" "rkey_span pd rkey d (a + n) m"
      using that by (auto simp: rkey_span_def)
    with that(1) show ?thesis
      by (simp add: fetch map_upt_split [of n "n + m"] add.assoc)
  qed
  assume bs: "rkey_span pd rkey d a (length bs)"
  show "rkey_span pd rkey (rkey_store pd rkey d a bs) b n = rkey_span pd rkey d b n"
    by (simp add: store [OF bs] rkey_span_def mr_at_key_def)
  show "rkey_open pd rkey (rkey_store pd rkey d a bs)"
    using op by (simp add: store [OF bs] rkey_open_def mr_at_key_def)
  show "rkey_fetch pd rkey (rkey_store pd rkey d a bs) b n ! i =
      (if a \<le> b + i \<and> b + i < a + length bs then bs ! (b + i - a) else rkey_fetch pd rkey d b n ! i)"
    if "rkey_span pd rkey d b n" "i < n"
  proof -
    let ?d = "rkey_store pd rkey d a bs"
    have "rkey_fetch pd rkey ?d b n = map (\<lambda>i. mem ?d (region_addr (mrs d p) u k (b + i))) [0..<n]"
      using rkey_fetch_store_eq(1) [of ?d pd rkey p u k b n] r acc that(1)
      by (simp add: store [OF bs] rkey_span_def mr_at_key_def)
    then show ?thesis
      using that bs r(1) by (simp add: store [OF bs] fetch rkey_span_def written_region_byte [OF r(2)])
  qed
qed

section \<open>Registration\<close>

lemma make_key_nonzero:
  assumes "0 < i" "i < PIB_MAX_MR_PER_PD"
  shows "make_key i r \<noteq> PIB_LOCAL_DMA_LKEY"
proof
  assume "make_key i r = PIB_LOCAL_DMA_LKEY"
  with key_index_make_key [OF assms(2), of r] assms(1) show False
    by (simp add: key_index_def)
qed

lemma make_key_not_imm_data: "make_key i r \<noteq> PIB_IMM_DATA_LKEY"
proof
  assume "make_key i r = PIB_IMM_DATA_LKEY"
  then have "bit (make_key i r) 4"
    by simp
  then show False
    by (simp add: make_key_def bit_simps)
qed

text \<open>The number that the call of \<^verbatim>\<open>pib_random\<close> after \<open>j\<close> others returns.\<close>

definition random_draw :: "pib_dev \<Rightarrow> nat \<Rightarrow> u32" where
  "random_draw d j =
    (let count = random_count d + of_nat j + 1 in entropy (module d) (unat count) XOR count)"

lemma random_draw_later: "random_draw (d \<lparr> random_count := random_count d + of_nat a \<rparr>) j = random_draw d (a + j)"
  by (simp add: random_draw_def add.assoc)

lemma generate_new_key_step:
  "generate_new_key i d =
    (let d' = d \<lparr> random_count := random_count d + of_nat 2 \<rparr> in
     if make_key i (random_draw d 0) = 0 then generate_new_key i d'
     else Some (make_key i (random_draw d 0), make_key i (random_draw d 1), d'))"
  by (subst generate_new_key.simps)
     (simp add: pib_random_def random_draw_def Let_def make_key_not_imm_data add.assoc)

lemma generate_new_key_good_draw:
  assumes "make_key i (random_draw d (2 * n)) \<noteq> 0"
  shows "\<exists>lkey rkey d'. generate_new_key i d = Some (lkey, rkey, d')"
  using assms
proof (induction n arbitrary: d)
  case 0
  then show ?case by (subst generate_new_key_step) (simp add: Let_def)
next
  case (Suc n)
  have "make_key i (random_draw (d \<lparr> random_count := random_count d + of_nat 2 \<rparr>) (2 * n)) \<noteq> 0"
    using Suc.prems by (simp only: random_draw_later) simp
  from Suc.IH [OF this] show ?case
    by (subst generate_new_key_step) (simp add: Let_def)
qed

lemma generate_new_key_result:
  assumes "generate_new_key i d = Some y"
  shows "\<exists>r1 r2 c. y = (make_key i r1, make_key i r2, d \<lparr> random_count := c \<rparr>) \<and> make_key i r1 \<noteq> 0"
proof (rule generate_new_key.raw_induct [OF _ assms])
  fix gnk i d y
  assume IH: "\<And>i d y. gnk i d = Some y \<Longrightarrow>
      \<exists>r1 r2 c. y = (make_key i r1, make_key i r2, d \<lparr> random_count := c \<rparr>) \<and> make_key i r1 \<noteq> 0"
    and body: "(let (r1, d) = pib_random d; (r2, d) = pib_random d;
          lkey = make_key i r1; rkey = make_key i r2
      in if lkey = PIB_LOCAL_DMA_LKEY then gnk i d
         else if imm_data_lkey_hack (module d) \<and> lkey = PIB_IMM_DATA_LKEY then gnk i d
         else Some (lkey, rkey, d)) = Some y"
  from body show "\<exists>r1 r2 c. y = (make_key i r1, make_key i r2, d \<lparr> random_count := c \<rparr>) \<and> make_key i r1 \<noteq> 0"
    using IH [of i "d \<lparr> random_count := 2 + random_count d \<rparr>" y]
    by (auto simp: pib_random_def Let_def split: if_splits)
qed

lemma find_free_slot:
  "List.find (\<lambda>i. t i = None) [0..<n] = Some i \<Longrightarrow> i < n \<and> t i = None"
  "List.find (\<lambda>i. t i = None) [0..<n] = None \<Longrightarrow> i < n \<Longrightarrow> t i \<noteq> None"
  by (auto simp: find_Some_iff find_None_iff)

text \<open>What registration does to the device when it succeeds.\<close>

definition registered :: "pib_dev \<Rightarrow> nat \<Rightarrow> nat \<Rightarrow> nat \<Rightarrow> nat \<Rightarrow> pib_dev \<Rightarrow> bool" where
  "registered d pd mr i num d' \<longleftrightarrow>
    mr = next_ptr d \<and> i < PIB_MAX_MR_PER_PD \<and> mr_table (pds d pd) i = None \<and>
    pds d' = (pds d)(pd := (pds d pd) \<lparr> mr_table := (mr_table (pds d pd))(i := Some mr),
                                        pd_nr_mr := pd_nr_mr (pds d pd) + 1 \<rparr>) \<and>
    key_index (mr_lkey (mrs d' mr)) = i \<and> key_index (mr_rkey (mrs d' mr)) = i \<and>
    mr_lkey (mrs d' mr) \<noteq> 0 \<and> mr_pd (mrs d' mr) = pd \<and> \<not> is_fast_reg_mr (mrs d' mr) \<and>
    (\<forall>p. p \<noteq> mr \<longrightarrow> mrs d' p = mrs d p) \<and>
    1 \<le> num \<and> num < PIB_MAX_MR \<and> \<not> obj_num_bitmap d (PIB_BITMAP_MR_START + num) \<and>
    mr_num (mrs d' mr) = of_nat num \<and>
    obj_num_bitmap d' = (obj_num_bitmap d)(PIB_BITMAP_MR_START + num := True) \<and>
    nr_obj (mr_list d') = nr_obj (mr_list d) + 1 \<and>
    obj_head (mr_list d') = obj_head (mr_list d) @ [mr]"

lemma reg_mr_registered:
  assumes "reg_mr pd mr d = Some (True, d')"
  shows "\<exists>i r1 r2 c. i < PIB_MAX_MR_PER_PD \<and> mr_table (pds d pd) i = None \<and> make_key i r1 \<noteq> 0 \<and>
    d' = upd_pd pd (\<lambda>x. x \<lparr> mr_table := (mr_table x)(i := Some mr), pd_nr_mr := pd_nr_mr x + 1 \<rparr>)
      (upd_mr mr (\<lambda>x. x \<lparr> mr_lkey := make_key i r1, mr_rkey := make_key i r2 \<rparr>)
        (d \<lparr> random_count := c \<rparr>))"
proof -
  obtain i y where i: "List.find (\<lambda>i. mr_table (pds d pd) i = None) [0..<PIB_MAX_MR_PER_PD] = Some i"
    and y: "generate_new_key i d = Some y"
    using assms unfolding reg_mr_def by (auto split: option.splits simp del: upt_rec_numeral)
  from generate_new_key_result [OF y] obtain r1 r2 c where
    "y = (make_key i r1, make_key i r2, d \<lparr> random_count := c \<rparr>)" "make_key i r1 \<noteq> 0"
    by blast
  with assms i y find_free_slot(1) [OF i] show ?thesis
    unfolding reg_mr_def
    by (intro exI [of _ i] exI [of _ r1] exI [of _ r2] exI [of _ c]) (simp del: upt_rec_numeral)
qed

lemma create_mr_registered:
  assumes "create_mr pd st fast n d = Some (Inr mr, d')"
  shows "\<exists>i num. registered d pd mr i num d' \<and> mr_state (mrs d' mr) = st"
proof -
  obtain d1 where a1: "kmem_alloc d = (True, d1)"
    using assms by (auto simp: create_mr_def split: prod.splits bool.splits)
  let ?p = "next_ptr d1" and ?w = "fast \<and> 0 < sint n"
  let ?d2 = "d1 \<lparr> next_ptr := Suc ?p, mrs := (mrs d1)(?p := zero_mr \<lparr> mr_pd := pd \<rparr>) \<rparr>"
  obtain d3 where a3: "(if ?w then kmem_alloc ?d2 else (True, ?d2)) = (True, d3)"
    using assms a1 by (auto simp: create_mr_def Let_def split: prod.splits bool.splits if_splits)
  obtain num bm l where al: "pib_alloc_obj_num PIB_BITMAP_MR_START PIB_MAX_MR
      (obj_num_bitmap d3, last_num (mr_list d3)) = (Some num, bm, l)"
    using assms a1 a3 by (auto simp: create_mr_def Let_def split: prod.splits bool.splits if_splits option.splits)
  let ?d4 = "upd_mr ?p (mr_num_update (\<lambda>_. of_nat num))
     (d3 \<lparr> obj_num_bitmap := bm, mr_list := \<lparr> last_num = l, nr_obj = nr_obj (mr_list d3) + 1,
           obj_head = obj_head (mr_list d3) @ [?p] \<rparr> \<rparr>)"
  obtain d5 where r: "reg_mr pd ?p ?d4 = Some (True, d5)"
    and d': "mr = ?p" "d' = upd_mr ?p (\<lambda>x. x \<lparr> mr_state := st,
        mr_page_list := (if ?w then replicate (unat n) 0 else []), max_page_list_len := n \<rparr>) d5"
    using assms a1 a3 al by (auto simp: create_mr_def Let_def split: option.splits prod.splits bool.splits)
  obtain bs1 where d1: "d1 = d \<lparr> kmem := bs1 \<rparr>"
    using kmem_alloc_frame [OF a1] by blast
  have "\<exists>bs. d3 = ?d2 \<lparr> kmem := bs \<rparr>"
    using a3 kmem_alloc_frame [of ?d2 True d3] by (auto split: if_splits intro: exI [of _ "kmem d1"])
  then obtain bs3 where d3: "d3 = ?d2 \<lparr> kmem := bs3 \<rparr>"
    by blast
  note num = alloc_obj_num_Some [OF al]
  from reg_mr_registered [OF r] obtain i r1 r2 c where reg: "i < PIB_MAX_MR_PER_PD"
      "mr_table (pds ?d4 pd) i = None" "make_key i r1 \<noteq> 0"
      "d5 = upd_pd pd (\<lambda>x. x \<lparr> mr_table := (mr_table x)(i := Some ?p), pd_nr_mr := pd_nr_mr x + 1 \<rparr>)
        (upd_mr ?p (\<lambda>x. x \<lparr> mr_lkey := make_key i r1, mr_rkey := make_key i r2 \<rparr>)
        (?d4 \<lparr> random_count := c \<rparr>))"
    by blast
  show ?thesis
    using reg num unfolding d' d3 d1 registered_def
    by (intro exI [of _ i] exI [of _ num]) (simp add: zero_mr_def used_nums_def)
qed

section \<open>Properties\<close>

text \<open>
  C8. The loop of \<^verbatim>\<open>mr_copy_data\<close> over 64-bit page offsets is the copy through the page table,
  byte by byte.  For a valid user region whose pages are present and a transfer inside of
  the pinned area, copying out returns byte \<open>i\<close> of the transfer from page
  \<open>(offset + i) div page size\<close> at \<open>(offset + i) mod page size\<close> and leaves memory alone, and
  copying in stores byte \<open>i\<close> of the buffer there, in order, and stores nothing else.
\<close>

theorem mr_copy_data_is_page_table_copy:
  assumes "user_mr mr u k"
    and "unat (umem_offset u) + unat offset + unat sz \<le> length (umem_pages u) * 2 ^ k"
    and "unat sz \<le> length buffer"
  shows "mr_copy_data mr buffer offset sz swap compare PIB_MR_COPY_FROM m =
      (None, map (\<lambda>i. m (page_addr (umem_pages u) (2 ^ k) (unat (umem_offset u) + unat offset + i)))
               [0..<unat sz], m) \<and>
    mr_copy_data mr buffer offset sz swap compare PIB_MR_COPY_TO m =
      (None, [], fold (\<lambda>i m. m(page_addr (umem_pages u) (2 ^ k)
                   (unat (umem_offset u) + unat offset + i) := buffer ! i)) [0..<unat sz] m)"
  using mr_copy_data_user [OF assms(1,2)] assms(3)
  by (simp add: byte_addr_def [abs_def] write_bytes_def)

definition example_umem :: ib_umem where
  "example_umem = \<lparr> umem_pages = [Some 0x10000, Some 0x30000], umem_offset = 4, umem_page_size = 8 \<rparr>"

definition example_mr :: pib_mr where
  "example_mr = zero_mr \<lparr> mr_lkey := 0x500, mr_rkey := 0x500, mr_umem := Some example_umem,
     mr_state := PIB_MR_VALID, mr_start := 0x1000, mr_length := 12, mr_access_flags := 0xF \<rparr>"

lemma example_user_mr: "user_mr example_mr example_umem 3"
  by (simp add: user_mr_def example_mr_def example_umem_def zero_mr_def)

theorem mr_copy_data_is_page_table_copy_witness:
  "mr_copy_data example_mr [1, 2, 3, 4, 5, 6] 2 6 0 0 PIB_MR_COPY_FROM (\<lambda>a. ucast a) =
    (None, [6, 7, 0, 1, 2, 3], \<lambda>a. ucast a)"
  using mr_copy_data_is_page_table_copy [OF example_user_mr, of 2 6 "[1, 2, 3, 4, 5, 6]" 0 0 "\<lambda>a. ucast a"]
  by (simp add: example_umem_def page_addr_def upt_rec)

text \<open>
  C19. A message that is stored packet by packet at consecutive addresses through an R_Key,
  the way the responder of an RDMA WRITE does, is read back whole through the same R_Key:
  for a region that is registered with remote read and write access, is covered by its
  pinned pages, and contains the range, fetching the range after storing the segments
  gives their concatenation.
\<close>

theorem rdma_segments_read_back:
  assumes "rkey_open pd rkey d" "rkey_span pd rkey d a (length (concat segs))"
    and "segs \<noteq> []" "[] \<notin> set segs"
  shows "rkey_fetch pd rkey (rkeymem.store_segments pd rkey d a segs) a (length (concat segs)) = concat segs"
  using assms by (intro rkeymem.fetch_store_segments)


definition example_dev :: pib_dev where
  "example_dev = blank_dev \<lparr>
     mrs := (\<lambda>_. zero_mr \<lparr> mr_lkey := 0x500, mr_rkey := 0x500,
       mr_umem := Some \<lparr> umem_pages = [Some 0x10000], umem_offset = 1, umem_page_size = 16 \<rparr>,
       mr_state := PIB_MR_VALID, mr_start := 0x1000, mr_length := 12, mr_access_flags := 0xF \<rparr>),
     pds := (\<lambda>_. zero_pd \<lparr> mr_table := (\<lambda>_. None)(5 := Some 1) \<rparr>) \<rparr>"

lemma example_dev_key: "mr_at_key example_dev 0 0x500 = Some 1"
  by (simp add: mr_at_key_def example_dev_def key_index_def)

lemma example_dev_region:
  "mr_region_ok (mrs example_dev 1) \<lparr> umem_pages = [Some 0x10000], umem_offset = 1, umem_page_size = 16 \<rparr> 4"
proof -
  have "inj_on (page_addr [Some 0x10000] (2 ^ 4)) {..<16}"
    by (rule inj_onI) (simp add: page_addr_here of_nat_eq_u64)
  then show ?thesis
    by (simp add: mr_region_ok_def user_mr_def example_dev_def zero_mr_def)
qed

lemma example_dev_open: "rkey_open 0 0x500 example_dev"
  unfolding rkey_open_def
  by (intro exI conjI; (rule example_dev_key example_dev_region)?) (simp_all add: example_dev_def)

theorem rdma_segments_read_back_witness:
  "rkey_fetch 0 0x500 (rkeymem.store_segments 0 0x500 example_dev 0x1000 [[1, 2, 3], [4, 5]]) 0x1000 (length (concat [[1 :: u8, 2, 3], [4, 5]])) =
    [1, 2, 3, 4, 5]"
  using rdma_segments_read_back [OF example_dev_open, where a = "0x1000" and segs = "[[1, 2, 3], [4, 5]]"] example_dev_key
  by (simp add: rkey_span_def example_dev_def)


text \<open>
  C33. The remote atomic operations: for an operand inside of a user region that grants
  remote atomics, \<^verbatim>\<open>pib_util_mr_atomic\<close> returns the 64-bit word that was in memory at the
  place of the operand, changes no other byte, and leaves there, for fetch-and-add, the sum with the operand modulo \<open>2 ^ 64\<close>, and, for
  compare-and-swap, the swap operand if the word equalled the compare operand and the old
  word otherwise.
\<close>

theorem mr_atomic_returns_old_word:
  fixes d :: pib_dev and pd rkey p
  defines "mr \<equiv> mrs d p"
  assumes "mr_at_key d pd rkey = Some p" "mr_region_ok mr u k" "mr_rkey mr = rkey"
    and "mr_access_flags mr AND IB_ACCESS_REMOTE_ATOMIC = IB_ACCESS_REMOTE_ATOMIC"
    and "in_region mr address 8"
    and "dir = PIB_MR_CAS \<or> dir = PIB_MR_FETCHADD"
  shows "let a = region_addr mr u k (unat address); old = word_le (mem_read (mem d) a 8);
             new = (if dir = PIB_MR_FETCHADD then old + compare
                    else if old = compare then swap else old)
         in \<exists>d'. pib_util_mr_atomic d pd rkey address swap compare dir = (IB_WC_SUCCESS, Some old, d') \<and>
              word_le (mem_read (mem d') a 8) = new \<and>
              (\<forall>x. 8 \<le> unat (x - a) \<longrightarrow> mem d' x = mem d x)"
proof -
  let ?a = "region_addr mr u k (unat address)"
  have span: "rkey_span pd rkey d (unat address) 8"
    using assms(2,6) by (simp add: rkey_span_def in_region_def mr_def)
  have g: "rkey_grants d pd rkey address 8 IB_ACCESS_REMOTE_ATOMIC p"
    using span_grants(1) [OF assms(2) assms(3) [unfolded mr_def] assms(4) [unfolded mr_def]
        assms(5) [unfolded mr_def] span] by simp
  have off: "unat (umem_offset u) + unat (address - mr_start mr) < length (umem_pages u) * 2 ^ k"
    using in_region_pinned [OF assms(6,3)] by simp
  have a: "byte_addr u k (address - mr_start mr) 0 = ?a"
    using unat_minus_start [OF assms(6)] by (simp add: byte_addr_def region_addr_def)
  have "user_mr mr u k"
    using assms(3) by (simp add: mr_region_ok_def)
  note copy = mr_copy_data_atomic [OF this assms(7) off, unfolded a]
  have code: "pib_util_mr_atomic d pd rkey address swap compare dir =
      (case mr_copy_data_sub [] ?a 8 swap compare dir (mem d) of
         (ret, out, m') \<Rightarrow> (IB_WC_SUCCESS, if out = [] then None else Some (word_le out), d \<lparr> mem := m' \<rparr>))"
    using g assms(7) copy by (auto simp: pib_util_mr_atomic_def rkey_grants_def mr_def Let_def)
  have rw: "mem_read (mem_write ?a (bytes_le w) m) ?a 8 = bytes_le w" for w m
    using mem_read_write_same [of "bytes_le w" ?a m] by simp
  have ne: "bytes_le w \<noteq> []" for w
    using length_bytes_le [of w] by (metis list.size(3) zero_neq_numeral)
  show ?thesis
    unfolding code using assms(7)
    by (elim disjE) (auto simp: Let_def rw ne mem_write_other)
qed

theorem mr_atomic_returns_old_word_witness:
  "\<exists>d'. pib_util_mr_atomic example_dev 0 0x500 0x1002 7 5 PIB_MR_FETCHADD =
    (IB_WC_SUCCESS, Some (word_le (mem_read (mem example_dev)
       (region_addr (mrs example_dev 1) \<lparr> umem_pages = [Some 0x10000], umem_offset = 1, umem_page_size = 16 \<rparr> 4
          (unat (0x1002 :: u64))) 8)), d')"
proof -
  have "in_region (mrs example_dev 1) 0x1002 8"
    by (simp add: in_region_def example_dev_def)
  moreover have "mr_rkey (mrs example_dev 1) = 0x500"
      "mr_access_flags (mrs example_dev 1) AND IB_ACCESS_REMOTE_ATOMIC = IB_ACCESS_REMOTE_ATOMIC"
    by (simp_all add: example_dev_def)
  ultimately show ?thesis
    using mr_atomic_returns_old_word [OF example_dev_key example_dev_region, of "0x1002" PIB_MR_FETCHADD 5 7]
    by (auto simp: Let_def)
qed

text \<open>
  Registering user memory gives the new region a slot of its protection domain that
  was free, under an L_Key and an R_Key whose index part is that slot and an L_Key other than
  the reserved one, valid with the range and the rights that were asked for; deregistering
  it then frees the slot and the region number and leaves the tables and counts as they
  were before the registration.
\<close>

theorem reg_user_mr_then_dereg:
  assumes "pib_reg_user_mr pd start len virt access_flags (Inr u) d = Some (Inr mr, d')"
    and "\<forall>p\<in>set (obj_head (mr_list d)). p < next_ptr d"
  shows "mr_at_key d' pd (mr_lkey (mrs d' mr)) = Some mr \<and> mr_at_key d' pd (mr_rkey (mrs d' mr)) = Some mr \<and>
    mr_at_key d pd (mr_lkey (mrs d' mr)) = None \<and> mr_lkey (mrs d' mr) \<noteq> PIB_LOCAL_DMA_LKEY \<and>
    mr_state (mrs d' mr) = PIB_MR_VALID \<and> mr_start (mrs d' mr) = start \<and> mr_length (mrs d' mr) = len \<and>
    mr_access_flags (mrs d' mr) = access_flags \<and> mr_umem (mrs d' mr) = Some u \<and>
    (case pib_dereg_mr mr d' of (ret, d'') \<Rightarrow> ret = None \<and> pds d'' = pds d \<and>
       obj_num_bitmap d'' = obj_num_bitmap d \<and> obj_head (mr_list d'') = obj_head (mr_list d) \<and>
       nr_obj (mr_list d'') = nr_obj (mr_list d))"
proof -
  obtain d1 where c: "create_mr pd PIB_MR_VALID False 0 d = Some (Inr mr, d1)"
    and d': "d' = upd_mr mr (\<lambda>x. x \<lparr> mr_start := start, mr_length := len,
              mr_virt_addr := virt, mr_access_flags := access_flags, mr_umem := Some u \<rparr>) d1"
    using assms(1) by (auto simp: pib_reg_user_mr_def split: option.splits prod.splits sum.splits)
  from create_mr_registered [OF c] obtain i num where r: "registered d pd mr i num d1"
      "mr_state (mrs d1 mr) = PIB_MR_VALID"
    by blast
  have "mr \<notin> set (obj_head (mr_list d))"
    using r(1) assms(2) by (auto simp: registered_def)
  moreover have "unat (of_nat num :: u32) = num"
    using r(1) by (intro unat_of_nat_small) (simp add: registered_def)
  ultimately show ?thesis
    using r unfolding d' registered_def
    by (elim conjE) (simp add: mr_at_key_def pib_dereg_mr_def pib_dealloc_obj_num_def Let_def
        remove1_append fun_upd_idem)
qed

lemma find_upt_first: "P 0 \<Longrightarrow> 0 < n \<Longrightarrow> List.find P [0..<n] = Some 0"
  by (simp add: upt_conv_Cons)

lemma example_registration:
  "\<exists>mr d'. pib_reg_user_mr 0 0x1000 12 0x1000 0xF (Inr example_umem) blank_dev = Some (Inr mr, d')"
  by (simp add: pib_reg_user_mr_def create_mr_def reg_mr_def kmem_alloc_def Let_def
      pib_alloc_obj_num_def find_next_zero_bit.simps find_upt_first blank_dev_def zero_pd_def
      empty_list_def generate_new_key_step random_draw_def make_key_def)

theorem reg_user_mr_then_dereg_witness:
  "\<exists>mr d'. pib_reg_user_mr 0 0x1000 12 0x1000 0xF (Inr example_umem) blank_dev = Some (Inr mr, d') \<and>
    mr_at_key d' 0 (mr_lkey (mrs d' mr)) = Some mr \<and> fst (pib_dereg_mr mr d') = None"
proof -
  obtain mr d' where r: "pib_reg_user_mr 0 0x1000 12 0x1000 0xF (Inr example_umem) blank_dev = Some (Inr mr, d')"
    using example_registration by blast
  moreover have "\<forall>p\<in>set (obj_head (mr_list blank_dev)). p < next_ptr blank_dev"
    by (simp add: blank_dev_def empty_list_def)
  ultimately show ?thesis
    using reg_user_mr_then_dereg [OF r] by (auto split: prod.splits)
qed

text \<open>
  C35. A region from \<^verbatim>\<open>pib_alloc_fast_reg_mr\<close> can be neither fast-registered nor invalidated:
  \<^verbatim>\<open>create_mr\<close> never sets \<^verbatim>\<open>is_fast_reg_mr\<close>, so both work requests on the region's R_Key
  complete with a memory window bind error and change nothing.
\<close>

theorem fast_reg_mr_unusable:
  assumes "pib_alloc_fast_reg_mr pd max_len d = Some (Inr mr, d')"
    and "fr_rkey fr = mr_rkey (mrs d' mr)"
  shows "pib_util_mr_fast_reg_pmr d' pd fr = (IB_WC_MW_BIND_ERR, d') \<and>
    pib_util_mr_invalidate d' pd (fr_rkey fr) = (IB_WC_MW_BIND_ERR, d')"
proof -
  obtain d1 where c: "create_mr pd PIB_MR_FREE True max_len d = Some (Inr mr, d1)"
    and d': "d' = upd_mr mr (\<lambda>x. x \<lparr> mr_start := 0, mr_length := - 1, mr_virt_addr := 0,
           mr_access_flags := 0 \<rparr>) d1"
    using assms(1) by (auto simp: pib_alloc_fast_reg_mr_def split: option.splits prod.splits sum.splits)
  from create_mr_registered [OF c] obtain i num where "registered d pd mr i num d1"
    by blast
  then have "mr_at_key d' pd (fr_rkey fr) = Some mr" "\<not> is_fast_reg_mr (mrs d' mr)"
    by (auto simp: registered_def d' assms(2) mr_at_key_def)
  then show ?thesis
    by (simp add: pib_util_mr_fast_reg_pmr_def pib_util_mr_invalidate_def Let_def)
qed

lemma example_fast_reg: "\<exists>mr d'. pib_alloc_fast_reg_mr 0 4 blank_dev = Some (Inr mr, d')"
  by (simp add: pib_alloc_fast_reg_mr_def create_mr_def reg_mr_def kmem_alloc_def Let_def
      pib_alloc_obj_num_def find_next_zero_bit.simps find_upt_first blank_dev_def zero_pd_def
      empty_list_def generate_new_key_step random_draw_def make_key_def)

theorem fast_reg_mr_unusable_witness:
  "\<exists>mr d'. pib_alloc_fast_reg_mr 0 4 blank_dev = Some (Inr mr, d') \<and>
    pib_util_mr_invalidate d' 0 (mr_rkey (mrs d' mr)) = (IB_WC_MW_BIND_ERR, d')"
proof -
  obtain mr d' where r: "pib_alloc_fast_reg_mr 0 4 blank_dev = Some (Inr mr, d')"
    using example_fast_reg by blast
  from fast_reg_mr_unusable [OF this, of "(swqe_fast_reg zero_swqe) \<lparr> fr_rkey := mr_rkey (mrs d' mr) \<rparr>"] r
  show ?thesis
    by auto
qed

text \<open>
  Key generation returns.  Its loop repeats only while the L_Key comes out as the
  reserved L_Key, so it ends as soon as one of its L_Key draws is good; and for every slot
  but the first of a protection domain the first draw is good, whatever the random numbers
  are.
\<close>

theorem generate_new_key_returns:
  assumes "i < PIB_MAX_MR_PER_PD"
    and "0 < i \<or> make_key 0 (random_draw d (2 * n)) \<noteq> PIB_LOCAL_DMA_LKEY"
  shows "\<exists>lkey rkey d'. generate_new_key i d = Some (lkey, rkey, d') \<and>
    key_index lkey = i \<and> key_index rkey = i \<and> lkey \<noteq> PIB_LOCAL_DMA_LKEY"
proof -
  have "make_key i (random_draw d (2 * (if 0 < i then 0 else n))) \<noteq> 0"
    using assms make_key_nonzero [of i] by (cases i) auto
  from generate_new_key_good_draw [OF this] obtain lkey rkey d' where g: "generate_new_key i d = Some (lkey, rkey, d')"
    by blast
  from generate_new_key_result [OF g] assms(1) g show ?thesis
    by auto
qed

theorem generate_new_key_returns_witness:
  "\<exists>lkey rkey d'. generate_new_key 0 blank_dev = Some (lkey, rkey, d') \<and> key_index lkey = 0"
  using generate_new_key_returns [of 0 blank_dev 0]
  by (auto simp: random_draw_def blank_dev_def make_key_def)

end
