(* ===== verification/Pib_CQ.thy ===== *)
theory Pib_CQ
  imports Pib_Objnum
begin

text \<open>
  Completion queues, \<^verbatim>\<open>driver/pib_cq.c\<close>.  A queue owns a fixed set of entries, each either on
  the list of completions or on the free list; a completion that finds no free entry puts
  the queue into its error state, from which nothing brings it back.

  The contract a consumer relies on is the locale \<open>fifo_queue\<close>; the completion queue of the
  model is an instance.  Shown here: entries are conserved, completions are delivered once
  and in order, a notification request is answered at most once, an overflow is reported
  once and is final, creation either gives a queue of the wanted size or leaves no trace.

  Completion handlers only show in the log of callbacks: what they do inside of the
  driver is a later operation.
\<close>

section \<open>The interface of a queue of work\<close>

datatype 'a queue_op = Put 'a | Take nat

text \<open>
  \<open>tag\<close> is what the queue does to an element when it stores it.
\<close>

locale fifo_queue =
  fixes inv :: "'s \<Rightarrow> bool"
    and contents :: "'s \<Rightarrow> 'a list"
    and tag :: "'a \<Rightarrow> 'a"
    and put :: "'a \<Rightarrow> 's \<Rightarrow> bool \<times> 's"
    and get :: "nat \<Rightarrow> 's \<Rightarrow> 'a list \<times> 's"
  assumes put_law: "inv s \<Longrightarrow> put x s = (accepted, s') \<Longrightarrow>
      inv s' \<and> contents s' = contents s @ (if accepted then [tag x] else [])"
    and get_law: "inv s \<Longrightarrow> get n s = (xs, s') \<Longrightarrow>
      inv s' \<and> contents s = xs @ contents s' \<and> length xs \<le> n"
begin

fun run :: "'a queue_op list \<Rightarrow> 's \<Rightarrow> 'a list \<times> 'a list \<times> 's" where
  "run [] s = ([], [], s)"
| "run (Put x # ops) s =
    (let (accepted, s) = put x s; (ins, outs, s) = run ops s
     in (if accepted then tag x # ins else ins, outs, s))"
| "run (Take n # ops) s =
    (let (xs, s) = get n s; (ins, outs, s) = run ops s in (ins, xs @ outs, s))"

text \<open>Whatever the interleaving, what went in comes out in order, or is still there.\<close>

lemma run_fifo:
  assumes "inv s" "run ops s = (ins, outs, s')"
  shows "inv s' \<and> contents s @ ins = outs @ contents s'"
  using assms
proof (induction ops s arbitrary: ins outs s' rule: run.induct)
  case (1 s)
  then show ?case by simp
next
  case (2 x ops s)
  obtain accepted s1 where a: "put x s = (accepted, s1)" by force
  obtain ins' outs' s2 where r: "run ops s1 = (ins', outs', s2)" by (cases "run ops s1")
  with 2 a put_law [of s x accepted s1] show ?case
    by (auto split: if_splits)
next
  case (3 n ops s)
  obtain xs s1 where g: "get n s = (xs, s1)" by force
  obtain ins' outs' s2 where r: "run ops s1 = (ins', outs', s2)" by (cases "run ops s1")
  with 3 g get_law [of s n xs s1] show ?case
    by auto
qed

end

section \<open>Operations\<close>

fun alloc_entries :: "nat \<Rightarrow> pib_dev \<Rightarrow> bool \<times> pib_dev" where
  "alloc_entries 0 d = (True, d)"
| "alloc_entries (Suc n) d =
    (case kmem_alloc d of (False, d) \<Rightarrow> (False, d) | (True, d) \<Rightarrow> alloc_entries n d)"

text \<open>\<^verbatim>\<open>create_cq\<close>: the pointer of the new queue, or the error.\<close>

definition create_cq :: "int \<Rightarrow> pib_dev \<Rightarrow> (errno + nat) \<times> pib_dev" where
  "create_cq entries d =
    (if entries < 1 \<or> max_cqe (ib_dev_attr d) \<le> entries then (Inl EINVAL, d)
     else if max_cq (ib_dev_attr d) \<le> nr_obj (cq_list d) then (Inl ENOMEM, d)
     else (case kmem_alloc d of
         (False, d) \<Rightarrow> (Inl ENOMEM, d)
       | (True, d) \<Rightarrow>
         (let cq = next_ptr d; d = d \<lparr> next_ptr := Suc cq \<rparr> in
          case pib_alloc_obj_num PIB_BITMAP_CQ_START PIB_MAX_CQ
                 (obj_num_bitmap d, last_num (cq_list d)) of
            (None, bm, l) \<Rightarrow> (Inl ENOMEM, d)
          | (Some num, bm, l) \<Rightarrow>
            (let d = d \<lparr> obj_num_bitmap := bm,
                   cq_list := \<lparr> last_num = l, nr_obj = nr_obj (cq_list d) + 1,
                                obj_head = obj_head (cq_list d) @ [cq] \<rparr> \<rparr>
             in case alloc_entries (nat entries) d of
                  (False, d) \<Rightarrow>
                    (Inl ENOMEM,
                     d \<lparr> cq_list := (cq_list d) \<lparr> nr_obj := nr_obj (cq_list d) - 1,
                           obj_head := remove1 cq (obj_head (cq_list d)) \<rparr>,
                        obj_num_bitmap := pib_dealloc_obj_num PIB_BITMAP_CQ_START num (obj_num_bitmap d) \<rparr>)
                | (True, d) \<Rightarrow>
                    (Inr cq, d \<lparr> cqs := (cqs d)(cq := zero_cq \<lparr> cq_num := of_nat num,
                       cq_state := PIB_STATE_OK, notify_flag := No_notify, has_notified := True,
                       cq_cqe := entries, nr_cqe := 0, cqe_head := [],
                       free_cqe_head := replicate (nat entries) zero_wc \<rparr>) \<rparr>)))))"

definition pib_destroy_cq :: "nat \<Rightarrow> pib_dev \<Rightarrow> pib_dev" where
  "pib_destroy_cq cq d =
    pib_cancel_work (Cq_overflow_work cq)
    (d \<lparr> cqs := (cqs d)(cq := (cqs d cq) \<lparr> cqe_head := [], free_cqe_head := [], nr_cqe := 0 \<rparr>),
        cq_list := (cq_list d) \<lparr> nr_obj := nr_obj (cq_list d) - 1,
                                  obj_head := remove1 cq (obj_head (cq_list d)) \<rparr>,
        obj_num_bitmap := pib_dealloc_obj_num PIB_BITMAP_CQ_START (unat (cq_num (cqs d cq)))
          (obj_num_bitmap d) \<rparr>)"

text \<open>\<^verbatim>\<open>pib_modify_cq\<close> and \<^verbatim>\<open>pib_resize_cq\<close> accept and ignore every request.\<close>

definition pib_resize_cq :: "nat \<Rightarrow> int \<Rightarrow> pib_dev \<Rightarrow> int \<times> pib_dev" where
  "pib_resize_cq cq entries d = (0, d)"

definition pib_modify_cq :: "nat \<Rightarrow> u16 \<Rightarrow> u16 \<Rightarrow> pib_dev \<Rightarrow> int \<times> pib_dev" where
  "pib_modify_cq cq cq_count cq_period d = (0, d)"

text \<open>The loop of \<^verbatim>\<open>pib_poll_cq\<close>, and the verb: the completions stored in \<^verbatim>\<open>ibwc\<close>.\<close>

fun poll_loop :: "nat \<Rightarrow> pib_cq \<Rightarrow> ib_wc list \<times> pib_cq" where
  "poll_loop 0 c = ([], c)"
| "poll_loop (Suc n) c =
    (case cqe_head c of
       [] \<Rightarrow> ([], c)
     | wc # rest \<Rightarrow>
       (let (wcs, c) = poll_loop n (c \<lparr> cqe_head := rest, free_cqe_head := free_cqe_head c @ [wc],
                                       nr_cqe := nr_cqe c - 1 \<rparr>)
        in (wc # wcs, c)))"

definition pib_poll_cq :: "nat \<Rightarrow> int \<Rightarrow> pib_dev \<Rightarrow> (errno + ib_wc list) \<times> pib_dev" where
  "pib_poll_cq cq num_entries d =
    (if cq_state (cqs d cq) \<noteq> PIB_STATE_OK then (Inl EACCES, d)
     else let (wcs, c) = poll_loop (nat num_entries) (cqs d cq)
          in (Inr wcs, d \<lparr> cqs := (cqs d)(cq := c) \<rparr>))"

abbreviation (input) "CQ_SOLICITED_FLAG \<equiv> (1 :: u32)"
abbreviation (input) "CQ_NEXT_COMP_FLAG \<equiv> (2 :: u32)"
abbreviation (input) "IB_CQ_REPORT_MISSED_EVENTS \<equiv> (4 :: u32)"

definition pib_req_notify_cq :: "nat \<Rightarrow> u32 \<Rightarrow> pib_dev \<Rightarrow> int \<times> pib_dev" where
  "pib_req_notify_cq cq notify_flags d =
    (let c = cqs d cq in
     if cq_state c \<noteq> PIB_STATE_OK then (-1, d)
     else
       (if flag_set notify_flags IB_CQ_REPORT_MISSED_EVENTS \<and> cqe_head c \<noteq> [] then 1 else 0,
        upd_cq cq (\<lambda>c. c \<lparr>
          notify_flag := (if flag_set notify_flags CQ_SOLICITED_FLAG then IB_CQ_SOLICITED
                          else if flag_set notify_flags CQ_NEXT_COMP_FLAG then IB_CQ_NEXT_COMP
                          else notify_flag c),
          has_notified := False \<rparr>) d))"

text \<open>
  \<^verbatim>\<open>pib_util_remove_cq\<close>: the completions of a queue pair go back to the free list, in
  order; the result is their number.
\<close>

definition pib_util_remove_cq :: "nat \<Rightarrow> nat \<Rightarrow> pib_dev \<Rightarrow> int \<times> pib_dev" where
  "pib_util_remove_cq cq qp d =
    (let c = cqs d cq; gone = filter (\<lambda>wc. wc_qp wc = qp) (cqe_head c) in
     (int (length gone),
      upd_cq cq (\<lambda>c. c \<lparr> cqe_head := filter (\<lambda>wc. wc_qp wc \<noteq> qp) (cqe_head c),
        free_cqe_head := free_cqe_head c @ gone, nr_cqe := nr_cqe c - int (length gone) \<rparr>) d))"

text \<open>\<^verbatim>\<open>insert_wc\<close>; \<open>None\<close> is its return value 0.  The queue pair is the one \<^verbatim>\<open>wc->qp\<close> points to.\<close>

definition stored_wc :: "pib_qp \<Rightarrow> ib_wc \<Rightarrow> ib_wc" where
  "stored_wc qp wc =
    (if qp_type qp = IB_QPT_SMI then wc \<lparr> wc_port_num := init_port_num (qp_init_attr qp) \<rparr> else wc)"

definition wants_event :: "pib_cq \<Rightarrow> bool \<Rightarrow> bool" where
  "wants_event c solicited \<longleftrightarrow>
    (notify_flag c = IB_CQ_NEXT_COMP \<or> notify_flag c = IB_CQ_SOLICITED \<and> solicited) \<and> \<not> has_notified c"

definition insert_wc :: "nat \<Rightarrow> pib_qp \<Rightarrow> ib_wc \<Rightarrow> bool \<Rightarrow> pib_dev \<Rightarrow> errno option \<times> pib_dev" where
  "insert_wc cq qp wc solicited d =
    (let c = cqs d cq in
     if cq_state c \<noteq> PIB_STATE_OK then (Some EACCES, d)
     else (case free_cqe_head c of
         [] \<Rightarrow> (Some ENOMEM,
                pib_queue_work (Cq_overflow_work cq) (upd_cq cq (cq_state_update (\<lambda>_. PIB_STATE_ERR)) d))
       | cqe # free \<Rightarrow>
           (let d = upd_cq cq (\<lambda>c. c \<lparr> free_cqe_head := free, nr_cqe := nr_cqe c + 1,
                      cqe_head := cqe_head c @ [stored_wc qp wc] \<rparr>) d
            in (None, if wants_event c solicited
                      then callback (Comp_handler cq) (upd_cq cq (has_notified_update (\<lambda>_. True)) d)
                      else d))))"

definition pib_util_insert_wc_success :: "nat \<Rightarrow> pib_qp \<Rightarrow> ib_wc \<Rightarrow> bool \<Rightarrow> pib_dev \<Rightarrow> errno option \<times> pib_dev" where
  "pib_util_insert_wc_success cq qp wc solicited d = insert_wc cq qp wc solicited d"

definition corrupt_wc :: "ib_wc \<Rightarrow> pib_dev \<Rightarrow> ib_wc \<times> pib_dev" where
  "corrupt_wc wc d =
    (let (r1, d) = pib_random d; (r2, d) = pib_random d; (r3, d) = pib_random d;
         (r4, d) = pib_random d; (r5, d) = pib_random d; (r6, d) = pib_random d;
         (r7, d) = pib_random d; (r8, d) = pib_random d
     in (wc \<lparr> wc_opcode := r1, wc_byte_len := r2, wc_ex := r3, wc_flags := r4,
             wc_pkey_index := ucast r5, wc_slid := ucast r6, wc_sl := ucast r7,
             wc_dlid_path_bits := ucast r8 \<rparr>, d))"

definition pib_util_insert_wc_error ::
  "nat \<Rightarrow> pib_qp \<Rightarrow> u64 \<Rightarrow> ib_wc_status \<Rightarrow> u32 \<Rightarrow> pib_dev \<Rightarrow> errno option \<times> pib_dev" where
  "pib_util_insert_wc_error cq qp wr_id status opcode d =
    (let wc = zero_wc \<lparr> wc_wr_id := wr_id, wc_status := status, wc_opcode := opcode, wc_qp := qp_ptr qp \<rparr>;
         (wc, d) = (if pib_get_behavior d PIB_BEHAVIOR_CORRUPT_INVALID_WC_ATTRS
                    then corrupt_wc wc d else (wc, d))
     in insert_wc cq qp wc True d)"

section \<open>Entries are conserved\<close>

definition cq_inv :: "pib_cq \<Rightarrow> bool" where
  "cq_inv c \<longleftrightarrow> nr_cqe c = int (length (cqe_head c)) \<and>
     int (length (cqe_head c) + length (free_cqe_head c)) = cq_cqe c"

lemma poll_loop_eq:
  "poll_loop n c = (take n (cqe_head c), c \<lparr> cqe_head := drop n (cqe_head c),
     free_cqe_head := free_cqe_head c @ take n (cqe_head c),
     nr_cqe := nr_cqe c - int (length (take n (cqe_head c))) \<rparr>)"
  by (induction n c rule: poll_loop.induct) (auto split: list.split)

lemma poll_loop_inv [pib_inv]: "cq_inv c \<Longrightarrow> cq_inv (snd (poll_loop n c))"
  by (auto simp: poll_loop_eq cq_inv_def)

lemma length_filter_split:
  "length (filter P xs) + length (filter (\<lambda>x. \<not> P x) xs) = length xs"
  by (induction xs) auto

lemma pib_random_frame [pib_frame]:
  "cqs (snd (pib_random d)) = cqs d" "callbacks (snd (pib_random d)) = callbacks d"
  "wq_head (snd (pib_random d)) = wq_head d" "thread (snd (pib_random d)) = thread d"
  by (simp_all add: pib_random_def Let_def)

lemma corrupt_wc_frame [pib_frame]:
  "cqs (snd (corrupt_wc wc d)) = cqs d" "callbacks (snd (corrupt_wc wc d)) = callbacks d"
  "wq_head (snd (corrupt_wc wc d)) = wq_head d"
  by (simp_all add: corrupt_wc_def pib_random_def Let_def)

lemma callback_frame [pib_frame]:
  "cqs (callback x d) = cqs d" "callbacks (callback x d) = callbacks d @ [x]"
  by (simp_all add: callback_def)

lemma pib_queue_work_frame [pib_frame]:
  "cqs (pib_queue_work w d) = cqs d" "callbacks (pib_queue_work w d) = callbacks d"
  "wq_head (pib_queue_work w d) = wq_head d @ [w]"
  by (simp_all add: pib_queue_work_def)

lemma insert_wc_cases:
  obtains (broken) "cq_state (cqs d cq) \<noteq> PIB_STATE_OK" "insert_wc cq qp wc sol d = (Some EACCES, d)"
  | (full) "cq_state (cqs d cq) = PIB_STATE_OK" "free_cqe_head (cqs d cq) = []"
      "insert_wc cq qp wc sol d = (Some ENOMEM,
         pib_queue_work (Cq_overflow_work cq) (upd_cq cq (cq_state_update (\<lambda>_. PIB_STATE_ERR)) d))"
  | (room) cqe free d' where "cq_state (cqs d cq) = PIB_STATE_OK" "free_cqe_head (cqs d cq) = cqe # free"
      "insert_wc cq qp wc sol d = (None, d')"
      "cqs d' = (cqs d)(cq := (cqs d cq) \<lparr> free_cqe_head := free, nr_cqe := nr_cqe (cqs d cq) + 1,
         cqe_head := cqe_head (cqs d cq) @ [stored_wc qp wc],
         has_notified := (has_notified (cqs d cq) \<or> wants_event (cqs d cq) sol) \<rparr>)"
      "callbacks d' = callbacks d @ (if wants_event (cqs d cq) sol then [Comp_handler cq] else [])"
      "wq_head d' = wq_head d"
proof -
  consider "cq_state (cqs d cq) \<noteq> PIB_STATE_OK"
    | "cq_state (cqs d cq) = PIB_STATE_OK" "free_cqe_head (cqs d cq) = []"
    | cqe free where "cq_state (cqs d cq) = PIB_STATE_OK" "free_cqe_head (cqs d cq) = cqe # free"
    by (cases "free_cqe_head (cqs d cq)") auto
  then show thesis
  proof cases
    case 1
    then show ?thesis by (intro broken) (simp_all add: insert_wc_def)
  next
    case 2
    then show ?thesis by (intro full) (simp_all add: insert_wc_def)
  next
    case 3
    then show ?thesis
      by (intro room [of cqe free "snd (insert_wc cq qp wc sol d)"]; cases "cqs d cq";
          cases "wants_event (cqs d cq) sol")
         (simp_all add: insert_wc_def Let_def callback_def)
  qed
qed

lemma insert_wc_inv [pib_inv]:
  assumes "cq_inv (cqs d p)"
  shows "cq_inv (cqs (snd (insert_wc cq qp wc sol d)) p)"
  by (cases rule: insert_wc_cases [of d cq qp wc sol])
     (use assms in \<open>auto simp: cq_inv_def pib_frame\<close>)

lemma insert_wc_cqe: "cq_cqe (cqs (snd (insert_wc cq qp wc sol d)) p) = cq_cqe (cqs d p)"
  by (cases rule: insert_wc_cases [of d cq qp wc sol]) (auto simp: pib_frame)

lemma insert_wc_error_eq:
  "\<exists>wc d0. pib_util_insert_wc_error cq qp wr_id status opcode d = insert_wc cq qp wc True d0 \<and>
     cqs d0 = cqs d \<and> callbacks d0 = callbacks d \<and> wq_head d0 = wq_head d \<and>
     wc_wr_id wc = wr_id \<and> wc_status wc = status \<and> wc_qp wc = qp_ptr qp"
proof (cases "pib_get_behavior d PIB_BEHAVIOR_CORRUPT_INVALID_WC_ATTRS")
  case True
  define wc where "wc = zero_wc \<lparr> wc_wr_id := wr_id, wc_status := status, wc_opcode := opcode, wc_qp := qp_ptr qp \<rparr>"
  have "wc_wr_id (fst (corrupt_wc wc d)) = wr_id" "wc_status (fst (corrupt_wc wc d)) = status"
      "wc_qp (fst (corrupt_wc wc d)) = qp_ptr qp"
    by (simp_all add: corrupt_wc_def wc_def Let_def split: prod.splits)
  with True show ?thesis
    unfolding pib_util_insert_wc_error_def Let_def wc_def [symmetric]
    by (intro exI [of _ "fst (corrupt_wc wc d)"] exI [of _ "snd (corrupt_wc wc d)"])
       (simp add: pib_frame split: prod.splits)
next
  case False
  then show ?thesis
    unfolding pib_util_insert_wc_error_def Let_def by (intro exI conjI) (auto intro: refl)
qed

lemma insert_wc_error_inv [pib_inv]:
  assumes "cq_inv (cqs d p)"
  shows "cq_inv (cqs (snd (pib_util_insert_wc_error cq qp wr_id status opcode d)) p)"
proof -
  obtain wc d0 where "pib_util_insert_wc_error cq qp wr_id status opcode d = insert_wc cq qp wc True d0"
      "cqs d0 = cqs d"
    using insert_wc_error_eq by metis
  with assms show ?thesis
    by (simp add: insert_wc_inv)
qed

lemma remove_cq_inv [pib_inv]:
  assumes "cq_inv (cqs d p)"
  shows "cq_inv (cqs (snd (pib_util_remove_cq cq qp d)) p)"
  using assms length_filter_split [of "\<lambda>wc. wc_qp wc = qp" "cqe_head (cqs d cq)"]
  by (auto simp: pib_util_remove_cq_def Let_def cq_inv_def)

section \<open>The queue is first in, first out\<close>

definition cq_put :: "nat \<Rightarrow> pib_qp \<Rightarrow> bool \<Rightarrow> ib_wc \<Rightarrow> pib_dev \<Rightarrow> bool \<times> pib_dev" where
  "cq_put cq qp solicited wc d = (let (e, d') = insert_wc cq qp wc solicited d in (e = None, d'))"

definition cq_get :: "nat \<Rightarrow> nat \<Rightarrow> pib_dev \<Rightarrow> ib_wc list \<times> pib_dev" where
  "cq_get cq n d = (case pib_poll_cq cq (int n) d of (Inl e, d') \<Rightarrow> ([], d') | (Inr wcs, d') \<Rightarrow> (wcs, d'))"

interpretation cqfifo: fifo_queue "\<lambda>d. cq_inv (cqs d cq)" "\<lambda>d. cqe_head (cqs d cq)" "stored_wc qp"
  "cq_put cq qp solicited" "cq_get cq" for cq qp solicited
proof
  fix s s' x accepted
  assume inv: "cq_inv (cqs s cq)" and p: "cq_put cq qp solicited x s = (accepted, s')"
  then have s': "s' = snd (insert_wc cq qp x solicited s)" "accepted = (fst (insert_wc cq qp x solicited s) = None)"
    by (auto simp: cq_put_def split: prod.splits)
  show "cq_inv (cqs s' cq) \<and> cqe_head (cqs s' cq) =
      cqe_head (cqs s cq) @ (if accepted then [stored_wc qp x] else [])"
    unfolding s' using insert_wc_inv [OF inv, of cq qp x solicited]
    by (cases rule: insert_wc_cases [of s cq qp x solicited]) (auto simp: pib_frame)
next
  fix s s' n xs
  assume inv: "cq_inv (cqs s cq)" and g: "cq_get cq n s = (xs, s')"
  then show "cq_inv (cqs s' cq) \<and> cqe_head (cqs s cq) = xs @ cqe_head (cqs s' cq) \<and> length xs \<le> n"
    using poll_loop_inv [OF inv, of n]
    by (auto simp: cq_get_def pib_poll_cq_def poll_loop_eq split: if_splits)
qed

section \<open>Properties\<close>

text \<open>
  Every operation on a completion queue conserves its entries: whatever is inserted,
  polled, requested or removed, on every queue of the device the count equals the length
  of the completion list, and the entries on that list and on the free list together stay
  as many as the queue was created with.
\<close>

theorem cq_operations_conserve_entries:
  assumes "\<forall>p. cq_inv (cqs d p)"
    and "d' \<in> {snd (insert_wc cq qp wc sol d), snd (pib_util_insert_wc_error cq qp wr_id st opc d),
               snd (pib_poll_cq cq n d), snd (pib_req_notify_cq cq fl d), snd (pib_util_remove_cq cq q d)}"
  shows "\<forall>p. cq_inv (cqs d' p)"
proof
  fix p
  have "cq_inv (cqs (snd (pib_poll_cq cq n d)) p)"
    using assms(1) poll_loop_inv [of "cqs d cq" "nat n"]
    by (auto simp: pib_poll_cq_def Let_def split: prod.splits)
  moreover have "cq_inv (cqs (snd (pib_req_notify_cq cq fl d)) p)"
    using assms(1) by (auto simp: pib_req_notify_cq_def Let_def cq_inv_def)
  ultimately show "cq_inv (cqs d' p)"
    using assms by (auto intro: insert_wc_inv insert_wc_error_inv remove_cq_inv)
qed

theorem cq_operations_conserve_entries_witness:
  "\<forall>p. cq_inv (cqs (snd (insert_wc 1 zero_qp zero_wc True
     (upd_cq 1 (\<lambda>c. c \<lparr> cq_cqe := 2, free_cqe_head := [zero_wc, zero_wc] \<rparr>) blank_dev))) p)"
  by (rule cq_operations_conserve_entries [of "upd_cq 1 (\<lambda>c. c \<lparr> cq_cqe := 2,
        free_cqe_head := [zero_wc, zero_wc] \<rparr>) blank_dev" _ 1 zero_qp zero_wc True])
     (simp_all add: cq_inv_def blank_dev_def zero_cq_def)

text \<open>
  C9. Completions are delivered exactly once and in order.  For every interleaving of
  insertions and polls on a completion queue that starts well-formed, the completions that
  were in the queue followed by those whose insertion was accepted are the completions
  that the polls returned followed by those still in the queue.
\<close>

theorem cq_completions_in_order:
  assumes "cq_inv (cqs d cq)"
    and "cqfifo.run qp cq solicited ops d = (accepted, polled, d')"
  shows "cqe_head (cqs d cq) @ accepted = polled @ cqe_head (cqs d' cq)"
  using cqfifo.run_fifo [OF assms] by simp

theorem cq_completions_in_order_witness:
  "\<exists>accepted polled d'. cqfifo.run zero_qp 1 True [Put zero_wc, Take 2]
      (upd_cq 1 (\<lambda>c. c \<lparr> cq_cqe := 1, free_cqe_head := [zero_wc] \<rparr>) blank_dev) = (accepted, polled, d') \<and>
    accepted = polled @ cqe_head (cqs d' 1)"
proof -
  let ?d = "upd_cq 1 (\<lambda>c. c \<lparr> cq_cqe := 1, free_cqe_head := [zero_wc] \<rparr>) blank_dev"
  obtain accepted polled d' where r: "cqfifo.run zero_qp 1 True [Put zero_wc, Take 2] ?d = (accepted, polled, d')"
    by (cases "cqfifo.run zero_qp 1 True [Put zero_wc, Take 2] ?d")
  have "cq_inv (cqs ?d 1)" "cqe_head (cqs ?d 1) = []"
    by (simp_all add: cq_inv_def blank_dev_def zero_cq_def)
  with cq_completions_in_order [OF _ r] r show ?thesis
    by auto
qed

text \<open>Insertions one after the other; an element is a completion and its solicited flag.\<close>

fun insert_all :: "nat \<Rightarrow> pib_qp \<Rightarrow> (ib_wc \<times> bool) list \<Rightarrow> pib_dev \<Rightarrow> pib_dev" where
  "insert_all cq qp [] d = d"
| "insert_all cq qp ((wc, sol) # wcs) d = insert_all cq qp wcs (snd (insert_wc cq qp wc sol d))"

definition cq_events :: "nat \<Rightarrow> pib_dev \<Rightarrow> nat" where
  "cq_events cq d = length (filter (\<lambda>x. x = Comp_handler cq) (callbacks d))"

lemma insert_wc_notified:
  "has_notified (cqs d cq) \<Longrightarrow> has_notified (cqs (snd (insert_wc cq qp wc sol d)) cq) \<and>
     cq_events cq (snd (insert_wc cq qp wc sol d)) = cq_events cq d"
  by (cases rule: insert_wc_cases [of d cq qp wc sol])
     (auto simp: cq_events_def wants_event_def pib_frame)

lemma insert_all_notified:
  "has_notified (cqs d cq) \<Longrightarrow> cq_events cq (insert_all cq qp wcs d) = cq_events cq d"
  by (induction cq qp wcs d rule: insert_all.induct) (auto simp: insert_wc_notified)

lemma insert_wc_events:
  "cq_events cq (snd (insert_wc cq qp wc sol d)) = cq_events cq d +
     (if cq_state (cqs d cq) = PIB_STATE_OK \<and> free_cqe_head (cqs d cq) \<noteq> [] \<and> wants_event (cqs d cq) sol
      then 1 else 0)"
  "has_notified (cqs (snd (insert_wc cq qp wc sol d)) cq) \<longleftrightarrow> has_notified (cqs d cq) \<or>
     cq_state (cqs d cq) = PIB_STATE_OK \<and> free_cqe_head (cqs d cq) \<noteq> [] \<and> wants_event (cqs d cq) sol"
  by (cases rule: insert_wc_cases [of d cq qp wc sol]; auto simp: cq_events_def pib_frame)+

lemma insert_all_at_most_once:
  "cq_events cq (insert_all cq qp wcs d) \<le> cq_events cq d + (if has_notified (cqs d cq) then 0 else 1)"
proof (induction cq qp wcs d rule: insert_all.induct)
  case (2 cq qp wc sol wcs d)
  then show ?case
    using insert_all_notified [of "snd (insert_wc cq qp wc sol d)" cq qp wcs]
      insert_wc_events [of cq qp wc sol d] by (auto simp: wants_event_def split: if_splits)
qed simp

text \<open>
  A request for notification is answered at most once: however many completions
  arrive after it, the completion handler of the queue is called at most one time until
  the next request, and not at all when the handler was already called since the last
  request.  If the request was for the next completion, the queue works and has room, the
  first completion that arrives calls the handler.
\<close>

theorem cq_notifies_once:
  "cq_events cq (insert_all cq qp wcs d) \<le> cq_events cq d + (if has_notified (cqs d cq) then 0 else 1) \<and>
   (fst (pib_req_notify_cq cq CQ_NEXT_COMP_FLAG d) = 0 \<and> free_cqe_head (cqs d cq) \<noteq> [] \<and> wcs \<noteq> [] \<longrightarrow>
    cq_events cq (insert_all cq qp wcs (snd (pib_req_notify_cq cq CQ_NEXT_COMP_FLAG d))) = cq_events cq d + 1)"
proof (intro conjI impI)
  show "cq_events cq (insert_all cq qp wcs d) \<le> cq_events cq d + (if has_notified (cqs d cq) then 0 else 1)"
    by (rule insert_all_at_most_once)
next
  assume a: "fst (pib_req_notify_cq cq CQ_NEXT_COMP_FLAG d) = 0 \<and> free_cqe_head (cqs d cq) \<noteq> [] \<and> wcs \<noteq> []"
  let ?d = "snd (pib_req_notify_cq cq CQ_NEXT_COMP_FLAG d)"
  obtain wc sol rest where wcs: "wcs = (wc, sol) # rest"
    using a by (cases wcs) auto
  have "cq_state (cqs ?d cq) = PIB_STATE_OK" "free_cqe_head (cqs ?d cq) \<noteq> []" "wants_event (cqs ?d cq) sol"
      "cq_events cq ?d = cq_events cq d"
    using a by (auto simp: pib_req_notify_cq_def Let_def wants_event_def cq_events_def split: if_splits)
  then show "cq_events cq (insert_all cq qp wcs ?d) = cq_events cq d + 1"
    using insert_wc_events [of cq qp wc sol ?d]
      insert_all_notified [of "snd (insert_wc cq qp wc sol ?d)" cq qp rest] by (simp add: wcs)
qed

theorem cq_notifies_once_witness:
  "cq_events 1 (insert_all 1 zero_qp [(zero_wc, False), (zero_wc, False)]
     (snd (pib_req_notify_cq 1 CQ_NEXT_COMP_FLAG
       (upd_cq 1 (\<lambda>c. c \<lparr> cq_cqe := 2, free_cqe_head := [zero_wc, zero_wc] \<rparr>) blank_dev)))) = 1"
  using cq_notifies_once [of 1 zero_qp "[(zero_wc, False), (zero_wc, False)]"
      "upd_cq 1 (\<lambda>c. c \<lparr> cq_cqe := 2, free_cqe_head := [zero_wc, zero_wc] \<rparr>) blank_dev"]
  by (simp add: pib_req_notify_cq_def blank_dev_def zero_cq_def cq_events_def)

text \<open>
  Overflow is final and reported once.  A completion for a working queue without a free
  entry is dropped, the queue goes to its error state with its completions untouched, and
  one overflow work item is queued; from then on insertions, polls and notification
  requests on that queue all fail and change nothing, so no second item is queued.
\<close>

theorem cq_overflow_is_final:
  assumes "cq_state (cqs d cq) = PIB_STATE_OK" "free_cqe_head (cqs d cq) = []"
    and "insert_wc cq qp wc sol d = (r, d')"
  shows "r = Some ENOMEM \<and> wq_head d' = wq_head d @ [Cq_overflow_work cq] \<and>
    cqe_head (cqs d' cq) = cqe_head (cqs d cq) \<and> cq_state (cqs d' cq) = PIB_STATE_ERR \<and>
    insert_wc cq qp' wc' sol' d' = (Some EACCES, d') \<and> pib_poll_cq cq n d' = (Inl EACCES, d') \<and>
    pib_req_notify_cq cq fl d' = (-1, d')"
  using assms by (auto simp: insert_wc_def pib_poll_cq_def pib_req_notify_cq_def pib_queue_work_def)

theorem cq_overflow_is_final_witness:
  "\<exists>d'. insert_wc 1 zero_qp zero_wc True blank_dev = (Some ENOMEM, d') \<and>
    pib_poll_cq 1 1 d' = (Inl EACCES, d')"
proof -
  obtain r d' where i: "insert_wc 1 zero_qp zero_wc True blank_dev = (r, d')"
    by force
  moreover have "cq_state (cqs blank_dev 1) = PIB_STATE_OK" "free_cqe_head (cqs blank_dev 1) = []"
    by (simp_all add: blank_dev_def zero_cq_def)
  ultimately show ?thesis
    using cq_overflow_is_final [of blank_dev 1 zero_qp zero_wc True r d'] by auto
qed

lemma alloc_entries_frame:
  assumes "alloc_entries n d = (ok, d')"
  shows "\<exists>bs. d' = d \<lparr> kmem := bs \<rparr>"
  using assms
proof (induction n d rule: alloc_entries.induct)
  case (1 d)
  then show ?case by (auto intro: exI [of _ "kmem d"])
next
  case (2 n d)
  obtain b d1 where a: "kmem_alloc d = (b, d1)" by force
  with kmem_alloc_frame [OF a] 2 show ?case
    by (cases b) fastforce+
qed

text \<open>
  C34. Creating a completion queue either gives a working, empty queue with exactly the
  entries that were asked for, under a number that was not in use, and links it into the
  device; or it reports an error, and then the list, the count and the numbers of the
  device are as before, whichever of the allocations failed.
\<close>

theorem create_cq_all_or_nothing:
  assumes "create_cq entries d = (r, d')"
    and "\<forall>p\<in>set (obj_head (cq_list d)). p < next_ptr d"
  shows "case r of
      Inr cq \<Rightarrow> cq_inv (cqs d' cq) \<and> cq_cqe (cqs d' cq) = entries \<and> cqe_head (cqs d' cq) = [] \<and>
        cq_state (cqs d' cq) = PIB_STATE_OK \<and> obj_head (cq_list d') = obj_head (cq_list d) @ [cq] \<and>
        nr_obj (cq_list d') = nr_obj (cq_list d) + 1 \<and>
        \<not> obj_num_bitmap d (PIB_BITMAP_CQ_START + unat (cq_num (cqs d' cq))) \<and>
        obj_num_bitmap d' (PIB_BITMAP_CQ_START + unat (cq_num (cqs d' cq)))
    | Inl e \<Rightarrow> (e = EINVAL \<or> e = ENOMEM) \<and> cqs d' = cqs d \<and>
        obj_head (cq_list d') = obj_head (cq_list d) \<and> nr_obj (cq_list d') = nr_obj (cq_list d) \<and>
        obj_num_bitmap d' = obj_num_bitmap d"
proof (cases "entries < 1 \<or> max_cqe (ib_dev_attr d) \<le> entries \<or> max_cq (ib_dev_attr d) \<le> nr_obj (cq_list d)")
  case True
  with assms(1) show ?thesis by (auto simp: create_cq_def split: if_splits)
next
  case ok: False
  obtain b d1 where k: "kmem_alloc d = (b, d1)" by force
  then obtain bs where d1: "d1 = d \<lparr> kmem := bs \<rparr>"
    using kmem_alloc_frame by blast
  obtain n bm l where a: "pib_alloc_obj_num PIB_BITMAP_CQ_START PIB_MAX_CQ
      (obj_num_bitmap d, last_num (cq_list d)) = (n, bm, l)"
    by (cases "pib_alloc_obj_num PIB_BITMAP_CQ_START PIB_MAX_CQ (obj_num_bitmap d, last_num (cq_list d))")
  show ?thesis
  proof (cases "b \<and> n \<noteq> None")
    case False
    with ok assms(1) k d1 a show ?thesis
      by (auto simp: create_cq_def Let_def split: bool.splits option.splits)
  next
    case True
    then obtain num where n: "n = Some num" and b by blast
    note num = alloc_obj_num_Some [OF a [unfolded n]]
    let ?d2 = "d1 \<lparr> next_ptr := Suc (next_ptr d1), obj_num_bitmap := bm,
      cq_list := \<lparr> last_num = l, nr_obj = nr_obj (cq_list d) + 1,
                  obj_head = obj_head (cq_list d) @ [next_ptr d] \<rparr> \<rparr>"
    obtain b2 d3 where e: "alloc_entries (nat entries) ?d2 = (b2, d3)" by force
    then obtain bs3 where d3: "d3 = ?d2 \<lparr> kmem := bs3 \<rparr>"
      using alloc_entries_frame by blast
    have fresh: "next_ptr d \<notin> set (obj_head (cq_list d))" and u: "unat (of_nat num :: u32) = num"
        "\<not> obj_num_bitmap d (196608 + num)"
      using assms(2) num(1) by (auto simp: unat_of_nat_small used_nums_def)
    show ?thesis
    proof (cases b2)
      case True
      with ok assms(1) k d1 a n e d3 \<open>b\<close> num(2) u show ?thesis
        by (auto simp: create_cq_def Let_def cq_inv_def)
    next
      case False
      with ok assms(1) k d1 a n e d3 \<open>b\<close> num(2) u fresh show ?thesis
        by (auto simp: create_cq_def Let_def pib_dealloc_obj_num_def remove1_append fun_upd_idem)
    qed
  qed
qed

theorem create_cq_all_or_nothing_witness:
  "\<exists>r d'. create_cq 3 blank_dev = (r, d') \<and> (case r of Inr cq \<Rightarrow> cq_inv (cqs d' cq) | Inl e \<Rightarrow> cqs d' = cqs blank_dev)"
proof -
  obtain r d' where c: "create_cq 3 blank_dev = (r, d')" by force
  from create_cq_all_or_nothing [OF this] c show ?thesis
    by (auto simp: blank_dev_def empty_list_def split: sum.splits)
qed

end
