(* ===== verification/Pib_SRQ.thy ===== *)
theory Pib_SRQ
  imports Pib_CQ
begin

text \<open>
  Shared receive queues, \<^verbatim>\<open>driver/pib_srq.c\<close>.  An SRQ owns a fixed set of receive entries, on
  its free list or on the list of posted requests; a queue pair that consumes a request
  takes its entry and gives it back when the request completes.

  Shown here: posted requests are consumed in order (the queue is an instance of
  \<open>fifo_queue\<close>), what posting does to the entries on each of its outcomes, when a chain of
  requests is accepted, and when the limit event is raised.  The handler of an SRQ error
  flushes queue pairs and is in \<open>Pib_QP\<close>.
\<close>

section \<open>Operations\<close>

definition pib_srq_attr_is_ok :: "pib_dev \<Rightarrow> u32 \<Rightarrow> u32 \<Rightarrow> bool" where
  "pib_srq_attr_is_ok d max_wr max_sge' \<longleftrightarrow>
    \<not> (max_wr < 1 \<or> max_srq_wr (ib_dev_attr d) < int (unat max_wr)) \<and>
    \<not> (max_sge' < 1 \<or> max_srq_sge (ib_dev_attr d) < int (unat max_sge'))"

definition pib_create_srq :: "nat \<Rightarrow> u32 \<Rightarrow> u32 \<Rightarrow> pib_dev \<Rightarrow> (errno + nat) \<times> pib_dev" where
  "pib_create_srq pd max_wr max_sge' d =
    (if \<not> pib_srq_attr_is_ok d max_wr max_sge' then (Inl EINVAL, d)
     else (case kmem_alloc d of
         (False, d) \<Rightarrow> (Inl ENOMEM, d)
       | (True, d) \<Rightarrow>
         (let srq = next_ptr d; d = d \<lparr> next_ptr := Suc srq \<rparr> in
          case pib_alloc_obj_num PIB_BITMAP_SRQ_START PIB_MAX_SRQ
                 (obj_num_bitmap d, last_num (srq_list d)) of
            (None, bm, l) \<Rightarrow> (Inl ENOMEM, d)
          | (Some num, bm, l) \<Rightarrow>
            (let d = d \<lparr> obj_num_bitmap := bm,
                   srq_list := \<lparr> last_num = l, nr_obj = nr_obj (srq_list d) + 1,
                                 obj_head = obj_head (srq_list d) @ [srq] \<rparr> \<rparr>
             in case alloc_entries (unat max_wr) d of
                  (False, d) \<Rightarrow>
                    (Inl ENOMEM,
                     d \<lparr> srq_list := (srq_list d) \<lparr> nr_obj := nr_obj (srq_list d) - 1,
                           obj_head := remove1 srq (obj_head (srq_list d)) \<rparr>,
                        obj_num_bitmap := pib_dealloc_obj_num PIB_BITMAP_SRQ_START num (obj_num_bitmap d) \<rparr>)
                | (True, d) \<Rightarrow>
                    (Inr srq, d \<lparr> srqs := (srqs d)(srq := zero_srq \<lparr> srq_num := of_nat num,
                       srq_pd := pd, srq_state := PIB_STATE_OK, srq_max_wr := max_wr,
                       srq_max_sge := max_sge', srq_srq_limit := 0, srq_recv_wqe_head := [],
                       srq_free_recv_wqe_head := replicate (unat max_wr) zero_rwqe \<rparr>) \<rparr>)))))"

definition pib_destroy_srq :: "nat \<Rightarrow> pib_dev \<Rightarrow> pib_dev" where
  "pib_destroy_srq srq d =
    d \<lparr> srqs := (srqs d)(srq := (srqs d srq) \<lparr> srq_recv_wqe_head := [],
          srq_free_recv_wqe_head := [], srq_nr_recv_wqe := 0 \<rparr>),
        srq_list := (srq_list d) \<lparr> nr_obj := nr_obj (srq_list d) - 1,
                                    obj_head := remove1 srq (obj_head (srq_list d)) \<rparr>,
        obj_num_bitmap := pib_dealloc_obj_num PIB_BITMAP_SRQ_START (unat (srq_num (srqs d srq)))
          (obj_num_bitmap d) \<rparr>"

abbreviation (input) "IB_SRQ_MAX_WR \<equiv> (1 :: u32)"
abbreviation (input) "IB_SRQ_LIMIT \<equiv> (2 :: u32)"

definition pib_modify_srq ::
  "nat \<Rightarrow> u32 \<Rightarrow> u32 \<Rightarrow> u32 \<Rightarrow> u32 \<Rightarrow> pib_dev \<Rightarrow> errno option \<times> pib_dev" where
  "pib_modify_srq srq max_wr max_sge' limit attr_mask d =
    (if srq_state (srqs d srq) \<noteq> PIB_STATE_OK then (Some EACCES, d)
     else if flag_set attr_mask IB_SRQ_MAX_WR \<and> \<not> cap_srq_resize (ib_dev_attr d) then (Some EINVAL, d)
     else if flag_set attr_mask IB_SRQ_MAX_WR \<and> \<not> pib_srq_attr_is_ok d max_wr max_sge' then (Some EINVAL, d)
     else
       let d = (if flag_set attr_mask IB_SRQ_MAX_WR
                then upd_srq srq (\<lambda>s. s \<lparr> srq_max_wr := max_wr, srq_max_sge := max_sge' \<rparr>) d else d);
           d = (if flag_set attr_mask IB_SRQ_LIMIT
                then upd_srq srq (\<lambda>s. s \<lparr> srq_srq_limit := limit, issue_srq_limit := False \<rparr>) d else d)
       in (None, d))"

definition pib_query_srq :: "nat \<Rightarrow> pib_dev \<Rightarrow> errno + (u32 \<times> u32 \<times> u32)" where
  "pib_query_srq srq d =
    (if srq_state (srqs d srq) \<noteq> PIB_STATE_OK then Inl EACCES
     else Inr (srq_max_wr (srqs d srq), srq_max_sge (srqs d srq), srq_srq_limit (srqs d srq)))"

text \<open>
  The length that the posting loops add to \<^verbatim>\<open>total_length\<close> for the entries of a request.  With
  the behaviour bit, an entry of length zero counts as the longest payload (and is
  rewritten in the caller's list; the copy in the queue entry keeps the zero).
\<close>

definition sge_count_length :: "pib_dev \<Rightarrow> ib_sge \<Rightarrow> u64" where
  "sge_count_length d sge =
    (if pib_get_behavior d PIB_BEHAVIOR_ZERO_LEN_SGE_CONSIDER_AS_MAX_LEN \<and> sge_length sge = 0
     then PIB_MAX_PAYLOAD_LEN else ucast (sge_length sge))"

definition sges_count_length :: "pib_dev \<Rightarrow> ib_sge list \<Rightarrow> u64" where
  "sges_count_length d sges = sum_list (map (sge_count_length d) sges)"

text \<open>
  The loop of \<^verbatim>\<open>pib_post_srq_recv\<close>: the error, the part of the chain that starts at \<^verbatim>\<open>bad_wr\<close>,
  and the device.  \<^verbatim>\<open>total_length\<close> runs on from one request of the chain to the next.
\<close>

fun post_srq_recv_loop ::
  "nat \<Rightarrow> u64 \<Rightarrow> ib_recv_wr list \<Rightarrow> pib_dev \<Rightarrow> errno option \<times> ib_recv_wr list \<times> pib_dev" where
  "post_srq_recv_loop srq len [] d = (None, [], d)"
| "post_srq_recv_loop srq len (wr # wrs) d =
    (if rwr_num_sge wr < 1 \<or> int (unat (srq_max_sge (srqs d srq))) < rwr_num_sge wr
     then (Some EINVAL, wr # wrs, d)
     else (case srq_free_recv_wqe_head (srqs d srq) of
         [] \<Rightarrow> (Some ENOMEM, wr # wrs, d)
       | w # free \<Rightarrow>
         (let d1 = upd_srq srq (srq_free_recv_wqe_head_update (\<lambda>_. free)) d;
              sges = take (nat (rwr_num_sge wr)) (rwr_sg_list wr);
              len = len + sges_count_length d sges
          in if PIB_MAX_PAYLOAD_LEN < len then (Some EMSGSIZE, wr # wrs, d1)
             else
               let w = w \<lparr> rwqe_wr_id := rwr_wr_id wr, rwqe_sge_array := sges,
                          rwqe_total_length := ucast len \<rparr>
               in post_srq_recv_loop srq len wrs
                    (upd_srq srq (\<lambda>s. s \<lparr> srq_recv_wqe_head := srq_recv_wqe_head s @ [w],
                       srq_nr_recv_wqe := srq_nr_recv_wqe s + 1 \<rparr>) d1))))"

definition pib_post_srq_recv ::
  "nat \<Rightarrow> ib_recv_wr list \<Rightarrow> pib_dev \<Rightarrow> errno option \<times> ib_recv_wr list \<times> pib_dev" where
  "pib_post_srq_recv srq wrs d =
    (if wrs = [] then (Some EINVAL, [], d) else post_srq_recv_loop srq 0 wrs d)"

definition pib_util_get_srq :: "nat \<Rightarrow> pib_dev \<Rightarrow> pib_recv_wqe option \<times> pib_dev" where
  "pib_util_get_srq srq d =
    (let s = srqs d srq in
     if srq_state s \<noteq> PIB_STATE_OK then (None, d)
     else (case srq_recv_wqe_head s of
         [] \<Rightarrow> (None, d)
       | w # rest \<Rightarrow>
         (let s = s \<lparr> srq_recv_wqe_head := rest, srq_nr_recv_wqe := srq_nr_recv_wqe s - 1 \<rparr>
          in if srq_srq_limit s \<noteq> 0 \<and> \<not> issue_srq_limit s \<and>
                srq_nr_recv_wqe s < int (unat (srq_srq_limit s))
             then (Some w, callback (Srq_event IB_EVENT_SRQ_LIMIT_REACHED srq)
                     (d \<lparr> srqs := (srqs d)(srq := s \<lparr> issue_srq_limit := True \<rparr>) \<rparr>))
             else (Some w, d \<lparr> srqs := (srqs d)(srq := s) \<rparr>))))"

section \<open>Posting\<close>

text \<open>What a request and the queue entry made from it have in common.\<close>

definition rwr_key :: "ib_recv_wr \<Rightarrow> u64 \<times> ib_sge list" where
  "rwr_key wr = (rwr_wr_id wr, take (nat (rwr_num_sge wr)) (rwr_sg_list wr))"

definition rwqe_key :: "pib_recv_wqe \<Rightarrow> u64 \<times> ib_sge list" where
  "rwqe_key w = (rwqe_wr_id w, rwqe_sge_array w)"

definition srq_inv :: "nat \<Rightarrow> pib_dev \<Rightarrow> bool" where
  "srq_inv srq d \<longleftrightarrow> srq_nr_recv_wqe (srqs d srq) = int (length (srq_recv_wqe_head (srqs d srq)))"

text \<open>One round of the loop: the chain is refused at its head, or one entry changes list.\<close>

lemma post_srq_recv_loop_cases:
  assumes "post_srq_recv_loop srq len (wr # wrs) d = (r, bad, d')"
  obtains (refused) e where "r = Some e" "e \<noteq> EMSGSIZE" "bad = wr # wrs" "d' = d"
  | (leaked) w free where "r = Some EMSGSIZE" "bad = wr # wrs"
      "srq_free_recv_wqe_head (srqs d srq) = w # free"
      "d' = upd_srq srq (srq_free_recv_wqe_head_update (\<lambda>_. free)) d"
  | (posted) w w0 free len' where "srq_free_recv_wqe_head (srqs d srq) = w0 # free"
      "rwqe_key w = rwr_key wr"
      "post_srq_recv_loop srq len' wrs
         (d \<lparr> srqs := (srqs d)(srq := (srqs d srq) \<lparr> srq_free_recv_wqe_head := free,
            srq_recv_wqe_head := srq_recv_wqe_head (srqs d srq) @ [w],
            srq_nr_recv_wqe := srq_nr_recv_wqe (srqs d srq) + 1 \<rparr>) \<rparr>) = (r, bad, d')"
proof (cases "rwr_num_sge wr < 1 \<or> int (unat (srq_max_sge (srqs d srq))) < rwr_num_sge wr")
  case True
  with assms refused [of EINVAL] show ?thesis by simp
next
  case valid: False
  show ?thesis
  proof (cases "srq_free_recv_wqe_head (srqs d srq)")
    case Nil
    with valid assms refused [of ENOMEM] show ?thesis by simp
  next
    case (Cons w0 free)
    define len' where "len' = len + sges_count_length d (take (nat (rwr_num_sge wr)) (rwr_sg_list wr))"
    show ?thesis
    proof (cases "PIB_MAX_PAYLOAD_LEN < len'")
      case True
      with valid Cons assms show ?thesis by (intro leaked [OF _ _ Cons]) (auto simp: Let_def len'_def)
    next
      case False
      with valid Cons assms show ?thesis
        by (intro posted [where len' = len', OF Cons, of "w0 \<lparr> rwqe_wr_id := rwr_wr_id wr,
              rwqe_sge_array := take (nat (rwr_num_sge wr)) (rwr_sg_list wr),
              rwqe_total_length := ucast len' \<rparr>"])
          (simp_all add: Let_def len'_def rwqe_key_def rwr_key_def)
    qed
  qed
qed

text \<open>
  The shape of every outcome: the requests before \<^verbatim>\<open>bad_wr\<close> are appended in order, and the
  free list pays one entry for each of them, and one more when the length is refused.
\<close>

definition srq_posted :: "nat \<Rightarrow> ib_recv_wr list \<Rightarrow> errno option \<Rightarrow> ib_recv_wr list \<Rightarrow> pib_dev \<Rightarrow> pib_dev \<Rightarrow> bool" where
  "srq_posted srq wrs r bad d d' \<longleftrightarrow>
    (\<exists>ok. wrs = ok @ bad \<and>
      map rwqe_key (srq_recv_wqe_head (srqs d' srq)) =
        map rwqe_key (srq_recv_wqe_head (srqs d srq)) @ map rwr_key ok \<and>
      srq_nr_recv_wqe (srqs d' srq) = srq_nr_recv_wqe (srqs d srq) + int (length ok) \<and>
      length (srq_free_recv_wqe_head (srqs d srq)) =
        length (srq_free_recv_wqe_head (srqs d' srq)) + length ok + (if r = Some EMSGSIZE then 1 else 0) \<and>
      (r = None \<longleftrightarrow> bad = []))"

lemma post_srq_recv_loop_posted:
  assumes "post_srq_recv_loop srq len wrs d = (r, bad, d')"
  shows "srq_posted srq wrs r bad d d'"
  using assms
proof (induction wrs arbitrary: len d)
  case Nil
  then show ?case by (simp add: srq_posted_def)
next
  case (Cons wr wrs)
  from Cons.prems show ?case
  proof (cases rule: post_srq_recv_loop_cases)
    case (refused e)
    then show ?thesis by (simp add: srq_posted_def)
  next
    case (leaked w free)
    then show ?thesis by (simp add: srq_posted_def)
  next
    case (posted w w0 free len')
    from Cons.IH [OF posted(3)] posted(1,2) show ?thesis
      by (auto simp: srq_posted_def intro!: exI [of _ "wr # _"])
  qed
qed

lemma post_srq_recv_loop_frame [pib_frame]:
  assumes "post_srq_recv_loop srq len wrs d = (r, bad, d')"
  shows "callbacks d' = callbacks d" "issue_srq_limit (srqs d' srq) = issue_srq_limit (srqs d srq)"
    "srq_srq_limit (srqs d' srq) = srq_srq_limit (srqs d srq)"
    "srq_max_sge (srqs d' srq) = srq_max_sge (srqs d srq)"
    "p \<noteq> srq \<Longrightarrow> srqs d' p = srqs d p"
proof -
  have "callbacks d' = callbacks d \<and> issue_srq_limit (srqs d' srq) = issue_srq_limit (srqs d srq) \<and>
      srq_srq_limit (srqs d' srq) = srq_srq_limit (srqs d srq) \<and>
      srq_max_sge (srqs d' srq) = srq_max_sge (srqs d srq) \<and> (p \<noteq> srq \<longrightarrow> srqs d' p = srqs d p)"
    using assms
  proof (induction wrs arbitrary: len d)
    case (Cons wr wrs)
    from Cons.prems show ?case
      by (cases rule: post_srq_recv_loop_cases) (auto dest!: Cons.IH)
  qed simp
  then show "callbacks d' = callbacks d" "issue_srq_limit (srqs d' srq) = issue_srq_limit (srqs d srq)"
    "srq_srq_limit (srqs d' srq) = srq_srq_limit (srqs d srq)"
    "srq_max_sge (srqs d' srq) = srq_max_sge (srqs d srq)"
    "p \<noteq> srq \<Longrightarrow> srqs d' p = srqs d p" by blast+
qed

text \<open>
  Posting a chain of receive requests to a shared receive queue queues, in order,
  exactly the requests before the one reported in \<^verbatim>\<open>bad_wr\<close>, all of them when no error is
  returned.  Each takes one entry off the free list; only the refusal of an over-long
  request (\<^verbatim>\<open>EMSGSIZE\<close>) costs a further entry, which is then on neither list.
\<close>

theorem post_srq_recv_posts_prefix:
  assumes "wrs \<noteq> []" "pib_post_srq_recv srq wrs d = (r, bad, d')"
  shows "\<exists>ok. wrs = ok @ bad \<and> (r = None \<longleftrightarrow> bad = []) \<and>
      map rwqe_key (srq_recv_wqe_head (srqs d' srq)) =
        map rwqe_key (srq_recv_wqe_head (srqs d srq)) @ map rwr_key ok \<and>
      srq_nr_recv_wqe (srqs d' srq) = srq_nr_recv_wqe (srqs d srq) + int (length ok) \<and>
      length (srq_free_recv_wqe_head (srqs d srq)) =
        length (srq_free_recv_wqe_head (srqs d' srq)) + length ok + (if r = Some EMSGSIZE then 1 else 0)"
proof -
  from assms have "srq_posted srq wrs r bad d d'"
    by (auto simp: pib_post_srq_recv_def intro: post_srq_recv_loop_posted)
  then show ?thesis unfolding srq_posted_def by blast
qed

definition example_srq_dev :: pib_dev where
  "example_srq_dev = blank_dev \<lparr> srqs := (\<lambda>_. zero_srq \<lparr> srq_max_sge := 4,
     srq_free_recv_wqe_head := replicate 3 zero_rwqe \<rparr>) \<rparr>"

definition example_rwr :: "u64 \<Rightarrow> u32 \<Rightarrow> ib_recv_wr" where
  "example_rwr i len = \<lparr> rwr_wr_id = i, rwr_num_sge = 1,
     rwr_sg_list = [\<lparr> sge_addr = 0, sge_length = len, sge_lkey = 1 \<rparr>] \<rparr>"

lemmas example_srq_defs = example_srq_dev_def example_rwr_def blank_dev_def zero_srq_def
  sges_count_length_def sge_count_length_def pib_get_behavior_def

theorem post_srq_recv_posts_prefix_witness:
  "length (srq_free_recv_wqe_head (srqs (snd (snd (pib_post_srq_recv 5
      [example_rwr 1 16, example_rwr 2 0x40000001, example_rwr 3 16] example_srq_dev))) 5)) = 1"
proof -
  let ?wrs = "[example_rwr 1 16, example_rwr 2 0x40000001, example_rwr 3 16]"
  obtain r bad d' where e: "pib_post_srq_recv 5 ?wrs example_srq_dev = (r, bad, d')"
    by (metis prod_cases3)
  moreover from e have "r = Some EMSGSIZE \<and> bad = drop 1 ?wrs"
    by (simp add: pib_post_srq_recv_def example_srq_defs Let_def numeral_3_eq_3 split: if_splits)
  ultimately show ?thesis
    using post_srq_recv_posts_prefix [OF _ e] by (auto simp: example_srq_dev_def)
qed

subsection \<open>Which chains are accepted\<close>

definition rwr_length :: "ib_recv_wr \<Rightarrow> nat" where
  "rwr_length wr = (\<Sum>s\<leftarrow>snd (rwr_key wr). unat (sge_length s))"

lemma sges_count_length_nat:
  assumes "\<not> pib_get_behavior d PIB_BEHAVIOR_ZERO_LEN_SGE_CONSIDER_AS_MAX_LEN" "length sges < 2 ^ 32"
  shows "unat (sges_count_length d sges) = (\<Sum>s\<leftarrow>sges. unat (sge_length s)) \<and>
    unat (sges_count_length d sges) \<le> length sges * (2 ^ 32 - 1)"
  using assms(2)
proof (induction sges)
  case Nil
  then show ?case by (simp add: sges_count_length_def)
next
  case (Cons s sges)
  have s: "unat (sge_length s) \<le> 2 ^ 32 - 1"
    using unat_less_exp [of "sge_length s"] by simp
  have u: "unat (sge_count_length d s) = unat (sge_length s)"
    using assms(1) by (simp add: sge_count_length_def unsigned_ucast_eq take_bit_nat_eq_self s
        order.strict_trans1 [OF s])
  from Cons have ih: "unat (sges_count_length d sges) = (\<Sum>s\<leftarrow>sges. unat (sge_length s))"
    "unat (sges_count_length d sges) \<le> length sges * (2 ^ 32 - 1)" by simp_all
  have "length sges * (2 ^ 32 - 1) + (2 ^ 32 - 1) < 2 ^ 64"
    using Cons.prems by (simp add: less_eq_Suc_le)
  with s ih(2) have "unat (sge_length s) + unat (sges_count_length d sges) < 2 ^ 64" by linarith
  then have "unat (sge_count_length d s + sges_count_length d sges) =
      unat (sge_length s) + unat (sges_count_length d sges)"
    using u by (simp add: unat_add_no_overflow)
  then show ?case using ih s by (simp add: sges_count_length_def)
qed

lemma post_srq_recv_loop_accepts:
  assumes "\<not> pib_get_behavior d PIB_BEHAVIOR_ZERO_LEN_SGE_CONSIDER_AS_MAX_LEN"
    and "\<forall>wr \<in> set wrs. 1 \<le> rwr_num_sge wr \<and> rwr_num_sge wr \<le> int (unat (srq_max_sge (srqs d srq)))"
    and "length wrs \<le> length (srq_free_recv_wqe_head (srqs d srq))" "unat len \<le> 2 ^ 30"
  shows "fst (post_srq_recv_loop srq len wrs d) =
    (if unat len + (\<Sum>wr\<leftarrow>wrs. rwr_length wr) \<le> 2 ^ 30 then None else Some EMSGSIZE)"
  using assms
proof (induction wrs arbitrary: len d)
  case Nil
  then show ?case by simp
next
  case (Cons wr wrs)
  let ?sges = "take (nat (rwr_num_sge wr)) (rwr_sg_list wr)"
  obtain w free where f: "srq_free_recv_wqe_head (srqs d srq) = w # free"
    using Cons.prems(3) by (cases "srq_free_recv_wqe_head (srqs d srq)") auto
  have n: "1 \<le> rwr_num_sge wr" "rwr_num_sge wr \<le> int (unat (srq_max_sge (srqs d srq)))"
    using Cons.prems(2) by simp_all
  have "unat (srq_max_sge (srqs d srq)) < 2 ^ 32"
    using unat_less_exp [of "srq_max_sge (srqs d srq)"] by simp
  with n(2) have "nat (rwr_num_sge wr) < 2 ^ 32" by linarith
  then have l: "length ?sges \<le> 2 ^ 32 - 1" by simp
  define c where "c = sges_count_length d ?sges"
  have c: "unat c = rwr_length wr" "unat c \<le> (2 ^ 32 - 1) * (2 ^ 32 - 1)"
    using sges_count_length_nat [OF Cons.prems(1), of ?sges] l
      mult_le_mono1 [OF l, of "2 ^ 32 - 1"] by (simp_all add: c_def rwr_length_def rwr_key_def)
  have len: "unat (len + c) = unat len + rwr_length wr"
    using c Cons.prems(4) by (simp add: unat_add_no_overflow)
  show ?case
  proof (cases "PIB_MAX_PAYLOAD_LEN < len + c")
    case True
    then have "2 ^ 30 < unat len + rwr_length wr"
      using len by (simp add: word_less_nat_alt)
    with True n f show ?thesis by (simp add: Let_def c_def [symmetric])
  next
    case False
    then have "unat (len + c) \<le> 2 ^ 30" by (simp add: word_less_nat_alt)
    moreover define d2 where "d2 = d \<lparr> srqs := (srqs d)(srq := (srqs d srq) \<lparr> srq_free_recv_wqe_head := free,
        srq_recv_wqe_head := srq_recv_wqe_head (srqs d srq) @ [w \<lparr> rwqe_wr_id := rwr_wr_id wr,
          rwqe_sge_array := ?sges, rwqe_total_length := ucast (len + c) \<rparr>],
        srq_nr_recv_wqe := srq_nr_recv_wqe (srqs d srq) + 1 \<rparr>) \<rparr>"
    moreover have "post_srq_recv_loop srq len (wr # wrs) d = post_srq_recv_loop srq (len + c) wrs d2"
      using False n f by (simp add: Let_def c_def [symmetric] d2_def)
    ultimately show ?thesis
      using Cons.IH [of d2 "len + c"] Cons.prems f len
      by (simp add: pib_get_behavior_def add.assoc)
  qed
qed

text \<open>
  A chain of well-formed receive requests for which there are enough free entries is
  accepted iff the lengths of \<^emph>\<open>all its requests together\<close> stay within the largest payload of
  2^30 bytes: the limit that is meant for a single message is applied to the chain, because
  the running total is not reset from one request to the next.
\<close>

theorem post_srq_recv_limits_the_chain:
  assumes "\<not> pib_get_behavior d PIB_BEHAVIOR_ZERO_LEN_SGE_CONSIDER_AS_MAX_LEN" "wrs \<noteq> []"
    and "\<forall>wr \<in> set wrs. 1 \<le> rwr_num_sge wr \<and> rwr_num_sge wr \<le> int (unat (srq_max_sge (srqs d srq)))"
    and "length wrs \<le> length (srq_free_recv_wqe_head (srqs d srq))"
  shows "fst (pib_post_srq_recv srq wrs d) =
    (if (\<Sum>wr\<leftarrow>wrs. rwr_length wr) \<le> 2 ^ 30 then None else Some EMSGSIZE)"
  using assms post_srq_recv_loop_accepts [of d wrs srq 0] by (simp add: pib_post_srq_recv_def)

theorem post_srq_recv_limits_the_chain_witness:
  "fst (pib_post_srq_recv 5 [example_rwr 1 0x30000000] example_srq_dev) = None \<and>
   fst (pib_post_srq_recv 5 [example_rwr 1 0x30000000, example_rwr 2 0x30000000] example_srq_dev) = Some EMSGSIZE"
  using post_srq_recv_limits_the_chain [of example_srq_dev "[example_rwr 1 0x30000000]" 5]
    post_srq_recv_limits_the_chain
      [of example_srq_dev "[example_rwr 1 0x30000000, example_rwr 2 0x30000000]" 5]
  by (auto simp: example_srq_defs rwr_length_def rwr_key_def)

section \<open>Consuming\<close>

lemma get_srq_cases:
  assumes "pib_util_get_srq srq d = (w, d')"
  obtains (none) "w = None" "d' = d"
  | (taken) x rest where "w = Some x" "srq_recv_wqe_head (srqs d srq) = x # rest"
      "srq_state (srqs d srq) = PIB_STATE_OK"
      "\<not> (srq_srq_limit (srqs d srq) \<noteq> 0 \<and> \<not> issue_srq_limit (srqs d srq) \<and>
          srq_nr_recv_wqe (srqs d srq) - 1 < int (unat (srq_srq_limit (srqs d srq))))"
      "d' = d \<lparr> srqs := (srqs d)(srq := (srqs d srq) \<lparr> srq_recv_wqe_head := rest,
         srq_nr_recv_wqe := srq_nr_recv_wqe (srqs d srq) - 1 \<rparr>) \<rparr>"
  | (limit) x rest where "w = Some x" "srq_recv_wqe_head (srqs d srq) = x # rest"
      "srq_state (srqs d srq) = PIB_STATE_OK"
      "srq_srq_limit (srqs d srq) \<noteq> 0" "\<not> issue_srq_limit (srqs d srq)"
      "srq_nr_recv_wqe (srqs d srq) - 1 < int (unat (srq_srq_limit (srqs d srq)))"
      "d' = callback (Srq_event IB_EVENT_SRQ_LIMIT_REACHED srq)
        (d \<lparr> srqs := (srqs d)(srq := (srqs d srq) \<lparr> srq_recv_wqe_head := rest,
         srq_nr_recv_wqe := srq_nr_recv_wqe (srqs d srq) - 1, issue_srq_limit := True \<rparr>) \<rparr>)"
  using assms unfolding pib_util_get_srq_def Let_def
  by (auto split: if_split_asm list.splits)

text \<open>Taking up to \<open>n\<close> requests, and posting a single one.\<close>

fun srq_take :: "nat \<Rightarrow> nat \<Rightarrow> pib_dev \<Rightarrow> (u64 \<times> ib_sge list) list \<times> pib_dev" where
  "srq_take srq 0 d = ([], d)"
| "srq_take srq (Suc n) d =
    (case pib_util_get_srq srq d of
       (None, d) \<Rightarrow> ([], d)
     | (Some w, d) \<Rightarrow> (let (ws, d) = srq_take srq n d in (rwqe_key w # ws, d)))"

definition srq_put :: "nat \<Rightarrow> u64 \<times> ib_sge list \<Rightarrow> pib_dev \<Rightarrow> bool \<times> pib_dev" where
  "srq_put srq x d =
    (let (r, bad, d) = pib_post_srq_recv srq [\<lparr> rwr_wr_id = fst x,
           rwr_num_sge = int (length (snd x)), rwr_sg_list = snd x \<rparr>] d
     in (r = None, d))"

definition srq_contents :: "nat \<Rightarrow> pib_dev \<Rightarrow> (u64 \<times> ib_sge list) list" where
  "srq_contents srq d = map rwqe_key (srq_recv_wqe_head (srqs d srq))"

lemma srq_put_law:
  assumes "srq_inv srq d" "srq_put srq x d = (accepted, d')"
  shows "srq_inv srq d' \<and> srq_contents srq d' = srq_contents srq d @ (if accepted then [x] else [])"
proof -
  let ?wr = "\<lparr> rwr_wr_id = fst x, rwr_num_sge = int (length (snd x)), rwr_sg_list = snd x \<rparr>"
  obtain r bad where e: "post_srq_recv_loop srq 0 [?wr] d = (r, bad, d')" "accepted = (r = None)"
    using assms(2) by (auto simp: srq_put_def pib_post_srq_recv_def split: prod.splits)
  from post_srq_recv_loop_posted [OF e(1)] obtain ok where
    p: "[?wr] = ok @ bad" "srq_contents srq d' = srq_contents srq d @ map rwr_key ok"
      "srq_nr_recv_wqe (srqs d' srq) = srq_nr_recv_wqe (srqs d srq) + int (length ok)"
      "r = None \<longleftrightarrow> bad = []"
    unfolding srq_posted_def srq_contents_def by blast
  moreover from p(2) have "length (srq_recv_wqe_head (srqs d' srq)) =
      length (srq_recv_wqe_head (srqs d srq)) + length ok"
    by (metis srq_contents_def length_append length_map)
  moreover have "rwr_key ?wr = x" by (simp add: rwr_key_def)
  ultimately show ?thesis
    using assms(1) e(2) by (cases ok) (auto simp: srq_inv_def)
qed

lemma srq_take_law:
  assumes "srq_inv srq d" "srq_take srq n d = (xs, d')"
  shows "srq_inv srq d' \<and> srq_contents srq d = xs @ srq_contents srq d' \<and> length xs \<le> n"
  using assms
proof (induction n arbitrary: d xs d')
  case (Suc n)
  obtain w d1 where g: "pib_util_get_srq srq d = (w, d1)" by force
  then show ?case
  proof (cases rule: get_srq_cases)
    case none
    with Suc.prems g show ?thesis by simp
  next
    case (taken x rest)
    obtain ys d2 where t: "srq_take srq n d1 = (ys, d2)" by force
    have "srq_inv srq d1" using Suc.prems(1) taken by (simp add: srq_inv_def)
    from Suc.IH [OF this t] Suc.prems(2) g t taken show ?thesis by (auto simp: srq_contents_def)
  next
    case (limit x rest)
    obtain ys d2 where t: "srq_take srq n d1 = (ys, d2)" by force
    have "srq_inv srq d1" using Suc.prems(1) limit by (simp add: srq_inv_def callback_def)
    from Suc.IH [OF this t] Suc.prems(2) g t limit show ?thesis
      by (auto simp: srq_contents_def callback_def)
  qed
qed simp

interpretation srqfifo: fifo_queue "srq_inv srq" "srq_contents srq" "\<lambda>x. x" "srq_put srq" "srq_take srq"
  for srq
  using srq_put_law srq_take_law by unfold_locales blast+



section \<open>The limit event\<close>

text \<open>Posts and takes in any order; the limit of the queue is not re-armed.\<close>

datatype srq_op = Srq_post "ib_recv_wr list" | Srq_get

fun srq_step :: "nat \<Rightarrow> srq_op \<Rightarrow> pib_dev \<Rightarrow> pib_dev" where
  "srq_step srq (Srq_post wrs) d = snd (snd (pib_post_srq_recv srq wrs d))"
| "srq_step srq Srq_get d = snd (pib_util_get_srq srq d)"

definition limit_events :: "nat \<Rightarrow> pib_dev \<Rightarrow> nat" where
  "limit_events srq d = count_list (callbacks d) (Srq_event IB_EVENT_SRQ_LIMIT_REACHED srq)"

lemma srq_step_limit:
  "limit_events srq (srq_step srq op d) + (if issue_srq_limit (srqs d srq) then 1 else 0) =
   limit_events srq d + (if issue_srq_limit (srqs (srq_step srq op d) srq) then 1 else 0) \<and>
   (issue_srq_limit (srqs d srq) \<longrightarrow> issue_srq_limit (srqs (srq_step srq op d) srq))"
proof (cases op)
  case (Srq_post wrs)
  obtain r bad d' where e: "pib_post_srq_recv srq wrs d = (r, bad, d')" by (metis prod_cases3)
  then show ?thesis
    using Srq_post post_srq_recv_loop_frame [of srq 0 wrs d r bad d']
    by (simp add: pib_post_srq_recv_def limit_events_def split: if_splits)
next
  case Srq_get
  obtain w d' where e: "pib_util_get_srq srq d = (w, d')" by force
  then show ?thesis
    by (cases rule: get_srq_cases) (use Srq_get e in \<open>simp_all add: limit_events_def callback_def\<close>)
qed

text \<open>
  C37. However requests are posted and consumed, a shared receive queue raises the event
  \<^verbatim>\<open>IB_EVENT_SRQ_LIMIT_REACHED\<close> at most once until the limit is set again with
  \<^verbatim>\<open>pib_modify_srq\<close>: the number of events and the flag \<^verbatim>\<open>issue_srq_limit\<close> go up together.
\<close>

theorem srq_limit_event_once:
  "limit_events srq (fold (srq_step srq) ops d) + (if issue_srq_limit (srqs d srq) then 1 else 0) =
   limit_events srq d + (if issue_srq_limit (srqs (fold (srq_step srq) ops d) srq) then 1 else 0)"
proof (induction ops arbitrary: d)
  case (Cons op ops)
  from Cons.IH [of "srq_step srq op d"] srq_step_limit [of srq op d] show ?case by simp
qed simp
end
