(* ===== verification/Pib_Sched.thy ===== *)
theory Pib_Sched
  imports Pib_State
begin

text \<open>
  The red-black trees of the kernel as the driver uses them, and on top of them the queue
  pair scheduler of \<^verbatim>\<open>driver/pib_thread.c\<close> and the table of queue pair numbers of
  \<^verbatim>\<open>driver/pib_qp.c\<close>.

  The driver walks down a tree itself, with its own comparison, and leaves rebalancing to
  \<^verbatim>\<open>rb_insert_color\<close> and \<^verbatim>\<open>rb_erase\<close>.  Rebalancing keeps the in-order sequence of the nodes,
  and neither \<^verbatim>\<open>rb_first\<close> nor the driver's descents depend on anything else, so the model
  links at the leaf that the descent reaches and does not rebalance.

  Shown here: the number table is a map (locale \<open>number_table\<close>), and the scheduler always
  offers the queue pair that is due first, ties in the order of scheduling.
\<close>

section \<open>The kernel's trees\<close>

text \<open>
  \<open>rb_link cond x t\<close>: descend with the comparison \<open>cond\<close> (whether to go to the left child of
  a node) and link \<open>x\<close> where the path ends.
\<close>

fun rb_link :: "('a \<Rightarrow> bool) \<Rightarrow> 'a \<Rightarrow> 'a tree \<Rightarrow> 'a tree" where
  "rb_link cond x Leaf = Node Leaf x Leaf"
| "rb_link cond x (Node l y r) =
    (if cond y then Node (rb_link cond x l) y r else Node l y (rb_link cond x r))"

fun rb_first :: "'a tree \<Rightarrow> 'a option" where
  "rb_first Leaf = None"
| "rb_first (Node Leaf x r) = Some x"
| "rb_first (Node (Node l y m) x r) = rb_first (Node l y m)"

fun rb_split_first :: "'a tree \<Rightarrow> 'a \<Rightarrow> 'a tree \<Rightarrow> 'a \<times> 'a tree" where
  "rb_split_first Leaf x r = (x, r)"
| "rb_split_first (Node l y m) x r = (let (z, l) = rb_split_first l y m in (z, Node l x r))"

text \<open>
  \<^verbatim>\<open>rb_erase\<close> of the node for which \<open>is_node\<close> holds: with two children its successor takes its
  place.
\<close>

fun rb_join :: "'a tree \<Rightarrow> 'a tree \<Rightarrow> 'a tree" where
  "rb_join l Leaf = l"
| "rb_join l (Node m x r) = (case l of Leaf \<Rightarrow> Node m x r
     | _ \<Rightarrow> (let (z, r) = rb_split_first m x r in Node l z r))"

fun rb_erase :: "('a \<Rightarrow> bool) \<Rightarrow> 'a tree \<Rightarrow> 'a tree" where
  "rb_erase is_node Leaf = Leaf"
| "rb_erase is_node (Node l x r) =
    (if is_node x then rb_join (rb_erase is_node l) (rb_erase is_node r)
     else Node (rb_erase is_node l) x (rb_erase is_node r))"

lemma rb_split_first_inorder:
  "rb_split_first l x r = (z, t) \<Longrightarrow> z # inorder t = inorder l @ x # inorder r"
  by (induction l x r arbitrary: z t rule: rb_split_first.induct) (auto split: prod.splits)

lemma rb_join_inorder [simp]: "inorder (rb_join l r) = inorder l @ inorder r"
  by (cases "(l, r)" rule: rb_join.cases)
    (auto split: tree.splits prod.splits dest: rb_split_first_inorder)

lemma rb_erase_inorder [simp]: "inorder (rb_erase P t) = filter (\<lambda>x. \<not> P x) (inorder t)"
  by (induction t) auto

lemma rb_first_inorder: "rb_first t = (case inorder t of [] \<Rightarrow> None | x # _ \<Rightarrow> Some x)"
proof (induction t rule: rb_first.induct)
  case (3 l y m x r)
  then show ?case by (cases "inorder l") auto
qed auto

lemma rb_link_set [simp]: "set_tree (rb_link cond x t) = insert x (set_tree t)"
  by (induction t) auto

lemma rb_erase_set [simp]: "set_tree (rb_erase P t) = {x \<in> set_tree t. \<not> P x}"
  by (metis rb_erase_inorder set_filter set_inorder)

text \<open>
  Descending with a comparison that agrees with an order of the nodes keeps them sorted:
  \<open>x\<close> comes after the nodes of which it goes right, and before the others.
\<close>

lemma rb_link_sorted:
  assumes "transp R" "sorted_wrt R (inorder t)"
    and "\<And>y. y \<in> set_tree t \<Longrightarrow> cond y \<Longrightarrow> R x y"
    and "\<And>y. y \<in> set_tree t \<Longrightarrow> \<not> cond y \<Longrightarrow> R y x"
  shows "sorted_wrt R (inorder (rb_link cond x t))"
  using assms(2-)
proof (induction t)
  case (Node l y r)
  have "set (inorder (rb_link cond x u)) = insert x (set_tree u)" for u
    by (simp only: set_inorder rb_link_set)
  with Node show ?case
    by (auto simp: sorted_wrt_append intro: transpD [OF assms(1)])
qed simp

section \<open>The table of queue pair numbers\<close>

text \<open>
  What the rest of the driver relies on: a finite map from numbers to queue pairs.
\<close>

locale number_table =
  fixes inv :: "'t \<Rightarrow> bool"
    and find :: "'t \<Rightarrow> 'k \<Rightarrow> 'v option"
    and insert :: "'k \<Rightarrow> 'v \<Rightarrow> 't \<Rightarrow> 't"
    and erase :: "'v \<Rightarrow> 't \<Rightarrow> 't"
    and valid :: "'k \<Rightarrow> bool"
  assumes insert_inv: "inv t \<Longrightarrow> valid k \<Longrightarrow> find t k = None \<Longrightarrow> inv (insert k v t)"
    and find_insert: "inv t \<Longrightarrow> valid k \<Longrightarrow> find t k = None \<Longrightarrow> valid k' \<Longrightarrow>
      find (insert k v t) k' = (if k' = k then Some v else find t k')"
    and erase_inv: "inv t \<Longrightarrow> inv (erase v t)"
    and find_erase: "inv t \<Longrightarrow> valid k' \<Longrightarrow>
      find (erase v t) k' = (if find t k' = Some v then None else find t k')"
begin

lemma erase_insert:
  assumes "inv t" "valid k" "find t k = None" "valid k'" "\<And>k'. valid k' \<Longrightarrow> find t k' \<noteq> Some v"
  shows "find (erase v (insert k v t)) k' = find t k'"
  using assms by (auto simp: find_erase insert_inv find_insert)

end

text \<open>\<^verbatim>\<open>pib_util_find_qp\<close>: the difference of the two numbers is taken in \<^verbatim>\<open>int\<close>.\<close>

fun find_qp_node :: "(u32 \<times> nat) tree \<Rightarrow> u32 \<Rightarrow> nat option" where
  "find_qp_node Leaf num = None"
| "find_qp_node (Node l (n, qp) r) num =
    (let ret = sint (n - num) in
     if ret > 0 then find_qp_node l num
     else if ret < 0 then find_qp_node r num
     else Some qp)"

definition pib_util_find_qp :: "pib_dev \<Rightarrow> u32 \<Rightarrow> nat option" where
  "pib_util_find_qp d num = find_qp_node (qp_table d) num"

definition insert_qp :: "u32 \<Rightarrow> nat \<Rightarrow> (u32 \<times> nat) tree \<Rightarrow> (u32 \<times> nat) tree" where
  "insert_qp num qp t = rb_link (\<lambda>(n, _). n > num) (num, qp) t"

definition erase_qp :: "nat \<Rightarrow> (u32 \<times> nat) tree \<Rightarrow> (u32 \<times> nat) tree" where
  "erase_qp qp t = rb_erase (\<lambda>(_, p). p = qp) t"

text \<open>Queue pair numbers have 24 bits; the tree is sorted by them.\<close>

definition qp_table_inv :: "(u32 \<times> nat) tree \<Rightarrow> bool" where
  "qp_table_inv t \<longleftrightarrow> sorted_wrt (\<lambda>x y. fst x < fst y) (inorder t) \<and>
     (\<forall>x \<in> set_tree t. fst x < 0x1000000)"

lemma sint_diff_24:
  assumes "a < 0x1000000" "b < (0x1000000 :: u32)"
  shows "sint (a - b) = uint a - uint b"
proof -
  have "uint a < 0x1000000" "uint b < 0x1000000"
    using assms by (simp_all add: word_less_def)
  moreover have "0 \<le> uint a" "0 \<le> uint b" by simp_all
  ultimately have "(uint a - uint b + 2147483648) mod 4294967296 = uint a - uint b + 2147483648"
    by (intro mod_pos_pos_trivial) linarith+
  then show ?thesis
    by (simp add: sint_uint uint_word_ariths signed_take_bit_eq_take_bit_shift take_bit_eq_mod mod_add_left_eq)
qed

lemma find_qp_node_spec:
  assumes "qp_table_inv t" "k < 0x1000000"
  shows "find_qp_node t k = Some qp \<longleftrightarrow> (k, qp) \<in> set_tree t"
  using assms
proof (induction t k rule: find_qp_node.induct)
  case (2 l n p r k)
  from "2.prems" have inv: "qp_table_inv l" "qp_table_inv r"
    and n: "n < 0x1000000" and s: "\<And>x. x \<in> set_tree l \<Longrightarrow> fst x < n" "\<And>x. x \<in> set_tree r \<Longrightarrow> n < fst x"
    by (auto simp: qp_table_inv_def sorted_wrt_append)
  have d: "sint (n - k) = uint n - uint k"
    using n "2.prems"(2) by (rule sint_diff_24)
  consider "k < n" | "n < k" | "k = n" by (meson linorder_neqE)
  then show ?case
  proof cases
    case 1
    then have "sint (n - k) > 0" by (simp add: d word_less_def)
    with 1 "2.IH"(1) [OF refl] inv "2.prems"(2) s(2) [of "(k, qp)"] show ?thesis by auto
  next
    case 2
    then have "sint (n - k) < 0" by (simp add: d word_less_def)
    with 2 "2.IH"(2) [OF refl] inv "2.prems"(2) s(1) [of "(k, qp)"] show ?thesis by auto
  next
    case 3
    with s(1) [of "(k, qp)"] s(2) [of "(k, qp)"] show ?thesis by auto
  qed
qed simp

lemma qp_table_functional:
  assumes "qp_table_inv t" "(k, p) \<in> set_tree t" "(k, q) \<in> set_tree t"
  shows "p = q"
  using assms find_qp_node_spec [of t k] unfolding qp_table_inv_def by (metis fst_conv option.inject)

interpretation qptable: number_table qp_table_inv find_qp_node insert_qp erase_qp "\<lambda>k. k < 0x1000000"
proof
  fix t k v
  assume a: "qp_table_inv t" "k < 0x1000000" "find_qp_node t k = None"
  have out: "(k, p) \<notin> set_tree t" for p
    using find_qp_node_spec [OF a(1,2), of p] a(3) by simp
  show inv: "qp_table_inv (insert_qp k v t)"
    unfolding qp_table_inv_def insert_qp_def
  proof
    show "sorted_wrt (\<lambda>x y. fst x < fst y) (inorder (rb_link (\<lambda>(n, _). k < n) (k, v) t))"
      using a(1) out by (intro rb_link_sorted) (auto simp: qp_table_inv_def not_less le_less transp_def)
  qed (use a in \<open>auto simp: qp_table_inv_def\<close>)
  fix k' :: u32
  assume k': "k' < 0x1000000"
  have "find_qp_node (insert_qp k v t) k' = Some q \<longleftrightarrow> (if k' = k then q = v else find_qp_node t k' = Some q)" for q
    using find_qp_node_spec [OF inv k', of q] find_qp_node_spec [OF a(1) k', of q] out
    by (auto simp: insert_qp_def)
  then show "find_qp_node (insert_qp k v t) k' = (if k' = k then Some v else find_qp_node t k')"
    by (metis not_Some_eq)
next
  fix t v
  assume a: "qp_table_inv t"
  show inv: "qp_table_inv (erase_qp v t)"
    using a by (auto simp: qp_table_inv_def erase_qp_def sorted_wrt_filter)
  fix k' :: u32
  assume k': "k' < 0x1000000"
  have "find_qp_node (erase_qp v t) k' = Some q \<longleftrightarrow> find_qp_node t k' = Some q \<and> q \<noteq> v" for q
    using find_qp_node_spec [OF inv k', of q] find_qp_node_spec [OF a k', of q]
    by (auto simp: erase_qp_def)
  then show "find_qp_node (erase_qp v t) k' = (if find_qp_node t k' = Some v then None else find_qp_node t k')"
    by (metis not_Some_eq)
qed

text \<open>
  The tree of queue pairs is a map from 24-bit numbers: a queue pair that is inserted
  under an unused number is found under it and nothing else changes, and erasing a queue
  pair makes its number, and only its number, unknown.
\<close>

theorem qp_table_is_map:
  assumes "qp_table_inv t" "k < 0x1000000" "find_qp_node t k = None" "k' < 0x1000000"
  shows "qp_table_inv (insert_qp k qp t) \<and> qp_table_inv (erase_qp p t) \<and>
    find_qp_node (insert_qp k qp t) k' = (if k' = k then Some qp else find_qp_node t k') \<and>
    find_qp_node (erase_qp p t) k' = (if find_qp_node t k' = Some p then None else find_qp_node t k')"
  using assms qptable.insert_inv qptable.find_insert qptable.erase_inv qptable.find_erase by simp

theorem qp_table_is_map_witness:
  "find_qp_node (insert_qp 7 1 (insert_qp 9 2 Leaf)) 9 = Some 2 \<and>
   find_qp_node (erase_qp 2 (insert_qp 9 2 Leaf)) 9 = None"
  using qp_table_is_map [of "insert_qp 9 2 Leaf" 7 9 1 2]
  by (simp add: insert_qp_def qp_table_inv_def)

section \<open>The queue pair scheduler\<close>

abbreviation (input) "PIB_MAX_CONTIG_REQUESTS \<equiv> (64 :: int)"
abbreviation (input) "PIB_MAX_CONTIG_READ_ACKS \<equiv> (64 :: int)"

text \<open>
  The time at which a queue pair has something to do, as \<^verbatim>\<open>pib_util_reschedule_qp\<close> computes it:
  \<^verbatim>\<open>None\<close> for its two early returns.
\<close>

definition reschedule_time :: "u64 \<Rightarrow> pib_qp \<Rightarrow> u64 option" where
  "reschedule_time now qp =
    (let finish = (\<lambda>t. if t = now + PIB_SCHED_TIMEOUT then None else Some t);
         rq = requester qp
     in if qp_type qp = IB_QPT_RC \<and> pib_is_recv_ok (qp_state qp) \<and>
           ack_head (responder qp) \<noteq> [] \<and>
           rsp_nr_contig_read_acks (responder qp) < PIB_MAX_CONTIG_READ_ACKS
        then finish now
        else if qp_state qp \<noteq> IB_QPS_RTS \<and> qp_state qp \<noteq> IB_QPS_SQD then None
        else
          let t = now + PIB_SCHED_TIMEOUT;
              t = (case waiting_swqe_head rq of [] \<Rightarrow> t
                   | w # _ \<Rightarrow> if time_before (local_ack_time (processing w)) t
                             then local_ack_time (processing w) else t);
              submitted = (\<lambda>t. case submitted_swqe_head rq of
                  [] \<Rightarrow> finish t
                | w # _ \<Rightarrow>
                  if qp_state qp \<noteq> IB_QPS_RTS then finish t
                  else if pib_is_wr_opcode_rd_atomic (swqe_opcode w) \<and>
                          int (unat (req_max_rd_atomic rq)) \<le> req_nr_rd_atomic rq
                  then finish t else finish now)
          in (case sending_swqe_head rq of
                [] \<Rightarrow> submitted t
              | w # _ \<Rightarrow>
                if pr_status (processing w) \<noteq> IB_WC_SUCCESS \<and> waiting_swqe_head rq \<noteq> [] then finish t
                else if PIB_MAX_CONTIG_REQUESTS < nr_contig_requests rq then finish t
                else submitted (if time_before (schedule_time (processing w)) t
                                then schedule_time (processing w) else t)))"

text \<open>The comparison of the descent, and the tree operations on the scheduler's tree.\<close>

definition sched_cond :: "u64 \<Rightarrow> u64 \<Rightarrow> sched_node \<Rightarrow> bool" where
  "sched_cond time tid = (\<lambda>(time', tid', _).
     if time' \<noteq> time then time_after time' time else sint (tid' - tid) > 0)"

definition sched_link :: "sched_node \<Rightarrow> sched_node tree \<Rightarrow> sched_node tree" where
  "sched_link = (\<lambda>(time, tid, qp) t. rb_link (sched_cond time tid) (time, tid, qp) t)"

definition sched_erase :: "nat \<Rightarrow> sched_node tree \<Rightarrow> sched_node tree" where
  "sched_erase qp t = rb_erase (\<lambda>(_, _, p). p = qp) t"

definition pib_util_reschedule_qp :: "pib_dev \<times> pib_qp \<Rightarrow> pib_dev \<times> pib_qp" where
  "pib_util_reschedule_qp = (\<lambda>(d, qp).
    let d = (if sched_on qp then d \<lparr> sched_root := sched_erase (qp_ptr qp) (sched_root d) \<rparr> else d);
        qp = qp \<lparr> sched_on := False \<rparr>;
        now = jiffies d
    in case reschedule_time now qp of
         None \<Rightarrow> (d, qp)
       | Some t \<Rightarrow>
         (let qp = qp \<lparr> sched_time := t, sched_tid := master_tid d, sched_on := True \<rparr>;
              d = d \<lparr> master_tid := master_tid d + 1,
                     sched_root := sched_link (t, sched_tid qp, qp_ptr qp) (sched_root d) \<rparr>;
              d = d \<lparr> wakeup_time := (case rb_first (sched_root d) of
                          Some (time, _, _) \<Rightarrow> time | None \<Rightarrow> wakeup_time d) \<rparr>
          in (if time_before_eq (wakeup_time d) now
              then d \<lparr> thread := (thread d) \<lparr> thread_qp_schedule := True \<rparr> \<rparr> else d, qp)))"

definition pib_util_get_first_scheduling_qp :: "pib_dev \<Rightarrow> nat option" where
  "pib_util_get_first_scheduling_qp d = map_option (\<lambda>(_, _, qp). qp) (rb_first (sched_root d))"

text \<open>
  Times and serial numbers wrap around; they are compared by the sign of their difference,
  which is an order as long as all of them lie within half of the range.
\<close>

definition sched_key :: "u64 \<Rightarrow> u64 \<Rightarrow> sched_node \<Rightarrow> nat \<times> nat" where
  "sched_key t0 i0 = (\<lambda>(time, tid, _). (unat (time - t0), unat (tid - i0)))"

definition key_less :: "nat \<times> nat \<Rightarrow> nat \<times> nat \<Rightarrow> bool" where
  "key_less = (\<lambda>(a, b) (c, d). a < c \<or> a = c \<and> b < d)"

definition sched_inv :: "u64 \<Rightarrow> u64 \<Rightarrow> sched_node tree \<Rightarrow> bool" where
  "sched_inv t0 i0 t \<longleftrightarrow>
    sorted_wrt (\<lambda>x y. key_less (sched_key t0 i0 x) (sched_key t0 i0 y)) (inorder t) \<and>
    (\<forall>(time, tid, _) \<in> set_tree t. unat (time - t0) < 2 ^ 63 \<and> unat (tid - i0) < 2 ^ 63)"

lemma sint_of_small_diff:
  assumes "m < 2 ^ 63" "n < (2 ^ 63 :: nat)"
  shows "sint (word_of_int (int m - int n) :: u64) = int m - int n"
proof -
  have "(int m - int n + 2 ^ 63) mod 2 ^ 64 = int m - int n + 2 ^ 63"
    using assms by (intro mod_pos_pos_trivial) simp_all
  then show ?thesis
    by (simp only: int_word_sint) simp
qed

lemma sint_diff_window:
  fixes a b c :: u64
  assumes "unat (a - c) < 2 ^ 63" "unat (b - c) < 2 ^ 63"
  shows "0 < sint (a - b) \<longleftrightarrow> unat (b - c) < unat (a - c)"
    and "sint (a - b) < 0 \<longleftrightarrow> unat (a - c) < unat (b - c)"
proof -
  have "a - b = word_of_int (int (unat (a - c)) - int (unat (b - c)))" by simp
  then have "sint (a - b) = int (unat (a - c)) - int (unat (b - c))"
    using sint_of_small_diff [OF assms] by (simp only:)
  then show "0 < sint (a - b) \<longleftrightarrow> unat (b - c) < unat (a - c)"
    "sint (a - b) < 0 \<longleftrightarrow> unat (a - c) < unat (b - c)" by linarith+
qed

lemma sched_cond_key:
  assumes "unat (time' - t0) < 2 ^ 63" "unat (time - t0) < 2 ^ 63"
    and "unat (tid' - i0) < 2 ^ 63" "unat (tid - i0) < 2 ^ 63"
  shows "sched_cond time tid (time', tid', p) \<longleftrightarrow>
    key_less (sched_key t0 i0 (time, tid, q)) (sched_key t0 i0 (time', tid', p))"
proof -
  have "time' = time \<longleftrightarrow> unat (time' - t0) = unat (time - t0)"
    by (metis diff_add_cancel word_unat_eq_iff)
  then show ?thesis
    using sint_diff_window(2) [OF assms(2,1)] sint_diff_window(1) [OF assms(3,4)]
    by (auto simp: sched_cond_def sched_key_def key_less_def time_after_def)
qed

lemma transp_sched: "transp (\<lambda>x y. key_less (sched_key t0 i0 x) (sched_key t0 i0 y))"
  by (auto simp: transp_def key_less_def split: prod.splits)

lemma sched_link_inv:
  assumes inv: "sched_inv t0 i0 t" and new: "unat (time - t0) < 2 ^ 63" "unat (tid - i0) < 2 ^ 63"
    and fresh: "\<And>time' p. (time', tid, p) \<notin> set_tree t"
  shows "sched_inv t0 i0 (sched_link (time, tid, qp) t)"
proof -
  have "sorted_wrt (\<lambda>x y. key_less (sched_key t0 i0 x) (sched_key t0 i0 y))
      (inorder (rb_link (sched_cond time tid) (time, tid, qp) t))"
  proof (rule rb_link_sorted [OF transp_sched])
    show "sorted_wrt (\<lambda>x y. key_less (sched_key t0 i0 x) (sched_key t0 i0 y)) (inorder t)"
      using inv by (simp add: sched_inv_def)
  next
    fix y
    assume y: "y \<in> set_tree t" "sched_cond time tid y"
    obtain time' tid' p where e: "y = (time', tid', p)" by (metis prod_cases3)
    with inv y new show "key_less (sched_key t0 i0 (time, tid, qp)) (sched_key t0 i0 y)"
      using sched_cond_key [of time' t0 time tid' i0 tid p qp] by (auto simp: sched_inv_def)
  next
    fix y
    assume y: "y \<in> set_tree t" "\<not> sched_cond time tid y"
    obtain time' tid' p where e: "y = (time', tid', p)" by (metis prod_cases3)
    have "tid' \<noteq> tid" using fresh y(1) e by blast
    then have "unat (tid' - i0) \<noteq> unat (tid - i0)"
      by (metis diff_add_cancel word_unat_eq_iff)
    moreover have "unat (time' - t0) < 2 ^ 63" "unat (tid' - i0) < 2 ^ 63"
      using inv y(1) e by (auto simp: sched_inv_def)
    ultimately show "key_less (sched_key t0 i0 y) (sched_key t0 i0 (time, tid, qp))"
      using sched_cond_key [of time' t0 time tid' i0 tid p qp] new y(2) e
      by (auto simp: sched_key_def key_less_def)
  qed
  with inv new show ?thesis by (auto simp: sched_inv_def sched_link_def)
qed

lemma sched_erase_inv:
  "sched_inv t0 i0 t \<Longrightarrow> sched_inv t0 i0 (sched_erase p t)"
  by (auto simp: sched_inv_def sched_erase_def sorted_wrt_filter)

lemma rb_first_is_earliest:
  assumes "sched_inv t0 i0 t" "n \<in> set_tree t"
  shows "\<exists>m. rb_first t = Some m \<and> m \<in> set_tree t \<and>
    (m = n \<or> key_less (sched_key t0 i0 m) (sched_key t0 i0 n))"
proof -
  from assms(2) obtain m rest where i: "inorder t = m # rest"
    by (cases "inorder t") (simp_all flip: set_inorder)
  with assms show ?thesis
    by (auto simp: rb_first_inorder sched_inv_def simp flip: set_inorder)
qed

text \<open>What rescheduling does to the tree.\<close>

lemma reschedule_qp_cases:
  assumes "pib_util_reschedule_qp (d, qp) = (d', qp')"
  obtains (idle) "reschedule_time (jiffies d) qp = None" "\<not> sched_on qp'"
      "sched_root d' = (if sched_on qp then sched_erase (qp_ptr qp) (sched_root d) else sched_root d)"
  | (due) t where "reschedule_time (jiffies d) qp = Some t" "sched_on qp'"
      "sched_root d' = sched_link (t, master_tid d, qp_ptr qp)
        (if sched_on qp then sched_erase (qp_ptr qp) (sched_root d) else sched_root d)"
proof -
  have "reschedule_time now (qp \<lparr> sched_on := b \<rparr>) = reschedule_time now qp" for now b
    by (simp add: reschedule_time_def Let_def cong: if_cong list.case_cong)
  with assms show thesis
    by (cases "reschedule_time (jiffies d) qp")
      (auto simp: pib_util_reschedule_qp_def Let_def split: if_splits intro: idle due)
qed

text \<open>
  C16. Rescheduling a queue pair keeps the scheduler's tree in order, and puts the queue pair
  on it exactly when it has something to do.  Whenever a queue pair is on the tree, the one
  that is offered next is due no later than it and, if both are due at the same time, was not
  scheduled after it.  Times and serial numbers wrap; the statement holds for any window of
  half their range.
\<close>

theorem scheduler_earliest_first:
  assumes "pib_util_reschedule_qp (d, qp) = (d', qp')" "sched_inv t0 i0 (sched_root d)"
    and "\<And>time tid p. (time, tid, p) \<in> set_tree (sched_root d) \<Longrightarrow> tid \<noteq> master_tid d"
    and "sched_on qp \<longleftrightarrow> (\<exists>time tid. (time, tid, qp_ptr qp) \<in> set_tree (sched_root d))"
    and "unat (master_tid d - i0) < 2 ^ 63"
    and "\<And>t. reschedule_time (jiffies d) qp = Some t \<Longrightarrow> unat (t - t0) < 2 ^ 63"
  shows "sched_inv t0 i0 (sched_root d') \<and>
    (sched_on qp' \<longleftrightarrow> reschedule_time (jiffies d) qp \<noteq> None) \<and>
    (sched_on qp' \<longleftrightarrow> (\<exists>time tid. (time, tid, qp_ptr qp) \<in> set_tree (sched_root d'))) \<and>
    (\<forall>time tid p. (time, tid, p) \<in> set_tree (sched_root d') \<longrightarrow>
      (\<exists>first time' tid'. pib_util_get_first_scheduling_qp d' = Some first \<and>
        (time', tid', first) \<in> set_tree (sched_root d') \<and>
        (unat (time' - t0) < unat (time - t0) \<or>
         unat (time' - t0) = unat (time - t0) \<and> unat (tid' - i0) \<le> unat (tid - i0))))"
proof -
  define root where "root = (if sched_on qp then sched_erase (qp_ptr qp) (sched_root d) else sched_root d)"
  have inv: "sched_inv t0 i0 root"
    using assms(2) by (simp add: root_def sched_erase_inv)
  have mem: "n \<in> set_tree root \<longleftrightarrow> n \<in> set_tree (sched_root d) \<and> snd (snd n) \<noteq> qp_ptr qp" for n
    using assms(4) by (cases n) (auto simp: root_def sched_erase_def)
  have earliest: "\<exists>first time' tid'. pib_util_get_first_scheduling_qp d' = Some first \<and>
        (time', tid', first) \<in> set_tree (sched_root d') \<and>
        (unat (time' - t0) < unat (time - t0) \<or>
         unat (time' - t0) = unat (time - t0) \<and> unat (tid' - i0) \<le> unat (tid - i0))"
    if "sched_inv t0 i0 (sched_root d')" "(time, tid, p) \<in> set_tree (sched_root d')" for time tid p
    using rb_first_is_earliest [OF that]
    by (force simp: pib_util_get_first_scheduling_qp_def sched_key_def key_less_def)
  from assms(1) show ?thesis
  proof (cases rule: reschedule_qp_cases)
    case idle
    then have "sched_root d' = root" by (simp add: root_def)
    with idle inv mem earliest show ?thesis by auto
  next
    case (due t)
    have "sched_inv t0 i0 (sched_link (t, master_tid d, qp_ptr qp) root)"
      using inv assms(3,5) assms(6) [OF due(1)] mem by (intro sched_link_inv) auto
    moreover have "sched_root d' = sched_link (t, master_tid d, qp_ptr qp) root"
      using due by (simp add: root_def)
    ultimately show ?thesis
      using due(1,2) earliest by (auto simp: sched_link_def)
  qed
qed

theorem scheduler_earliest_first_witness:
  "pib_util_get_first_scheduling_qp (fst (pib_util_reschedule_qp
     (blank_dev \<lparr> jiffies := 100, master_tid := 8, sched_root := Node Leaf (90, 7, 3) Leaf \<rparr>,
      zero_qp \<lparr> qp_ptr := 4, qp_state := IB_QPS_RTS,
        requester := zero_requester \<lparr> submitted_swqe_head := [zero_swqe] \<rparr> \<rparr>))) = Some 3"
proof -
  let ?d = "blank_dev \<lparr> jiffies := 100, master_tid := 8, sched_root := Node Leaf (90, 7, 3) Leaf \<rparr>"
  let ?qp = "zero_qp \<lparr> qp_ptr := 4, qp_state := IB_QPS_RTS,
        requester := zero_requester \<lparr> submitted_swqe_head := [zero_swqe] \<rparr> \<rparr>"
  obtain d' qp' where e: "pib_util_reschedule_qp (?d, ?qp) = (d', qp')" by fastforce
  have t: "reschedule_time (jiffies ?d) ?qp = Some 100"
    by (simp add: reschedule_time_def zero_qp_def zero_requester_def zero_responder_def zero_swqe_def)
  have "sched_root d' = Node Leaf (90, 7, 3) (Node Leaf (100, 8, 4) Leaf)"
    using e t by (cases rule: reschedule_qp_cases)
      (auto simp: zero_qp_def sched_link_def sched_cond_def time_after_def)
  moreover from this have "(90, 7, 3) \<in> set_tree (sched_root d')" by simp
  ultimately show ?thesis
    using scheduler_earliest_first [OF e, of 0 0] t e
    by (force simp: sched_inv_def zero_qp_def)
qed
end
