(* ===== verification/Pib_Objects.thy ===== *)
theory Pib_Objects
  imports Pib_Objnum
begin

text \<open>
  The small objects of the verbs: protection domains (\<^verbatim>\<open>driver/pib_pd.c\<close>), address handles
  (\<^verbatim>\<open>driver/pib_ah.c\<close>), user contexts (\<^verbatim>\<open>driver/pib_ucontext.c\<close>), and the attachment of queue
  pairs to multicast groups (\<^verbatim>\<open>driver/pib_multicast.c\<close>).

  Shown here: allocating a protection domain is all or nothing and deallocation undoes it,
  and the two lists every multicast link is on stay in step.
\<close>

section \<open>Protection domains\<close>

definition pib_alloc_pd :: "pib_dev \<Rightarrow> (errno + nat) \<times> pib_dev" where
  "pib_alloc_pd d =
    (case kmem_alloc d of
       (False, d) \<Rightarrow> (Inl ENOMEM, d)
     | (True, d) \<Rightarrow>
       (let pd = next_ptr d; d = d \<lparr> next_ptr := Suc pd \<rparr> in
        case pib_alloc_obj_num PIB_BITMAP_PD_START PIB_MAX_PD
               (obj_num_bitmap d, last_num (pd_list d)) of
          (None, bm, l) \<Rightarrow> (Inl ENOMEM, d)
        | (Some num, bm, l) \<Rightarrow>
          (let d = d \<lparr> obj_num_bitmap := bm,
                 pd_list := \<lparr> last_num = l, nr_obj = nr_obj (pd_list d) + 1,
                              obj_head = obj_head (pd_list d) @ [pd] \<rparr>,
                 pds := (pds d)(pd := zero_pd \<lparr> pd_num := of_nat num \<rparr>) \<rparr>
           in case kmem_alloc d of
                (False, d) \<Rightarrow>
                  (Inl ENOMEM,
                   d \<lparr> pd_list := (pd_list d) \<lparr> nr_obj := nr_obj (pd_list d) - 1,
                         obj_head := remove1 pd (obj_head (pd_list d)) \<rparr>,
                      obj_num_bitmap := pib_dealloc_obj_num PIB_BITMAP_PD_START num (obj_num_bitmap d) \<rparr>)
              | (True, d) \<Rightarrow> (Inr pd, d))))"

definition pib_dealloc_pd :: "nat \<Rightarrow> pib_dev \<Rightarrow> pib_dev" where
  "pib_dealloc_pd pd d =
    d \<lparr> pd_list := (pd_list d) \<lparr> nr_obj := nr_obj (pd_list d) - 1,
                                  obj_head := remove1 pd (obj_head (pd_list d)) \<rparr>,
       obj_num_bitmap := pib_dealloc_obj_num PIB_BITMAP_PD_START (unat (pd_num (pds d pd)))
         (obj_num_bitmap d) \<rparr>"

section \<open>Address handles and user contexts\<close>

definition pib_create_ah :: "nat \<Rightarrow> ib_ah_attr \<Rightarrow> pib_dev \<Rightarrow> (errno + nat) \<times> pib_dev" where
  "pib_create_ah pd attr d =
    (case kmem_alloc d of
       (False, d) \<Rightarrow> (Inl ENOMEM, d)
     | (True, d) \<Rightarrow>
       (let ah = next_ptr d; d = d \<lparr> next_ptr := Suc ah \<rparr> in
        case pib_alloc_obj_num PIB_BITMAP_AH_START PIB_MAX_AH
               (obj_num_bitmap d, last_num (ah_list d)) of
          (None, bm, l) \<Rightarrow> (Inl ENOMEM, d)
        | (Some num, bm, l) \<Rightarrow>
          (Inr ah, d \<lparr> obj_num_bitmap := bm,
             ah_list := \<lparr> last_num = l, nr_obj = nr_obj (ah_list d) + 1,
                          obj_head = obj_head (ah_list d) @ [ah] \<rparr>,
             ahs := (ahs d)(ah := \<lparr> ah_pd = pd, ah_num = of_nat num, ib_ah_attr = attr \<rparr>) \<rparr>)))"

definition pib_modify_ah :: "nat \<Rightarrow> ib_ah_attr \<Rightarrow> pib_dev \<Rightarrow> pib_dev" where
  "pib_modify_ah ah attr d = d \<lparr> ahs := (ahs d)(ah := (ahs d ah) \<lparr> ib_ah_attr := attr \<rparr>) \<rparr>"

definition pib_query_ah :: "nat \<Rightarrow> pib_dev \<Rightarrow> ib_ah_attr" where
  "pib_query_ah ah d = ib_ah_attr (ahs d ah)"

definition pib_destroy_ah :: "nat \<Rightarrow> pib_dev \<Rightarrow> pib_dev" where
  "pib_destroy_ah ah d =
    d \<lparr> ah_list := (ah_list d) \<lparr> nr_obj := nr_obj (ah_list d) - 1,
                                  obj_head := remove1 ah (obj_head (ah_list d)) \<rparr>,
       obj_num_bitmap := pib_dealloc_obj_num PIB_BITMAP_AH_START (unat (ah_num (ahs d ah)))
         (obj_num_bitmap d) \<rparr>"

definition pib_alloc_ucontext :: "pib_dev \<Rightarrow> (errno + nat) \<times> pib_dev" where
  "pib_alloc_ucontext d =
    (case kmem_alloc d of
       (False, d) \<Rightarrow> (Inl ENOMEM, d)
     | (True, d) \<Rightarrow>
       (let uc = next_ptr d; d = d \<lparr> next_ptr := Suc uc \<rparr> in
        case pib_alloc_obj_num PIB_BITMAP_CONTEXT_START PIB_MAX_CONTEXT
               (obj_num_bitmap d, last_num (ucontext_list d)) of
          (None, bm, l) \<Rightarrow> (Inl ENOMEM, d)
        | (Some num, bm, l) \<Rightarrow>
          (Inr uc, d \<lparr> obj_num_bitmap := bm,
             ucontext_list := \<lparr> last_num = l, nr_obj = nr_obj (ucontext_list d) + 1,
                                obj_head = obj_head (ucontext_list d) @ [uc] \<rparr>,
             ucontexts := (ucontexts d)(uc := \<lparr> ucontext_num = of_nat num \<rparr>) \<rparr>)))"

definition pib_dealloc_ucontext :: "nat \<Rightarrow> pib_dev \<Rightarrow> pib_dev" where
  "pib_dealloc_ucontext uc d =
    d \<lparr> ucontext_list := (ucontext_list d) \<lparr> nr_obj := nr_obj (ucontext_list d) - 1,
                                  obj_head := remove1 uc (obj_head (ucontext_list d)) \<rparr>,
       obj_num_bitmap := pib_dealloc_obj_num PIB_BITMAP_CONTEXT_START
         (unat (ucontext_num (ucontexts d uc))) (obj_num_bitmap d) \<rparr>"

section \<open>Multicast\<close>

text \<open>
  A \<^verbatim>\<open>struct pib_mcast_link\<close> is on the list of its queue pair and on the list of its LID.
  On the former only the LID is used, on the latter the queue pair number; the entry of a
  LID's list also carries the queue pair, which tells the links of a list apart.
\<close>

abbreviation (input) "PIB_MCAST_QP_ATTACH \<equiv> (128 :: nat)"

definition pib_attach_mcast :: "u16 \<Rightarrow> pib_dev \<times> pib_qp \<Rightarrow> errno option \<times> pib_dev \<times> pib_qp" where
  "pib_attach_mcast lid = (\<lambda>(d, qp).
    if lid < PIB_MCAST_LID_BASE then (Some EINVAL, d, qp)
    else if lid \<in> set (mcast_head qp) then (None, d, qp)
    else if PIB_MCAST_QP_ATTACH < length (mcast_head qp) then (Some ENOMEM, d, qp)
    else (case kmem_alloc d of
        (False, d) \<Rightarrow> (Some ENOMEM, d, qp)
      | (True, d) \<Rightarrow>
        (None, d \<lparr> mcast_table := (mcast_table d)(lid := mcast_table d lid @ [(qp_ptr qp, qp_num qp)]) \<rparr>,
         qp \<lparr> mcast_head := mcast_head qp @ [lid] \<rparr>)))"

definition unlink_mcast :: "nat \<Rightarrow> u16 \<Rightarrow> pib_dev \<Rightarrow> pib_dev" where
  "unlink_mcast qp lid d = d \<lparr> mcast_table := (mcast_table d)(lid :=
     filter (\<lambda>(p, _). p \<noteq> qp) (mcast_table d lid)) \<rparr>"

definition pib_detach_mcast :: "u16 \<Rightarrow> pib_dev \<times> pib_qp \<Rightarrow> errno option \<times> pib_dev \<times> pib_qp" where
  "pib_detach_mcast lid = (\<lambda>(d, qp).
    if lid < PIB_MCAST_LID_BASE then (Some EINVAL, d, qp)
    else if lid \<in> set (mcast_head qp)
    then (None, unlink_mcast (qp_ptr qp) lid d, qp \<lparr> mcast_head := remove1 lid (mcast_head qp) \<rparr>)
    else (None, d, qp))"

definition pib_detach_all_mcast :: "pib_dev \<times> pib_qp \<Rightarrow> pib_dev \<times> pib_qp" where
  "pib_detach_all_mcast = (\<lambda>(d, qp).
    (fold (unlink_mcast (qp_ptr qp)) (mcast_head qp) d, qp \<lparr> mcast_head := [] \<rparr>))"

section \<open>Properties\<close>

lemma dealloc_alloc_obj_num:
  assumes "pib_alloc_obj_num start sz (bm, l) = (Some num, bm', l')" "sz \<le> 2 ^ 32"
  shows "pib_dealloc_obj_num start num bm' = bm" "unat (of_nat num :: u32) = num"
proof -
  from alloc_obj_num_Some [OF assms(1)]
  have n: "num < sz" "\<not> bm (start div 64 * 64 + num)" "bm' = bm(start div 64 * 64 + num := True)"
    by (auto simp: used_nums_def)
  then show "pib_dealloc_obj_num start num bm' = bm"
    by (auto simp: pib_dealloc_obj_num_def fun_eq_iff)
  from n(1) assms(2) show "unat (of_nat num :: u32) = num"
    by (simp add: unat_of_nat_small)
qed

text \<open>
  Allocating a protection domain either fails and leaves list, count and numbers of the
  device as they were, or gives a fresh domain without regions; deallocating that domain
  then restores list, count and numbers.
\<close>

theorem alloc_pd_then_dealloc:
  assumes "pib_alloc_pd d = (r, d')" "\<forall>p\<in>set (obj_head (pd_list d)). p < next_ptr d"
  shows "case r of
      Inl e \<Rightarrow> e = ENOMEM \<and> obj_num_bitmap d' = obj_num_bitmap d \<and>
        obj_head (pd_list d') = obj_head (pd_list d) \<and> nr_obj (pd_list d') = nr_obj (pd_list d)
    | Inr pd \<Rightarrow> pd \<notin> set (obj_head (pd_list d)) \<and> obj_head (pd_list d') = obj_head (pd_list d) @ [pd] \<and>
        nr_obj (pd_list d') = nr_obj (pd_list d) + 1 \<and>
        mr_table (pds d' pd) = (\<lambda>_. None) \<and> pd_nr_mr (pds d' pd) = 0 \<and>
        (let d'' = pib_dealloc_pd pd d' in obj_num_bitmap d'' = obj_num_bitmap d \<and>
           obj_head (pd_list d'') = obj_head (pd_list d) \<and> nr_obj (pd_list d'') = nr_obj (pd_list d))"
proof -
  have fresh: "next_ptr d \<notin> set (obj_head (pd_list d))" using assms(2) by auto
  obtain ok d1 where k1: "kmem_alloc d = (ok, d1)" by force
  then obtain bs where d1: "d1 = d \<lparr> kmem := bs \<rparr>" by (metis kmem_alloc_frame)
  obtain on bm l where a: "pib_alloc_obj_num PIB_BITMAP_PD_START PIB_MAX_PD
      (obj_num_bitmap d, last_num (pd_list d)) = (on, bm, l)" by (metis prod_cases3)
  show ?thesis
  proof (cases on)
    case None
    with assms(1) k1 d1 a show ?thesis by (cases ok) (auto simp: pib_alloc_pd_def)
  next
    case (Some num)
    have n: "pib_dealloc_obj_num PIB_BITMAP_PD_START num bm = obj_num_bitmap d"
        "unat (of_nat num :: u32) = num"
      using dealloc_alloc_obj_num [OF a [unfolded Some]] by simp_all
    define d2 where "d2 = d1 \<lparr> next_ptr := Suc (next_ptr d), obj_num_bitmap := bm,
      pd_list := \<lparr> last_num = l, nr_obj = nr_obj (pd_list d) + 1,
                   obj_head = obj_head (pd_list d) @ [next_ptr d] \<rparr>,
      pds := (pds d)(next_ptr d := zero_pd \<lparr> pd_num := of_nat num \<rparr>) \<rparr>"
    obtain ok' d3 where k2: "kmem_alloc d2 = (ok', d3)" by force
    then obtain bs' where d3: "d3 = d2 \<lparr> kmem := bs' \<rparr>" by (metis kmem_alloc_frame)
    show ?thesis
    proof (cases ok)
      case False
      with assms(1) k1 d1 show ?thesis by (auto simp: pib_alloc_pd_def)
    next
      case True
      have "pib_alloc_pd d = (if ok' then (Inr (next_ptr d), d3)
          else (Inl ENOMEM, d3 \<lparr> pd_list := (pd_list d3) \<lparr> nr_obj := nr_obj (pd_list d3) - 1,
                 obj_head := remove1 (next_ptr d) (obj_head (pd_list d3)) \<rparr>,
              obj_num_bitmap := pib_dealloc_obj_num PIB_BITMAP_PD_START num (obj_num_bitmap d3) \<rparr>))"
        using True Some k1 d1 a k2 by (simp add: pib_alloc_pd_def Let_def d2_def)
      with assms(1) show ?thesis
        using d3 d1 n fresh
        by (auto simp: d2_def zero_pd_def pib_dealloc_pd_def Let_def remove1_append split: if_splits)
    qed
  qed
qed

theorem alloc_pd_then_dealloc_witness:
  "obj_num_bitmap (pib_dealloc_pd 1 (snd (pib_alloc_pd (blank_dev \<lparr> kmem := [True, True] \<rparr>)))) =
     obj_num_bitmap blank_dev \<and>
   obj_num_bitmap (snd (pib_alloc_pd (blank_dev \<lparr> kmem := [True, False] \<rparr>))) = obj_num_bitmap blank_dev"
proof -
  let ?d = "\<lambda>bs. blank_dev \<lparr> kmem := bs \<rparr>"
  have l: "\<forall>p\<in>set (obj_head (pd_list (?d bs))). p < next_ptr (?d bs)" for bs
    by (simp add: blank_dev_def empty_list_def)
  have "pib_alloc_obj_num PIB_BITMAP_PD_START PIB_MAX_PD ((\<lambda>_. False), 0) =
      (Some 1, (\<lambda>_. False)(PIB_BITMAP_PD_START + 1 := True), 1)"
    by (simp add: pib_alloc_obj_num_def find_next_zero_bit.simps)
  then have "fst (pib_alloc_pd (?d [True, True])) = Inr 1 \<and> fst (pib_alloc_pd (?d [True, False])) = Inl ENOMEM"
    by (simp add: pib_alloc_pd_def kmem_alloc_def blank_dev_def empty_list_def Let_def)
  then obtain d1 d2 where e: "pib_alloc_pd (?d [True, True]) = (Inr 1, d1)"
      "pib_alloc_pd (?d [True, False]) = (Inl ENOMEM, d2)"
    by (metis prod.collapse)
  then show ?thesis
    using alloc_pd_then_dealloc [OF e(1) l] alloc_pd_then_dealloc [OF e(2) l]
    by (simp add: Let_def)
qed

text \<open>The links of a queue pair, seen from both lists.\<close>

definition my_links :: "nat \<Rightarrow> pib_dev \<Rightarrow> u16 \<Rightarrow> nat" where
  "my_links qp d lid = length (filter (\<lambda>(p, _). p = qp) (mcast_table d lid))"

definition mcast_linked :: "pib_dev \<Rightarrow> pib_qp \<Rightarrow> bool" where
  "mcast_linked d qp \<longleftrightarrow> distinct (mcast_head qp) \<and>
    (\<forall>lid. my_links (qp_ptr qp) d lid = (if lid \<in> set (mcast_head qp) then 1 else 0))"

definition other_links :: "nat \<Rightarrow> pib_dev \<Rightarrow> u16 \<Rightarrow> (nat \<times> u32) list" where
  "other_links qp d lid = filter (\<lambda>(p, _). p \<noteq> qp) (mcast_table d lid)"

lemma unlink_mcast_links [simp]:
  "other_links qp (unlink_mcast qp lid d) = other_links qp d"
  "my_links qp (unlink_mcast qp lid d) lid' = (if lid' = lid then 0 else my_links qp d lid')"
  by (auto simp: other_links_def my_links_def unlink_mcast_def fun_eq_iff filter_empty_conv)

lemma unlink_all_links [simp]:
  "other_links qp (fold (unlink_mcast qp) lids d) = other_links qp d"
  "my_links qp (fold (unlink_mcast qp) lids d) lid = (if lid \<in> set lids then 0 else my_links qp d lid)"
  by (induction lids arbitrary: d) auto

lemma no_links_of_mine: "my_links qp d lid = 0 \<Longrightarrow> mcast_table d lid = other_links qp d lid"
  unfolding other_links_def my_links_def by (intro filter_True [symmetric]) (auto simp: filter_empty_conv)

lemma attach_mcast_links:
  assumes "mcast_linked d qp" "pib_attach_mcast lid (d, qp) = (r, d', qp')"
  shows "mcast_linked d' qp' \<and> other_links (qp_ptr qp) d' = other_links (qp_ptr qp) d"
proof -
  obtain ok d1 where k: "kmem_alloc d = (ok, d1)" by force
  then have t: "mcast_table d1 = mcast_table d" by (auto dest: kmem_alloc_frame)
  have "qp' = qp \<and> mcast_table d' = mcast_table d \<or>
      lid \<notin> set (mcast_head qp) \<and> qp' = qp \<lparr> mcast_head := mcast_head qp @ [lid] \<rparr> \<and>
      mcast_table d' = (mcast_table d)(lid := mcast_table d lid @ [(qp_ptr qp, qp_num qp)])"
    using assms(2) k t unfolding pib_attach_mcast_def by (auto split: if_split_asm bool.split_asm)
  then show ?thesis
  proof (elim disjE conjE)
    assume 1: "qp' = qp" "mcast_table d' = mcast_table d"
    then have "my_links p d' = my_links p d" "other_links p d' = other_links p d" for p
      by (simp_all add: my_links_def other_links_def fun_eq_iff)
    with 1 assms(1) show ?thesis by (simp add: mcast_linked_def)
  next
    assume 2: "lid \<notin> set (mcast_head qp)" "qp' = qp \<lparr> mcast_head := mcast_head qp @ [lid] \<rparr>"
      "mcast_table d' = (mcast_table d)(lid := mcast_table d lid @ [(qp_ptr qp, qp_num qp)])"
    then have "my_links (qp_ptr qp) d' lid' = (if lid' = lid then Suc else id) (my_links (qp_ptr qp) d lid')"
        "other_links (qp_ptr qp) d' = other_links (qp_ptr qp) d" for lid'
      by (simp_all add: my_links_def other_links_def fun_eq_iff)
    with 2 assms(1) show ?thesis by (simp add: mcast_linked_def)
  qed
qed

lemma detach_mcast_links:
  assumes "mcast_linked d qp" "pib_detach_mcast lid (d, qp) = (r, d', qp')"
  shows "mcast_linked d' qp' \<and> other_links (qp_ptr qp) d' = other_links (qp_ptr qp) d"
proof (cases "lid < PIB_MCAST_LID_BASE \<or> lid \<notin> set (mcast_head qp)")
  case True
  with assms show ?thesis by (auto simp: pib_detach_mcast_def split: if_splits)
next
  case False
  with assms(2) have "qp' = qp \<lparr> mcast_head := remove1 lid (mcast_head qp) \<rparr>"
      "d' = unlink_mcast (qp_ptr qp) lid d"
    by (auto simp: pib_detach_mcast_def)
  then show ?thesis using assms(1) by (auto simp: mcast_linked_def)
qed

lemma detach_all_mcast_links:
  assumes "mcast_linked d qp"
  shows "mcast_table (fold (unlink_mcast (qp_ptr qp)) (mcast_head qp) d) lid = other_links (qp_ptr qp) d lid"
proof -
  have "my_links (qp_ptr qp) (fold (unlink_mcast (qp_ptr qp)) (mcast_head qp) d) lid = 0"
    using assms by (simp add: mcast_linked_def)
  from no_links_of_mine [OF this] show ?thesis by simp
qed

text \<open>
  C39. Attaching to and detaching from multicast groups keeps the two lists of links in
  step: a queue pair is on the list of a LID exactly once if the LID is on the queue pair's
  list, and not at all otherwise, and links of other queue pairs are never touched.
  Detaching from everything, as destroying a queue pair does, leaves no link to it in the
  device.
\<close>

theorem mcast_links_in_step:
  assumes "mcast_linked d qp"
  shows "(\<forall>r d' qp'. pib_attach_mcast lid (d, qp) = (r, d', qp') \<or> pib_detach_mcast lid (d, qp) = (r, d', qp') \<longrightarrow>
      mcast_linked d' qp' \<and> other_links (qp_ptr qp) d' = other_links (qp_ptr qp) d) \<and>
    (case pib_detach_all_mcast (d, qp) of (d', qp') \<Rightarrow>
      mcast_head qp' = [] \<and> (\<forall>lid. mcast_table d' lid = other_links (qp_ptr qp) d lid))"
  using attach_mcast_links [OF assms] detach_mcast_links [OF assms] detach_all_mcast_links [OF assms]
  by (auto simp: pib_detach_all_mcast_def)

theorem mcast_links_in_step_witness:
  "mcast_table (fst (pib_detach_all_mcast (blank_dev \<lparr> mcast_table := (\<lambda>_. [])(0xC001 := [(8, 3), (9, 4)]) \<rparr>,
     zero_qp \<lparr> qp_ptr := 8, mcast_head := [0xC001] \<rparr>))) 0xC001 = [(9, 4)]"
proof -
  let ?d = "blank_dev \<lparr> mcast_table := (\<lambda>_. [])(0xC001 := [(8, 3), (9, 4)]) \<rparr>"
  let ?qp = "zero_qp \<lparr> qp_ptr := 8, mcast_head := [0xC001] \<rparr>"
  have l: "mcast_linked ?d ?qp" by (simp add: mcast_linked_def my_links_def)
  obtain d' qp' where e: "pib_detach_all_mcast (?d, ?qp) = (d', qp')" by fastforce
  with mcast_links_in_step [OF l] have "mcast_table d' 0xC001 = other_links 8 ?d 0xC001" by simp
  with e show ?thesis by (simp add: other_links_def)
qed
end
