(* ===== verification/Pib_QP.thy ===== *)
theory Pib_QP
  imports Pib_MR Pib_SRQ Pib_Sched Pib_Objects
begin

text \<open>
  Queue pairs, \<^verbatim>\<open>driver/pib_qp.c\<close>: creation and destruction, the state machine, posting work
  requests, flushing; and the handlers of queue errors of \<^verbatim>\<open>driver/pib_cq.c\<close> and
  \<^verbatim>\<open>driver/pib_srq.c\<close>, which flush the queue pairs that use a queue.  The properties are in
  \<open>Pib_QP_Entries\<close>.

  A send entry is on one of four lists (free, submitted, sending, waiting), a receive entry
  on one of two.  \<^verbatim>\<open>ib_modify_qp_is_ok\<close> of the kernel and \<^verbatim>\<open>copy_from_user\<close> are parameters.
\<close>

section \<open>Entries and events\<close>

abbreviation upd_req :: "(pib_requester \<Rightarrow> pib_requester) \<Rightarrow> pib_qp \<Rightarrow> pib_qp" where
  "upd_req f qp \<equiv> qp \<lparr> requester := f (requester qp) \<rparr>"

abbreviation upd_rsp :: "(pib_responder \<Rightarrow> pib_responder) \<Rightarrow> pib_qp \<Rightarrow> pib_qp" where
  "upd_rsp f qp \<equiv> qp \<lparr> responder := f (responder qp) \<rparr>"

definition pib_util_free_send_wqe :: "pib_send_wqe \<Rightarrow> pib_qp \<Rightarrow> pib_qp" where
  "pib_util_free_send_wqe w qp = upd_req (\<lambda>r. r \<lparr> free_swqe_head := free_swqe_head r @ [w] \<rparr>) qp"

definition pib_util_free_recv_wqe :: "pib_recv_wqe \<Rightarrow> pib_dev \<times> pib_qp \<Rightarrow> pib_dev \<times> pib_qp" where
  "pib_util_free_recv_wqe w = (\<lambda>(d, qp).
    case init_srq (qp_init_attr qp) of
      Some srq \<Rightarrow> (upd_srq srq (\<lambda>s. s \<lparr> srq_free_recv_wqe_head := srq_free_recv_wqe_head s @ [zero_rwqe] \<rparr>) d, qp)
    | None \<Rightarrow> (d, upd_rsp (\<lambda>r. r \<lparr> free_rwqe_head := free_rwqe_head r @ [zero_rwqe] \<rparr>) qp))"

definition pib_util_insert_async_qp_error :: "ib_event_type \<Rightarrow> pib_dev \<times> pib_qp \<Rightarrow> pib_dev \<times> pib_qp" where
  "pib_util_insert_async_qp_error event = (\<lambda>(d, qp).
    if qp_event_handler qp then (callback (Qp_event event (qp_ptr qp)) d, qp) else (d, qp))"

definition pib_util_insert_async_qp_event :: "ib_event_type \<Rightarrow> pib_dev \<times> pib_qp \<Rightarrow> pib_dev \<times> pib_qp" where
  "pib_util_insert_async_qp_event event = pib_util_insert_async_qp_error event"

definition get_send_wr_num :: "pib_qp \<Rightarrow> int" where
  "get_send_wr_num qp = nr_submitted_swqe (requester qp) + nr_sending_swqe (requester qp) +
     nr_waiting_swqe (requester qp)"

text \<open>The three counters of consecutive packets that several operations clear.\<close>

definition clear_contig :: "pib_qp \<Rightarrow> pib_qp" where
  "clear_contig qp = upd_rsp (rsp_nr_contig_read_acks_update (\<lambda>_. 0))
     (upd_req (\<lambda>r. r \<lparr> nr_contig_requests := 0, req_nr_contig_read_acks := 0 \<rparr>) qp)"

definition get_ready_to_send :: "pib_dev \<times> pib_qp \<Rightarrow> pib_dev \<times> pib_qp" where
  "get_ready_to_send s = (let (d, qp) = pib_util_reschedule_qp s in (d, clear_contig qp))"

section \<open>Flushing and resetting\<close>

definition flush_send_wqe :: "pib_send_wqe \<Rightarrow> pib_dev \<times> pib_qp \<Rightarrow> pib_dev \<times> pib_qp" where
  "flush_send_wqe w = (\<lambda>(d, qp).
    (snd (pib_util_insert_wc_error (send_cq qp) qp (swqe_wr_id w) IB_WC_WR_FLUSH_ERR
            (ib_wr_opcode_num (swqe_opcode w)) d),
     pib_util_free_send_wqe w qp))"

definition flush_recv_wqe :: "pib_recv_wqe \<Rightarrow> pib_dev \<times> pib_qp \<Rightarrow> pib_dev \<times> pib_qp" where
  "flush_recv_wqe w = (\<lambda>(d, qp).
    pib_util_free_recv_wqe w
      (snd (pib_util_insert_wc_error (recv_cq qp) qp (rwqe_wr_id w) IB_WC_WR_FLUSH_ERR IB_WC_RECV d), qp))"

definition flush_sends :: "pib_dev \<times> pib_qp \<Rightarrow> pib_dev \<times> pib_qp" where
  "flush_sends = (\<lambda>(d, qp).
    let (d, qp) = fold flush_send_wqe (waiting_swqe_head (requester qp)) (d, qp);
        qp = upd_req (\<lambda>r. r \<lparr> waiting_swqe_head := [], nr_waiting_swqe := 0 \<rparr>) qp;
        (d, qp) = fold flush_send_wqe (sending_swqe_head (requester qp)) (d, qp);
        qp = upd_req (\<lambda>r. r \<lparr> sending_swqe_head := [], nr_sending_swqe := 0 \<rparr>) qp;
        (d, qp) = fold flush_send_wqe (submitted_swqe_head (requester qp)) (d, qp)
    in (d, upd_req (\<lambda>r. r \<lparr> submitted_swqe_head := [], nr_submitted_swqe := 0, req_nr_rd_atomic := 0 \<rparr>) qp))"

definition flush_recvs :: "pib_dev \<times> pib_qp \<Rightarrow> pib_dev \<times> pib_qp" where
  "flush_recvs = (\<lambda>(d, qp).
    let (d, qp) = fold flush_recv_wqe (rsp_recv_wqe_head (responder qp)) (d, qp)
    in (d, upd_rsp (\<lambda>r. r \<lparr> rsp_recv_wqe_head := [], rsp_nr_recv_wqe := 0, ack_head := [],
                            rsp_nr_rd_atomic := 0 \<rparr>) qp))"

definition last_wqe_event :: "pib_dev \<times> pib_qp \<Rightarrow> pib_dev \<times> pib_qp" where
  "last_wqe_event = (\<lambda>(d, qp).
    if init_srq (qp_init_attr qp) \<noteq> None \<and> push_rcqe qp \<and> \<not> issue_last_wqe_reached qp
    then let (d, qp) = pib_util_insert_async_qp_event IB_EVENT_QP_LAST_WQE_REACHED (d, qp)
         in (d, qp \<lparr> issue_last_wqe_reached := True \<rparr>)
    else (d, qp))"

definition pib_util_flush_qp :: "bool \<Rightarrow> pib_dev \<times> pib_qp \<Rightarrow> pib_dev \<times> pib_qp" where
  "pib_util_flush_qp send_only s =
    (let s = flush_sends s in
     if send_only then s
     else let (d, qp) = pib_util_reschedule_qp (last_wqe_event (flush_recvs s)) in (d, clear_contig qp))"

abbreviation (input) "IB_OPCODE_RC_SEND_ONLY \<equiv> (0x04 :: u8)"

definition reset_qp_attr :: "pib_dev \<Rightarrow> pib_qp \<Rightarrow> pib_qp" where
  "reset_qp_attr d qp = qp \<lparr>
     qp_local_ack_timeout := pib_get_local_ack_time (kernel_HZ (module d)) (unat (attr_timeout (qp_attr qp))),
     requester := (requester qp) \<lparr> req_psn := 0, req_expected_psn := 0, req_nr_rd_atomic := 0 \<rparr>,
     responder := (responder qp) \<lparr> rsp_psn := 0,
       last_OpCode := (if qp_type qp = IB_QPT_RC then IB_OPCODE_RC_SEND_ONLY else IB_OPCODE_UD_SEND_ONLY),
       rsp_offset := 0, rsp_nr_rd_atomic := 0, slots := replicate PIB_MAX_RD_ATOM zero_slot \<rparr>,
     push_rcqe := False, issue_comm_est := False, issue_sq_drained := False,
     issue_last_wqe_reached := False \<rparr>"

text \<open>
  \<^verbatim>\<open>reset_qp\<close>: the result counts the requests whose completion is lost.  Each of the four loops
  gives its entries back in order.
\<close>

definition lost_sends :: "pib_qp \<Rightarrow> pib_send_wqe list \<Rightarrow> int" where
  "lost_sends qp ws = int (length (filter (\<lambda>w. sq_sig_type (qp_init_attr qp) = IB_SIGNAL_ALL_WR \<or>
     flag_set (swqe_send_flags w) IB_SEND_SIGNALED) ws))"

definition release_wqes :: "pib_dev \<times> pib_qp \<Rightarrow> pib_dev \<times> pib_qp" where
  "release_wqes = (\<lambda>(d, qp).
    let r = requester qp;
        qp = fold pib_util_free_send_wqe (waiting_swqe_head r @ sending_swqe_head r @ submitted_swqe_head r) qp;
        qp = upd_req (\<lambda>r. r \<lparr> waiting_swqe_head := [], nr_waiting_swqe := 0, sending_swqe_head := [],
               nr_sending_swqe := 0, submitted_swqe_head := [], nr_submitted_swqe := 0,
               req_nr_rd_atomic := 0 \<rparr>) qp;
        (d, qp) = fold pib_util_free_recv_wqe (rsp_recv_wqe_head (responder qp)) (d, qp)
    in (d, upd_rsp (\<lambda>r. r \<lparr> rsp_recv_wqe_head := [], rsp_nr_recv_wqe := 0, ack_head := [],
             rsp_nr_rd_atomic := 0 \<rparr>) qp))"

definition remove_completions :: "pib_qp \<Rightarrow> pib_dev \<Rightarrow> int \<times> pib_dev" where
  "remove_completions qp d =
    (let (n, d) = pib_util_remove_cq (send_cq qp) (qp_ptr qp) d
     in if send_cq qp \<noteq> recv_cq qp
        then let (m, d) = pib_util_remove_cq (recv_cq qp) (qp_ptr qp) d in (n + m, d)
        else (n, d))"

definition reset_qp :: "pib_dev \<times> pib_qp \<Rightarrow> int \<times> pib_dev \<times> pib_qp" where
  "reset_qp = (\<lambda>(d, qp).
    let r = requester qp;
        count = lost_sends qp (waiting_swqe_head r @ sending_swqe_head r @ submitted_swqe_head r) +
                int (length (rsp_recv_wqe_head (responder qp)));
        (d, qp) = release_wqes (d, qp);
        (n, d) = remove_completions qp d;
        (d, qp) = pib_util_reschedule_qp (d, reset_qp_attr d qp)
    in (count + n, d, clear_contig qp))"

definition dealloc_free_wqe :: "pib_qp \<Rightarrow> pib_qp" where
  "dealloc_free_wqe qp = upd_rsp (free_rwqe_head_update (\<lambda>_. [])) (upd_req (free_swqe_head_update (\<lambda>_. [])) qp)"

section \<open>Errors of the queues\<close>

text \<open>The loop over \<^verbatim>\<open>dev->qp_head\<close> of both handlers: the queue pairs that use the queue fail.\<close>

definition fail_qp :: "nat \<Rightarrow> pib_dev \<Rightarrow> pib_dev" where
  "fail_qp p d =
    (let (d, qp) = pib_util_insert_async_qp_error IB_EVENT_QP_FATAL
           (pib_util_flush_qp False (d, (qps d p) \<lparr> qp_state := IB_QPS_ERR \<rparr>))
     in d \<lparr> qps := (qps d)(p := qp) \<rparr>)"

definition pib_util_insert_async_cq_error :: "nat \<Rightarrow> pib_dev \<Rightarrow> pib_dev" where
  "pib_util_insert_async_cq_error cq d =
    (let d = callback (Cq_event IB_EVENT_CQ_ERR cq) (upd_cq cq (cq_state_update (\<lambda>_. PIB_STATE_ERR)) d)
     in fold (\<lambda>p d. if send_cq (qps d p) = cq \<or> recv_cq (qps d p) = cq then fail_qp p d else d)
          (obj_head (qp_list d)) d)"

definition pib_util_insert_async_srq_error :: "nat \<Rightarrow> pib_dev \<Rightarrow> pib_dev" where
  "pib_util_insert_async_srq_error srq d =
    (let d = callback (Srq_event IB_EVENT_SRQ_ERR srq) (upd_srq srq (srq_state_update (\<lambda>_. PIB_STATE_ERR)) d)
     in fold (\<lambda>p d. if init_srq (qp_init_attr (qps d p)) = Some srq then fail_qp p d else d)
          (obj_head (qp_list d)) d)"

definition cq_overflow_handler :: "nat \<Rightarrow> pib_dev \<Rightarrow> pib_dev" where
  "cq_overflow_handler cq d = pib_util_insert_async_cq_error cq d"

definition srq_error_handler :: "nat \<Rightarrow> pib_dev \<Rightarrow> pib_dev" where
  "srq_error_handler srq d = pib_util_insert_async_srq_error srq d"

section \<open>Creation and destruction\<close>

abbreviation (input) "PIB_MAX_INLINE \<equiv> (2048 :: u32)"

definition qp_cap_is_ok :: "pib_dev \<Rightarrow> ib_qp_cap \<Rightarrow> bool \<Rightarrow> bool" where
  "qp_cap_is_ok d cap use_srq \<longleftrightarrow>
    \<not> max_qp_wr (ib_dev_attr d) < int (unat (cap_max_send_wr cap)) \<and>
    \<not> max_sge (ib_dev_attr d) < int (unat (cap_max_send_sge cap)) \<and>
    (use_srq \<or>
     \<not> (cap_max_recv_wr cap < 1 \<or> max_qp_wr (ib_dev_attr d) < int (unat (cap_max_recv_wr cap))) \<and>
     \<not> (cap_max_recv_sge cap < 1 \<or> max_sge (ib_dev_attr d) < int (unat (cap_max_recv_sge cap)))) \<and>
    \<not> PIB_MAX_INLINE < cap_max_inline_data cap"

definition qp_init_attr_is_ok :: "pib_dev \<Rightarrow> ib_qp_init_attr \<Rightarrow> bool" where
  "qp_init_attr_is_ok d init \<longleftrightarrow>
    init_qp_type init \<in> {IB_QPT_SMI, IB_QPT_GSI, IB_QPT_RC, IB_QPT_UD} \<and>
    init_send_cq init \<noteq> None \<and> init_recv_cq init \<noteq> None \<and>
    qp_cap_is_ok d (init_cap init) (init_srq init \<noteq> None)"

text \<open>The send entries of a new queue pair, numbered from one for the trace.\<close>

definition new_send_wqes :: "nat \<Rightarrow> pib_send_wqe list" where
  "new_send_wqes n = map (\<lambda>i. zero_swqe \<lparr> swqe_trace_id := of_nat (i + 1) \<rparr>) [0..<n]"

text \<open>The structure as \<^verbatim>\<open>pib_create_qp\<close> fills it in before it allocates the entries.\<close>

definition new_qp :: "pib_dev \<Rightarrow> nat \<Rightarrow> nat \<Rightarrow> ib_qp_init_attr \<Rightarrow> bool \<Rightarrow> pib_qp" where
  "new_qp d ptr pd init handler =
    reset_qp_attr d (zero_qp \<lparr> qp_ptr := ptr, qp_pd := pd, qp_event_handler := handler, qp_init_attr := init,
      qp_attr := zero_qp_attr \<lparr> attr_cap := init_cap init \<rparr>, qp_state := IB_QPS_RESET,
      qp_type := init_qp_type init, send_cq := the (init_send_cq init), recv_cq := the (init_recv_cq init) \<rparr>)"

definition upd_port :: "nat \<Rightarrow> (pib_port \<Rightarrow> pib_port) \<Rightarrow> pib_dev \<Rightarrow> pib_dev" where
  "upd_port i f d = d \<lparr> ports := (ports d)[i := f (ports d ! i)] \<rparr>"

text \<open>
  Finding a number for the queue pair and linking it into the device, by type.  The special
  queue pairs have fixed numbers and are registered with their port, if none is yet.
\<close>

definition register_special_qp :: "nat \<Rightarrow> nat \<Rightarrow> nat \<Rightarrow> pib_dev \<Rightarrow> pib_dev" where
  "register_special_qp num ptr port d =
    (let d = (if port_qp_info (ports d ! port) num \<noteq> None then d
              else upd_port port (\<lambda>p. p \<lparr> port_qp_info := (port_qp_info p)(num := Some ptr) \<rparr>) d)
     in d \<lparr> qp_list := (qp_list d) \<lparr> obj_head := obj_head (qp_list d) @ [ptr] \<rparr> \<rparr>)"

definition register_qp :: "nat \<Rightarrow> pib_dev \<Rightarrow> nat option \<times> pib_dev" where
  "register_qp ptr d =
    (let d = (if pib_get_behavior d PIB_BEHAVIOR_QPN_REALLOCATION
              then d \<lparr> qp_list := (qp_list d) \<lparr> last_num := PIB_QP1 + 1 \<rparr> \<rparr> else d)
     in case pib_alloc_obj_num PIB_BITMAP_QP_START PIB_MAX_QP (obj_num_bitmap d, last_num (qp_list d)) of
          (None, bm, l) \<Rightarrow> (None, d)
        | (Some num, bm, l) \<Rightarrow>
          (Some num, d \<lparr> obj_num_bitmap := bm,
             qp_list := \<lparr> last_num = num, nr_obj = nr_obj (qp_list d) + 1,
                          obj_head = obj_head (qp_list d) @ [ptr] \<rparr>,
             qp_table := insert_qp (of_nat num) ptr (qp_table d) \<rparr>))"

text \<open>The error path behind \<^verbatim>\<open>err_alloc_inlin_data_buffer\<close>.\<close>

definition unregister_qp :: "nat \<Rightarrow> nat \<Rightarrow> bool \<Rightarrow> pib_dev \<Rightarrow> pib_dev" where
  "unregister_qp num ptr is_register_qp_table d =
    (let d = (if is_register_qp_table then d \<lparr> qp_table := erase_qp ptr (qp_table d) \<rparr> else d);
         d = d \<lparr> qp_list := (qp_list d) \<lparr> obj_head := remove1 ptr (obj_head (qp_list d)) \<rparr> \<rparr>
     in if num \<noteq> PIB_QP0 \<and> num \<noteq> PIB_QP1
        then d \<lparr> qp_list := (qp_list d) \<lparr> nr_obj := nr_obj (qp_list d) - 1 \<rparr>,
                obj_num_bitmap := pib_dealloc_obj_num PIB_BITMAP_QP_START num (obj_num_bitmap d) \<rparr>
        else d)"

text \<open>
  The allocations that follow: the area for inline data (\<^verbatim>\<open>vzalloc\<close> of no bytes gives \<^verbatim>\<open>NULL\<close>),
  the send and the receive entries.
\<close>

definition alloc_qp_entries :: "ib_qp_cap \<Rightarrow> pib_dev \<Rightarrow> bool \<times> pib_dev" where
  "alloc_qp_entries cap d =
    (case (if cap_max_inline_data cap > 0
           then (if cap_max_inline_data cap * cap_max_send_wr cap = 0 then (False, d) else kmem_alloc d)
           else (True, d)) of
       (False, d) \<Rightarrow> (False, d)
     | (True, d) \<Rightarrow>
       (case alloc_entries (unat (cap_max_send_wr cap)) d of
          (False, d) \<Rightarrow> (False, d)
        | (True, d) \<Rightarrow> alloc_entries (unat (cap_max_recv_wr cap)) d))"

definition finish_create_qp ::
  "pib_qp \<Rightarrow> nat \<Rightarrow> bool \<Rightarrow> pib_dev \<Rightarrow> (errno + nat) \<times> pib_dev" where
  "finish_create_qp qp num in_table d =
    (case alloc_qp_entries (init_cap (qp_init_attr qp)) d of
       (False, d) \<Rightarrow> (Inl ENOMEM, unregister_qp num (qp_ptr qp) in_table d)
     | (True, d) \<Rightarrow>
       (Inr (qp_ptr qp), d \<lparr> qps := (qps d)(qp_ptr qp := qp \<lparr> qp_num := of_nat num,
          requester := (requester qp) \<lparr> free_swqe_head :=
            new_send_wqes (unat (cap_max_send_wr (init_cap (qp_init_attr qp)))) \<rparr>,
          responder := (responder qp) \<lparr> free_rwqe_head :=
            replicate (unat (cap_max_recv_wr (init_cap (qp_init_attr qp)))) zero_rwqe \<rparr> \<rparr>) \<rparr>))"

definition pib_create_qp :: "nat \<Rightarrow> ib_qp_init_attr \<Rightarrow> bool \<Rightarrow> pib_dev \<Rightarrow> (errno + nat) \<times> pib_dev" where
  "pib_create_qp pd init handler d =
    (if \<not> qp_init_attr_is_ok d init then (Inl EINVAL, d)
     else if (case init_srq init of Some srq \<Rightarrow> pd \<noteq> srq_pd (srqs d srq) | None \<Rightarrow> False) then (Inl EINVAL, d)
     else (case kmem_alloc d of
         (False, d) \<Rightarrow> (Inl ENOMEM, d)
       | (True, d) \<Rightarrow>
         (let ptr = next_ptr d; d = d \<lparr> next_ptr := Suc ptr \<rparr>; qp = new_qp d ptr pd init handler in
          case init_qp_type init of
            IB_QPT_SMI \<Rightarrow> finish_create_qp qp PIB_QP0 False
              (register_special_qp PIB_QP0 ptr (unat (init_port_num init) - 1) d)
          | IB_QPT_GSI \<Rightarrow> finish_create_qp qp PIB_QP1 False
              (register_special_qp PIB_QP1 ptr (unat (init_port_num init) - 1) d)
          | _ \<Rightarrow>
            (case register_qp ptr d of
               (None, d) \<Rightarrow> (Inl ENOMEM, d)
             | (Some num, d) \<Rightarrow> finish_create_qp qp num True d))))"

definition pib_destroy_qp :: "pib_dev \<times> pib_qp \<Rightarrow> pib_dev" where
  "pib_destroy_qp s =
    (let (_, d, qp) = reset_qp (pib_detach_all_mcast s);
         qp = dealloc_free_wqe qp;
         num = unat (qp_num qp);
         port = unat (init_port_num (qp_init_attr qp)) - 1;
         d = (if num = PIB_QP0 \<or> num = PIB_QP1
              then upd_port port (\<lambda>p. p \<lparr> port_qp_info := (port_qp_info p)(num := None) \<rparr>) d
              else d \<lparr> qp_table := erase_qp (qp_ptr qp) (qp_table d) \<rparr>);
         d = d \<lparr> qp_list := (qp_list d) \<lparr> obj_head := remove1 (qp_ptr qp) (obj_head (qp_list d)) \<rparr> \<rparr>
     in if num \<noteq> PIB_QP0 \<and> num \<noteq> PIB_QP1
        then d \<lparr> qp_list := (qp_list d) \<lparr> nr_obj := nr_obj (qp_list d) - 1 \<rparr>,
                obj_num_bitmap := pib_dealloc_obj_num PIB_BITMAP_QP_START num (obj_num_bitmap d) \<rparr>
        else d)"

section \<open>The state machine\<close>

abbreviation (input) "IB_QP_STATE \<equiv> (0x1 :: u32)"
abbreviation (input) "IB_QP_CUR_STATE \<equiv> (0x2 :: u32)"
abbreviation (input) "IB_QP_EN_SQD_ASYNC_NOTIFY \<equiv> (0x4 :: u32)"
abbreviation (input) "IB_QP_ACCESS_FLAGS \<equiv> (0x8 :: u32)"
abbreviation (input) "IB_QP_PKEY_INDEX \<equiv> (0x10 :: u32)"
abbreviation (input) "IB_QP_PORT \<equiv> (0x20 :: u32)"
abbreviation (input) "IB_QP_QKEY \<equiv> (0x40 :: u32)"
abbreviation (input) "IB_QP_AV \<equiv> (0x80 :: u32)"
abbreviation (input) "IB_QP_PATH_MTU \<equiv> (0x100 :: u32)"
abbreviation (input) "IB_QP_TIMEOUT \<equiv> (0x200 :: u32)"
abbreviation (input) "IB_QP_RETRY_CNT \<equiv> (0x400 :: u32)"
abbreviation (input) "IB_QP_RNR_RETRY \<equiv> (0x800 :: u32)"
abbreviation (input) "IB_QP_RQ_PSN \<equiv> (0x1000 :: u32)"
abbreviation (input) "IB_QP_MAX_QP_RD_ATOMIC \<equiv> (0x2000 :: u32)"
abbreviation (input) "IB_QP_ALT_PATH \<equiv> (0x4000 :: u32)"
abbreviation (input) "IB_QP_MIN_RNR_TIMER \<equiv> (0x8000 :: u32)"
abbreviation (input) "IB_QP_SQ_PSN \<equiv> (0x10000 :: u32)"
abbreviation (input) "IB_QP_MAX_DEST_RD_ATOMIC \<equiv> (0x20000 :: u32)"
abbreviation (input) "IB_QP_PATH_MIG_STATE \<equiv> (0x40000 :: u32)"
abbreviation (input) "IB_QP_CAP \<equiv> (0x80000 :: u32)"
abbreviation (input) "IB_QP_DEST_QPN \<equiv> (0x100000 :: u32)"

abbreviation (input) "PIB_PKEY_TABLE_LEN \<equiv> (32 :: nat)"
abbreviation (input) "PIB_MANNER_PSN \<equiv> (0 :: nat)"

definition pib_warn_manner :: "pib_dev \<Rightarrow> nat \<Rightarrow> bool" where
  "pib_warn_manner d m \<longleftrightarrow> flag_set (pib_manner_warn (module d)) (push_bit m 1)"

definition pib_error_manner :: "pib_dev \<Rightarrow> nat \<Rightarrow> bool" where
  "pib_error_manner d m \<longleftrightarrow> flag_set (pib_manner_err (module d)) (push_bit m 1)"

text \<open>The attributes of \<^verbatim>\<open>ib_modify_qp\<close>: \<open>struct ib_qp_attr\<close> with its two states.\<close>

record qp_modify =
  mod_cur_qp_state :: ib_qp_state
  mod_qp_state :: ib_qp_state
  mod_attr :: ib_qp_attr

definition modify_qp_is_ok :: "pib_dev \<Rightarrow> pib_qp \<Rightarrow> ib_qp_state \<Rightarrow> ib_qp_attr \<Rightarrow> u32 \<Rightarrow> bool" where
  "modify_qp_is_ok d qp cur_state a attr_mask \<longleftrightarrow>
    (flag_set attr_mask IB_QP_PORT \<longrightarrow>
       \<not> (cur_state = IB_QPS_SQD \<and> \<not> cap_change_phy_port (ib_dev_attr d)) \<and>
       \<not> (qp_type qp = IB_QPT_SMI \<or> qp_type qp = IB_QPT_GSI \<or> attr_port_num a = 0 \<or>
          phys_port_cnt d < unat (attr_port_num a))) \<and>
    (flag_set attr_mask IB_QP_AV \<longrightarrow> \<not> PIB_MCAST_LID_BASE \<le> ah_dlid (ah_attr a)) \<and>
    (flag_set attr_mask IB_QP_PATH_MTU \<longrightarrow> \<not> (path_mtu a < IB_MTU_256 \<or> IB_MTU_4096 < path_mtu a)) \<and>
    (flag_set attr_mask IB_QP_TIMEOUT \<longrightarrow> attr_timeout a AND NOT 0x1F = 0) \<and>
    (flag_set attr_mask IB_QP_RETRY_CNT \<longrightarrow> attr_retry_cnt a AND NOT 7 = 0) \<and>
    (flag_set attr_mask IB_QP_MIN_RNR_TIMER \<longrightarrow> min_rnr_timer a AND NOT 0x1F = 0) \<and>
    (flag_set attr_mask IB_QP_RNR_RETRY \<longrightarrow> attr_rnr_retry a AND NOT 7 = 0) \<and>
    (flag_set attr_mask IB_QP_MAX_QP_RD_ATOMIC \<longrightarrow>
       \<not> max_qp_init_rd_atom (ib_dev_attr d) < int (unat (max_rd_atomic a))) \<and>
    (flag_set attr_mask IB_QP_MAX_DEST_RD_ATOMIC \<longrightarrow>
       \<not> max_qp_rd_atom (ib_dev_attr d) < int (unat (max_dest_rd_atomic a))) \<and>
    (flag_set attr_mask IB_QP_RQ_PSN \<and> pib_warn_manner d PIB_MANNER_PSN \<longrightarrow>
       \<not> (rq_psn a AND NOT PIB_PSN_MASK \<noteq> 0 \<and> pib_error_manner d PIB_MANNER_PSN)) \<and>
    (flag_set attr_mask IB_QP_SQ_PSN \<and> pib_warn_manner d PIB_MANNER_PSN \<longrightarrow>
       \<not> (sq_psn a AND NOT PIB_PSN_MASK \<noteq> 0 \<and> pib_error_manner d PIB_MANNER_PSN)) \<and>
    (flag_set attr_mask IB_QP_CAP \<longrightarrow> cap_resize_max_wr (ib_dev_attr d) \<and>
       qp_cap_is_ok d (attr_cap a) (init_srq (qp_init_attr qp) \<noteq> None)) \<and>
    (flag_set attr_mask IB_QP_PKEY_INDEX \<longrightarrow> \<not> PIB_PKEY_TABLE_LEN \<le> unat (attr_pkey_index a))"

text \<open>
  The assignments of \<^verbatim>\<open>pib_modify_qp\<close> before the change of state: the flag that asks for each,
  in the order of the code.
\<close>

abbreviation upd_attr :: "(ib_qp_attr \<Rightarrow> ib_qp_attr) \<Rightarrow> pib_qp \<Rightarrow> pib_qp" where
  "upd_attr f qp \<equiv> qp \<lparr> qp_attr := f (qp_attr qp) \<rparr>"

definition modify_qp_steps :: "pib_dev \<Rightarrow> ib_qp_attr \<Rightarrow> (u32 \<times> (pib_qp \<Rightarrow> pib_qp)) list" where
  "modify_qp_steps d a =
    [(IB_QP_PATH_MTU, upd_attr (path_mtu_update (\<lambda>_. path_mtu a))),
     (IB_QP_QKEY, upd_attr (attr_qkey_update (\<lambda>_. attr_qkey a))),
     (IB_QP_RQ_PSN, upd_rsp (rsp_psn_update (\<lambda>_. rq_psn a AND PIB_PSN_MASK))),
     (IB_QP_SQ_PSN, upd_req (\<lambda>r. r \<lparr> req_psn := sq_psn a AND PIB_PSN_MASK,
        req_expected_psn := sq_psn a AND PIB_PSN_MASK \<rparr>)),
     (IB_QP_DEST_QPN, upd_attr (dest_qp_num_update (\<lambda>_. dest_qp_num a))),
     (IB_QP_ACCESS_FLAGS, upd_attr (qp_access_flags_update (\<lambda>_. qp_access_flags a))),
     (IB_QP_CAP, \<lambda>qp. upd_attr (attr_cap_update (\<lambda>c.
        (if init_recv_cq (qp_init_attr qp) \<noteq> None
         then c \<lparr> cap_max_recv_wr := cap_max_recv_wr (attr_cap a), cap_max_recv_sge := cap_max_recv_sge (attr_cap a) \<rparr>
         else c)
        \<lparr> cap_max_send_wr := cap_max_send_wr (attr_cap a), cap_max_send_sge := cap_max_send_sge (attr_cap a),
          cap_max_inline_data := cap_max_inline_data (attr_cap a) \<rparr>)) qp),
     (IB_QP_AV, upd_attr (ah_attr_update (\<lambda>_. ah_attr a))),
     (IB_QP_PKEY_INDEX, upd_attr (attr_pkey_index_update (\<lambda>_. attr_pkey_index a))),
     (IB_QP_EN_SQD_ASYNC_NOTIFY, upd_attr (en_sqd_async_notify_update (\<lambda>_. en_sqd_async_notify a))),
     (IB_QP_MAX_QP_RD_ATOMIC, \<lambda>qp. upd_req (req_max_rd_atomic_update (\<lambda>_. max_rd_atomic a))
        (upd_attr (max_rd_atomic_update (\<lambda>_. max_rd_atomic a)) qp)),
     (IB_QP_MAX_DEST_RD_ATOMIC, upd_attr (max_dest_rd_atomic_update (\<lambda>_. max_dest_rd_atomic a))),
     (IB_QP_MIN_RNR_TIMER, upd_attr (min_rnr_timer_update (\<lambda>_. min_rnr_timer a))),
     (IB_QP_PORT, \<lambda>qp. let qp = upd_attr (attr_port_num_update (\<lambda>_. attr_port_num a)) qp in
        if qp_type qp \<in> {IB_QPT_UD, IB_QPT_SMI, IB_QPT_GSI}
        then upd_attr (path_mtu_update (\<lambda>_. port_active_mtu (ports d ! (unat (attr_port_num a) - 1)))) qp else qp),
     (IB_QP_TIMEOUT, \<lambda>qp. (upd_attr (attr_timeout_update (\<lambda>_. attr_timeout a)) qp)
        \<lparr> qp_local_ack_timeout := pib_get_local_ack_time (kernel_HZ (module d)) (unat (attr_timeout a)) \<rparr>),
     (IB_QP_RETRY_CNT, upd_attr (attr_retry_cnt_update (\<lambda>_. attr_retry_cnt a))),
     (IB_QP_RNR_RETRY, upd_attr (attr_rnr_retry_update (\<lambda>_. attr_rnr_retry a))),
     (IB_QP_ALT_PATH, upd_attr (\<lambda>t. t \<lparr> alt_ah_attr := alt_ah_attr a, alt_pkey_index := alt_pkey_index a \<rparr>)),
     (IB_QP_PATH_MIG_STATE, upd_attr (\<lambda>t. t \<lparr> path_mig_state := path_mig_state a,
        ah_attr := alt_ah_attr t, attr_pkey_index := alt_pkey_index a \<rparr>))]"

definition modify_qp_attrs :: "pib_dev \<Rightarrow> ib_qp_attr \<Rightarrow> u32 \<Rightarrow> pib_qp \<Rightarrow> pib_qp" where
  "modify_qp_attrs d a attr_mask qp =
    fold (\<lambda>(flag, step) qp. if flag_set attr_mask flag then step qp else qp) (modify_qp_steps d a) qp"

text \<open>\<open>drained\<close>: the announcement of a drained send queue.\<close>

definition announce_drained :: "bool \<Rightarrow> pib_dev \<times> pib_qp \<Rightarrow> pib_dev \<times> pib_qp" where
  "announce_drained drained = (\<lambda>(d, qp).
    if drained
    then let (d, qp) = (if en_sqd_async_notify (qp_attr qp)
                        then pib_util_insert_async_qp_event IB_EVENT_SQ_DRAINED (d, qp) else (d, qp))
         in (d, qp \<lparr> issue_sq_drained := True \<rparr>)
    else (d, qp))"

text \<open>The side reactions of entering a state; the first component is \<^verbatim>\<open>ret\<close>.\<close>

definition enter_qp_state :: "ib_qp_state \<Rightarrow> pib_dev \<times> pib_qp \<Rightarrow> int \<times> pib_dev \<times> pib_qp" where
  "enter_qp_state new_state = (\<lambda>(d, qp).
    let qp = qp \<lparr> qp_state := new_state \<rparr> in
    case new_state of
      IB_QPS_RESET \<Rightarrow> reset_qp (d, qp)
    | IB_QPS_RTR \<Rightarrow> (0, d, qp \<lparr> issue_comm_est := False \<rparr>)
    | IB_QPS_SQE \<Rightarrow> (0, pib_util_flush_qp True (d, qp))
    | IB_QPS_ERR \<Rightarrow> (0, pib_util_flush_qp False (d, qp))
    | _ \<Rightarrow> (0, d, qp))"

definition move_qp_state ::
  "ib_qp_state \<Rightarrow> ib_qp_state \<Rightarrow> bool \<Rightarrow> pib_dev \<times> pib_qp \<Rightarrow> int \<times> pib_dev \<times> pib_qp" where
  "move_qp_state cur_state new_state drained s =
    (let (ret, d, qp) = enter_qp_state new_state s;
         pending = (new_state = IB_QPS_RTS \<and> get_send_wr_num qp \<noteq> 0);
         (d, qp) = announce_drained drained (d, qp);
         qp = (if cur_state = IB_QPS_SQD \<and> new_state \<noteq> IB_QPS_SQD
               then qp \<lparr> issue_sq_drained := False \<rparr> else qp)
     in (ret, if pending then get_ready_to_send (d, qp) else (d, qp)))"

text \<open>
  \<^verbatim>\<open>pib_modify_qp\<close>, first with the current and the new state given.  A successful change returns
  \<^verbatim>\<open>ret\<close>, which is the count of \<^verbatim>\<open>reset_qp\<close> when the new state is RESET.
\<close>

definition modify_qp_from ::
  "(ib_qp_state \<Rightarrow> ib_qp_state \<Rightarrow> ib_qp_type \<Rightarrow> u32 \<Rightarrow> bool) \<Rightarrow> ib_qp_attr \<Rightarrow> u32 \<Rightarrow>
   ib_qp_state \<Rightarrow> ib_qp_state \<Rightarrow> bool \<Rightarrow> pib_dev \<times> pib_qp \<Rightarrow> (errno + int) \<times> pib_dev \<times> pib_qp" where
  "modify_qp_from ib_modify_qp_is_ok attr attr_mask cur_state new_state drained = (\<lambda>(d, qp).
    if cur_state = IB_QPS_SQD \<and> (new_state = IB_QPS_SQD \<or> new_state = IB_QPS_RTS) \<and> \<not> drained
    then (Inl EBUSY, d, qp)
    else if \<not> ib_modify_qp_is_ok cur_state new_state (qp_type qp) attr_mask then (Inl EINVAL, d, qp)
    else if \<not> modify_qp_is_ok d qp cur_state attr attr_mask then (Inl EINVAL, d, qp)
    else
      let qp = modify_qp_attrs d attr attr_mask qp in
      if \<not> flag_set attr_mask IB_QP_STATE then (Inr 0, d, qp)
      else if new_state = IB_QPS_SQE \<and> qp_type qp = IB_QPT_RC then (Inl EINVAL, d, qp)
      else if cur_state = IB_QPS_SQD \<and> \<not> issue_sq_drained qp \<and>
              (new_state = IB_QPS_RTS \<or> new_state = IB_QPS_SQD) then (Inl EINVAL, d, qp)
      else let (ret, s) = move_qp_state cur_state new_state drained (d, qp) in (Inr ret, s))"

definition pib_modify_qp ::
  "(ib_qp_state \<Rightarrow> ib_qp_state \<Rightarrow> ib_qp_type \<Rightarrow> u32 \<Rightarrow> bool) \<Rightarrow> qp_modify \<Rightarrow> u32 \<Rightarrow>
   pib_dev \<times> pib_qp \<Rightarrow> (errno + int) \<times> pib_dev \<times> pib_qp" where
  "pib_modify_qp ib_modify_qp_is_ok m attr_mask = (\<lambda>(d, qp).
    let cur_state = (if flag_set attr_mask IB_QP_CUR_STATE then mod_cur_qp_state m else qp_state qp);
        new_state = (if flag_set attr_mask IB_QP_STATE then mod_qp_state m else cur_state);
        drained = (sending_swqe_head (requester qp) = [] \<and> waiting_swqe_head (requester qp) = [])
    in modify_qp_from ib_modify_qp_is_ok (mod_attr m) attr_mask cur_state new_state drained (d, qp))"

definition pib_query_qp :: "pib_qp \<Rightarrow> ib_qp_attr \<times> ib_qp_init_attr \<times> ib_qp_state \<times> bool" where
  "pib_query_qp qp =
    ((qp_attr qp) \<lparr> sq_psn := req_psn (requester qp) AND PIB_PSN_MASK,
                    rq_psn := rsp_psn (responder qp) AND PIB_PSN_MASK \<rparr>,
     qp_init_attr qp, qp_state qp,
     \<not> (sending_swqe_head (requester qp) = [] \<and> waiting_swqe_head (requester qp) = []))"

section \<open>Posting receive requests\<close>

text \<open>
  The loop of \<^verbatim>\<open>pib_post_recv\<close>.  An entry leaves the free list only once its request is
  accepted; a refused request leaves it there, overwritten.
\<close>

fun post_recv_loop ::
  "u64 \<Rightarrow> errno option \<Rightarrow> ib_recv_wr list \<Rightarrow> pib_dev \<times> pib_qp \<Rightarrow> errno option \<times> ib_recv_wr list \<times> pib_dev \<times> pib_qp" where
  "post_recv_loop len ret [] s = (ret, [], s)"
| "post_recv_loop len ret (wr # wrs) (d, qp) =
    (if qp_state qp = IB_QPS_RESET then (Some EINVAL, wr # wrs, d, qp)
     else if qp_state qp = IB_QPS_ERR
     then post_recv_loop len (Some EPERM) wrs
            (snd (pib_util_insert_wc_error (recv_cq qp) qp (rwr_wr_id wr) IB_WC_WR_FLUSH_ERR IB_WC_RECV d), qp)
     else if rwr_num_sge wr < 1 \<or> int (unat (cap_max_recv_sge (init_cap (qp_init_attr qp)))) < rwr_num_sge wr
     then (Some EINVAL, wr # wrs, d, qp)
     else (case free_rwqe_head (responder qp) of
         [] \<Rightarrow> (Some ENOMEM, wr # wrs, d, qp)
       | w # free \<Rightarrow>
         (let sges = take (nat (rwr_num_sge wr)) (rwr_sg_list wr);
              w = w \<lparr> rwqe_wr_id := rwr_wr_id wr, rwqe_sge_array := sges \<rparr>;
              len = len + sges_count_length d sges
          in if PIB_MAX_PAYLOAD_LEN < len
             then (Some EMSGSIZE, wr # wrs, d, upd_rsp (free_rwqe_head_update (\<lambda>_. w # free)) qp)
             else post_recv_loop len ret wrs
               (d, upd_rsp (\<lambda>r. r \<lparr> free_rwqe_head := free,
                  rsp_recv_wqe_head := rsp_recv_wqe_head r @ [w \<lparr> rwqe_total_length := ucast len \<rparr>],
                  rsp_nr_recv_wqe := rsp_nr_recv_wqe r + 1 \<rparr>) qp))))"

definition pib_post_recv ::
  "ib_recv_wr list \<Rightarrow> pib_dev \<times> pib_qp \<Rightarrow> errno option \<times> ib_recv_wr list \<times> pib_dev \<times> pib_qp" where
  "pib_post_recv wrs s =
    (if wrs = [] then (Some EINVAL, [], s)
     else if init_srq (qp_init_attr (snd s)) \<noteq> None then (Some EINVAL, [], s)
     else post_recv_loop 0 None wrs s)"

section \<open>Posting send requests\<close>

text \<open>
  \<^verbatim>\<open>PIB_HACK_IMM_DATA_LKEY\<close>: the last entry with the reserved L_Key is not data, its length is
  the immediate value.
\<close>

definition strip_imm_sge :: "ib_sge list \<Rightarrow> (u32 \<times> ib_sge list) option" where
  "strip_imm_sge sges =
    (let other = (\<lambda>s. sge_lkey s \<noteq> PIB_IMM_DATA_LKEY) in
     case dropWhile other (rev sges) of
       [] \<Rightarrow> None
     | s # before \<Rightarrow> Some (sge_length s, rev before @ rev (takeWhile other (rev sges))))"

definition wr_sges :: "pib_dev \<Rightarrow> ib_send_wr \<Rightarrow> u32 \<times> int \<times> ib_sge list" where
  "wr_sges d wr =
    (let sges = take (nat (swr_num_sge wr)) (swr_sg_list wr) in
     case (if imm_data_lkey_hack (module d) then strip_imm_sge sges else None) of
       None \<Rightarrow> (swr_ex wr, swr_num_sge wr, sges)
     | Some (imm, sges) \<Rightarrow> (imm, swr_num_sge wr - 1, sges))"

text \<open>
  \<^verbatim>\<open>copy_inline_data\<close> into the entry's part of the inline area; requests that do not fit or
  carry no payload are left alone.  \<^verbatim>\<open>None\<close> is \<^verbatim>\<open>-EFAULT\<close>.
\<close>

fun copy_sges_from_user :: "(u64 \<Rightarrow> nat \<Rightarrow> u8 list option) \<Rightarrow> ib_sge list \<Rightarrow> u8 list option" where
  "copy_sges_from_user cfu [] = Some []"
| "copy_sges_from_user cfu (s # ss) =
    (case cfu (sge_addr s) (unat (sge_length s)) of
       None \<Rightarrow> None
     | Some b \<Rightarrow> map_option ((@) b) (copy_sges_from_user cfu ss))"

definition copy_inline_data ::
  "(u64 \<Rightarrow> nat \<Rightarrow> u8 list option) \<Rightarrow> pib_qp \<Rightarrow> pib_send_wqe \<Rightarrow> u64 \<Rightarrow> pib_send_wqe option" where
  "copy_inline_data cfu qp w len =
    (if len \<le> 0 \<or> ucast (cap_max_inline_data (attr_cap (qp_attr qp))) < len then Some w
     else if swqe_opcode w \<notin> {IB_WR_SEND, IB_WR_SEND_WITH_IMM, IB_WR_SEND_WITH_INV, IB_WR_RDMA_WRITE,
               IB_WR_RDMA_WRITE_WITH_IMM} then Some w
     else map_option (\<lambda>bytes. w \<lparr> swqe_inline_data := bytes @ drop (length bytes) (swqe_inline_data w) \<rparr>)
            (copy_sges_from_user cfu (swqe_sge_array w)))"

text \<open>The fields every request sets, the union \<^verbatim>\<open>wr\<close> cleared.\<close>

definition fill_send_wqe :: "ib_send_wr \<Rightarrow> u32 \<Rightarrow> ib_sge list \<Rightarrow> pib_send_wqe \<Rightarrow> pib_send_wqe" where
  "fill_send_wqe wr imm sges w = zero_swqe \<lparr> swqe_wr_id := swr_wr_id wr, swqe_opcode := swr_opcode wr,
     swqe_send_flags := swr_send_flags wr, swqe_ex := imm, swqe_sge_array := sges,
     swqe_trace_id := swqe_trace_id w, local_only_request := local_only_request w,
     swqe_total_length := swqe_total_length w, swqe_inline_data := swqe_inline_data w \<rparr>"

text \<open>The member of \<^verbatim>\<open>wr\<close> that the opcode uses; \<^verbatim>\<open>None\<close> is the refusal of an address handle.\<close>

definition fill_wr_union :: "pib_dev \<Rightarrow> pib_qp \<Rightarrow> ib_send_wr \<Rightarrow> pib_send_wqe \<Rightarrow> pib_send_wqe option" where
  "fill_wr_union d qp wr w =
    (if qp_type qp = IB_QPT_RC then
       (case swr_opcode wr of
          IB_WR_RDMA_WRITE \<Rightarrow> Some (w \<lparr> rdma_remote_addr := swr_rdma_remote_addr wr, rdma_rkey := swr_rdma_rkey wr \<rparr>)
        | IB_WR_RDMA_WRITE_WITH_IMM \<Rightarrow> Some (w \<lparr> rdma_remote_addr := swr_rdma_remote_addr wr, rdma_rkey := swr_rdma_rkey wr \<rparr>)
        | IB_WR_RDMA_READ \<Rightarrow> Some (w \<lparr> rdma_remote_addr := swr_rdma_remote_addr wr, rdma_rkey := swr_rdma_rkey wr \<rparr>)
        | IB_WR_ATOMIC_CMP_AND_SWP \<Rightarrow> Some (w \<lparr> atomic_remote_addr := swr_atomic_remote_addr wr,
            atomic_compare_add := swr_atomic_compare_add wr, atomic_swap := swr_atomic_swap wr, atomic_rkey := swr_atomic_rkey wr \<rparr>)
        | IB_WR_ATOMIC_FETCH_AND_ADD \<Rightarrow> Some (w \<lparr> atomic_remote_addr := swr_atomic_remote_addr wr,
            atomic_compare_add := swr_atomic_compare_add wr, atomic_swap := swr_atomic_swap wr, atomic_rkey := swr_atomic_rkey wr \<rparr>)
        | IB_WR_SEND_WITH_INV \<Rightarrow> Some (w \<lparr> swqe_ex := swr_ex wr \<rparr>)
        | IB_WR_LOCAL_INV \<Rightarrow> Some (w \<lparr> local_only_request := True, swqe_ex := swr_ex wr \<rparr>)
        | IB_WR_FAST_REG_MR \<Rightarrow> Some (w \<lparr> local_only_request := True, swqe_fast_reg := swr_fast_reg wr \<rparr>)
        | _ \<Rightarrow> Some w)
     else if qp_type qp \<in> {IB_QPT_UD, IB_QPT_SMI, IB_QPT_GSI} \<and> swr_opcode wr \<in> {IB_WR_SEND, IB_WR_SEND_WITH_IMM}
     then if \<not> pib_get_behavior d PIB_BEHAVIOR_AH_PD_VIOLATOIN_COMP_ERR \<and>
             (case swr_ud_ah wr of None \<Rightarrow> True | Some ah \<Rightarrow> qp_pd qp \<noteq> ah_pd (ahs d ah))
          then None
          else Some (w \<lparr> ud_ah := swr_ud_ah wr, ud_remote_qpn := swr_ud_remote_qpn wr, ud_remote_qkey := swr_ud_remote_qkey wr,
                 ud_pkey_index := swr_ud_pkey_index wr, ud_port_num := swr_ud_port_num wr \<rparr>)
     else Some w)"

text \<open>
  One request: \<open>Inl\<close> the error and the overwritten entry, or \<open>Inr\<close> the entry to be queued;
  with the new \<^verbatim>\<open>total_length\<close>.
\<close>

definition build_send_wqe ::
  "(u64 \<Rightarrow> nat \<Rightarrow> u8 list option) \<Rightarrow> pib_dev \<Rightarrow> pib_qp \<Rightarrow> u64 \<Rightarrow> ib_send_wr \<Rightarrow> pib_send_wqe \<Rightarrow>
   (errno \<times> pib_send_wqe + pib_send_wqe) \<times> u64" where
  "build_send_wqe cfu d qp len wr w =
    (let (imm, _, sges) = wr_sges d wr;
         w = fill_send_wqe wr imm sges w;
         len = (if swqe_opcode w = IB_WR_ATOMIC_CMP_AND_SWP \<or> swqe_opcode w = IB_WR_ATOMIC_FETCH_AND_ADD then 8
                else len + sges_count_length d sges)
     in if PIB_MAX_PAYLOAD_LEN < len then (Inl (EMSGSIZE, w), len)
        else
          let w = w \<lparr> swqe_total_length := ucast len \<rparr> in
          case (if flag_set (swqe_send_flags w) IB_SEND_INLINE then copy_inline_data cfu qp w len else Some w) of
            None \<Rightarrow> (Inl (EFAULT, w), len)
          | Some w \<Rightarrow>
            (case fill_wr_union d qp wr w of
               None \<Rightarrow> (Inl (EINVAL, w), len)
             | Some w \<Rightarrow> (Inr (w \<lparr> processing := zero_processing \<lparr> list_type := PIB_SWQE_SUBMITTED \<rparr> \<rparr>), len)))"

fun post_send_loop ::
  "(u64 \<Rightarrow> nat \<Rightarrow> u8 list option) \<Rightarrow> u64 \<Rightarrow> ib_send_wr list \<Rightarrow> pib_dev \<times> pib_qp \<Rightarrow>
   errno option \<times> ib_send_wr list \<times> pib_dev \<times> pib_qp" where
  "post_send_loop cfu len [] s = (None, [], s)"
| "post_send_loop cfu len (wr # wrs) (d, qp) =
    (if qp_state qp = IB_QPS_ERR \<or> qp_state qp = IB_QPS_SQE
     then post_send_loop cfu len wrs
            (snd (pib_util_insert_wc_error (send_cq qp) qp (swr_wr_id wr) IB_WC_WR_FLUSH_ERR
                    (ib_wr_opcode_num (swr_opcode wr)) d), qp)
     else
       let (_, num_sge, _) = wr_sges d wr in
       if num_sge < 1 \<or> int (unat (cap_max_send_sge (init_cap (qp_init_attr qp)))) < num_sge
       then (Some EINVAL, wr # wrs, d, qp)
       else (case free_swqe_head (requester qp) of
           [] \<Rightarrow> (Some ENOMEM, wr # wrs, d, qp)
         | w # free \<Rightarrow>
           (case build_send_wqe cfu d qp len wr w of
              (Inl (e, w), _) \<Rightarrow> (Some e, wr # wrs, d, upd_req (free_swqe_head_update (\<lambda>_. w # free)) qp)
            | (Inr w, len) \<Rightarrow>
              post_send_loop cfu len wrs (d, upd_req (\<lambda>r. r \<lparr> free_swqe_head := free,
                submitted_swqe_head := submitted_swqe_head r @ [w], nr_submitted_swqe := nr_submitted_swqe r + 1 \<rparr>) qp))))"

definition pib_post_send ::
  "(u64 \<Rightarrow> nat \<Rightarrow> u8 list option) \<Rightarrow> ib_send_wr list \<Rightarrow> pib_dev \<times> pib_qp \<Rightarrow>
   errno option \<times> ib_send_wr list \<times> pib_dev \<times> pib_qp" where
  "pib_post_send cfu wrs s =
    (if wrs = [] then (Some EINVAL, [], s)
     else if qp_state (snd s) = IB_QPS_RESET \<or> qp_state (snd s) = IB_QPS_INIT then (Some EINVAL, wrs, s)
     else let (r, bad, s') = post_send_loop cfu 0 wrs s
          in (r, bad, if qp_state (snd s) = IB_QPS_RTS then get_ready_to_send s' else s'))"

end
