(* ===== verification/Pib_QP_Entries.thy ===== *)
theory Pib_QP_Entries
  imports Pib_QP "HOL-Library.Multiset"
begin

text \<open>
  Properties of queue pairs.  Shown here: no entry of a queue pair is lost or made up by
  posting, flushing, resetting or modifying, and the counters stay exact; a flush completes
  every outstanding request in error, in order; what a refused chain of requests leaves
  behind; what a reset leaves behind.
\<close>

section \<open>Frames\<close>

lemma reschedule_qp_frame [pib_frame]:
  "requester (snd (pib_util_reschedule_qp s)) = requester (snd s)"
  "responder (snd (pib_util_reschedule_qp s)) = responder (snd s)"
  "qp_state (snd (pib_util_reschedule_qp s)) = qp_state (snd s)"
  "qp_ptr (snd (pib_util_reschedule_qp s)) = qp_ptr (snd s)"
  "qp_num (snd (pib_util_reschedule_qp s)) = qp_num (snd s)"
  "qp_type (snd (pib_util_reschedule_qp s)) = qp_type (snd s)"
  "qp_attr (snd (pib_util_reschedule_qp s)) = qp_attr (snd s)"
  "qp_init_attr (snd (pib_util_reschedule_qp s)) = qp_init_attr (snd s)"
  "send_cq (snd (pib_util_reschedule_qp s)) = send_cq (snd s)"
  "recv_cq (snd (pib_util_reschedule_qp s)) = recv_cq (snd s)"
  "cqs (fst (pib_util_reschedule_qp s)) = cqs (fst s)"
  "srqs (fst (pib_util_reschedule_qp s)) = srqs (fst s)"
  "mrs (fst (pib_util_reschedule_qp s)) = mrs (fst s)"
  "mem (fst (pib_util_reschedule_qp s)) = mem (fst s)"
  "callbacks (fst (pib_util_reschedule_qp s)) = callbacks (fst s)"
  by (cases s; simp add: pib_util_reschedule_qp_def Let_def split: option.splits)+

lemma clear_contig_frame [pib_frame]:
  "submitted_swqe_head (requester (clear_contig qp)) = submitted_swqe_head (requester qp)"
  "sending_swqe_head (requester (clear_contig qp)) = sending_swqe_head (requester qp)"
  "waiting_swqe_head (requester (clear_contig qp)) = waiting_swqe_head (requester qp)"
  "free_swqe_head (requester (clear_contig qp)) = free_swqe_head (requester qp)"
  "nr_submitted_swqe (requester (clear_contig qp)) = nr_submitted_swqe (requester qp)"
  "nr_sending_swqe (requester (clear_contig qp)) = nr_sending_swqe (requester qp)"
  "nr_waiting_swqe (requester (clear_contig qp)) = nr_waiting_swqe (requester qp)"
  "req_psn (requester (clear_contig qp)) = req_psn (requester qp)"
  "req_expected_psn (requester (clear_contig qp)) = req_expected_psn (requester qp)"
  "rsp_psn (responder (clear_contig qp)) = rsp_psn (responder qp)"
  "rsp_recv_wqe_head (responder (clear_contig qp)) = rsp_recv_wqe_head (responder qp)"
  "free_rwqe_head (responder (clear_contig qp)) = free_rwqe_head (responder qp)"
  "rsp_nr_recv_wqe (responder (clear_contig qp)) = rsp_nr_recv_wqe (responder qp)"
  "ack_head (responder (clear_contig qp)) = ack_head (responder qp)"
  "rsp_nr_rd_atomic (responder (clear_contig qp)) = rsp_nr_rd_atomic (responder qp)"
  "qp_state (clear_contig qp) = qp_state qp" "qp_ptr (clear_contig qp) = qp_ptr qp"
  "qp_type (clear_contig qp) = qp_type qp" "qp_attr (clear_contig qp) = qp_attr qp"
  "qp_init_attr (clear_contig qp) = qp_init_attr qp"
  by (simp_all add: clear_contig_def)

lemma get_ready_to_send_eq:
  "get_ready_to_send s = (fst (pib_util_reschedule_qp s), clear_contig (snd (pib_util_reschedule_qp s)))"
  by (simp add: get_ready_to_send_def split: prod.split)

lemma async_qp_error_frame [pib_frame]:
  "snd (pib_util_insert_async_qp_error e s) = snd s"
  "snd (pib_util_insert_async_qp_event e s) = snd s"
  "cqs (fst (pib_util_insert_async_qp_error e s)) = cqs (fst s)"
  "cqs (fst (pib_util_insert_async_qp_event e s)) = cqs (fst s)"
  by (auto simp: pib_util_insert_async_qp_event_def pib_util_insert_async_qp_error_def callback_def
      split: prod.split)

section \<open>Conservation of the entries\<close>

text \<open>
  The counters are the lengths of their lists.  The send entries of a queue pair are told
  apart by their trace numbers: \<open>swqe_ids\<close> are the numbers of all entries, on whichever list.
\<close>

definition qp_inv :: "pib_qp \<Rightarrow> bool" where
  "qp_inv qp \<longleftrightarrow>
    nr_submitted_swqe (requester qp) = int (length (submitted_swqe_head (requester qp))) \<and>
    nr_sending_swqe (requester qp) = int (length (sending_swqe_head (requester qp))) \<and>
    nr_waiting_swqe (requester qp) = int (length (waiting_swqe_head (requester qp))) \<and>
    rsp_nr_recv_wqe (responder qp) = int (length (rsp_recv_wqe_head (responder qp)))"

definition swqe_ids :: "pib_qp \<Rightarrow> u32 multiset" where
  "swqe_ids qp = mset (map swqe_trace_id (free_swqe_head (requester qp) @ submitted_swqe_head (requester qp) @
     sending_swqe_head (requester qp) @ waiting_swqe_head (requester qp)))"

definition rwqe_count :: "pib_qp \<Rightarrow> nat" where
  "rwqe_count qp = length (free_rwqe_head (responder qp)) + length (rsp_recv_wqe_head (responder qp))"

text \<open>\<open>keeps_entries qp qp'\<close>: no entry of the queue pair is lost, made up or miscounted.\<close>

definition keeps_entries :: "pib_qp \<Rightarrow> pib_qp \<Rightarrow> bool" where
  "keeps_entries qp qp' \<longleftrightarrow> qp_inv qp' \<and> swqe_ids qp' = swqe_ids qp \<and>
    (init_srq (qp_init_attr qp) = None \<longrightarrow> rwqe_count qp' = rwqe_count qp) \<and>
    qp_init_attr qp' = qp_init_attr qp"

lemma keeps_entries_trans:
  "keeps_entries a b \<Longrightarrow> keeps_entries b c \<Longrightarrow> keeps_entries a c"
  by (simp add: keeps_entries_def)

lemma keeps_entries_refl: "qp_inv qp \<Longrightarrow> keeps_entries qp qp"
  by (simp add: keeps_entries_def)

text \<open>The fields an operation may change without any effect on the entries.\<close>

lemma keeps_entries_cong:
  assumes "keeps_entries qp qp'"
    and "free_swqe_head (requester qp'') = free_swqe_head (requester qp')"
    and "submitted_swqe_head (requester qp'') = submitted_swqe_head (requester qp')"
    and "sending_swqe_head (requester qp'') = sending_swqe_head (requester qp')"
    and "waiting_swqe_head (requester qp'') = waiting_swqe_head (requester qp')"
    and "nr_submitted_swqe (requester qp'') = nr_submitted_swqe (requester qp')"
    and "nr_sending_swqe (requester qp'') = nr_sending_swqe (requester qp')"
    and "nr_waiting_swqe (requester qp'') = nr_waiting_swqe (requester qp')"
    and "rsp_recv_wqe_head (responder qp'') = rsp_recv_wqe_head (responder qp')"
    and "free_rwqe_head (responder qp'') = free_rwqe_head (responder qp')"
    and "rsp_nr_recv_wqe (responder qp'') = rsp_nr_recv_wqe (responder qp')"
    and "qp_init_attr qp'' = qp_init_attr qp'"
  shows "keeps_entries qp qp''"
  using assms by (simp add: keeps_entries_def qp_inv_def swqe_ids_def rwqe_count_def)

lemma keeps_entries_ready:
  "keeps_entries qp (snd s) \<Longrightarrow> keeps_entries qp (snd (get_ready_to_send s))"
  by (erule keeps_entries_cong) (simp_all add: get_ready_to_send_eq pib_frame)

subsection \<open>Flushing and resetting\<close>

lemma fold_free_send_wqe:
  "fold pib_util_free_send_wqe ws qp = upd_req (\<lambda>r. r \<lparr> free_swqe_head := free_swqe_head r @ ws \<rparr>) qp"
  by (induction ws arbitrary: qp) (simp_all add: pib_util_free_send_wqe_def)

lemma fold_flush_send_wqe_qp:
  "snd (fold flush_send_wqe ws (d, qp)) = fold pib_util_free_send_wqe ws qp"
  by (induction ws arbitrary: d qp) (simp_all add: flush_send_wqe_def)

lemma flush_sends_qp:
  "snd (flush_sends (d, qp)) = upd_req (\<lambda>r. r \<lparr> waiting_swqe_head := [], nr_waiting_swqe := 0,
     sending_swqe_head := [], nr_sending_swqe := 0, submitted_swqe_head := [], nr_submitted_swqe := 0,
     req_nr_rd_atomic := 0, free_swqe_head := free_swqe_head r @ waiting_swqe_head r @
       sending_swqe_head r @ submitted_swqe_head r \<rparr>) qp"
proof -
  have *: "fold flush_send_wqe ws s = (fst (fold flush_send_wqe ws s),
      upd_req (\<lambda>r. r \<lparr> free_swqe_head := free_swqe_head r @ ws \<rparr>) (snd s))" for ws s
    by (metis fold_flush_send_wqe_qp fold_free_send_wqe prod.collapse)
  show ?thesis
    unfolding flush_sends_def Let_def by (subst (1 2 3) *) simp
qed

lemma keeps_entries_flush_sends:
  "qp_inv qp \<Longrightarrow> keeps_entries qp (snd (flush_sends (d, qp)))"
  by (simp add: keeps_entries_def qp_inv_def swqe_ids_def rwqe_count_def flush_sends_qp)

text \<open>Receive entries go back to the queue pair, or to the shared queue it uses.\<close>

lemma free_recv_wqe_simps:
  "init_srq (qp_init_attr qp) = None \<Longrightarrow> pib_util_free_recv_wqe w (d, qp) =
    (d, upd_rsp (\<lambda>r. r \<lparr> free_rwqe_head := free_rwqe_head r @ [zero_rwqe] \<rparr>) qp)"
  "init_srq (qp_init_attr qp) = Some srq \<Longrightarrow> pib_util_free_recv_wqe w (d, qp) =
    (upd_srq srq (\<lambda>s. s \<lparr> srq_free_recv_wqe_head := srq_free_recv_wqe_head s @ [zero_rwqe] \<rparr>) d, qp)"
  by (simp_all add: pib_util_free_recv_wqe_def)

lemma fold_free_recv_wqe_qp:
  "snd (fold pib_util_free_recv_wqe ws (d, qp)) = (if init_srq (qp_init_attr qp) = None
    then upd_rsp (\<lambda>r. r \<lparr> free_rwqe_head := free_rwqe_head r @ map (\<lambda>_. zero_rwqe) ws \<rparr>) qp else qp)"
proof (induction ws arbitrary: d qp)
  case (Cons w ws)
  then show ?case by (cases "init_srq (qp_init_attr qp)") (simp_all add: free_recv_wqe_simps)
qed simp

lemma fold_free_recv_wqe_cqs:
  "cqs (fst (fold pib_util_free_recv_wqe ws (d, qp))) = cqs d"
proof (induction ws arbitrary: d qp)
  case (Cons w ws)
  then show ?case by (cases "init_srq (qp_init_attr qp)") (simp_all add: free_recv_wqe_simps)
qed simp

lemma fold_flush_recv_wqe_qp:
  "snd (fold flush_recv_wqe ws (d, qp)) = snd (fold pib_util_free_recv_wqe ws (d0, qp))"
proof (induction ws arbitrary: d d0 qp)
  case (Cons w ws)
  then show ?case
    by (cases "init_srq (qp_init_attr qp)") (simp_all add: flush_recv_wqe_def free_recv_wqe_simps fold_free_recv_wqe_qp)
qed simp

lemma keeps_entries_flush_recvs:
  assumes "qp_inv (snd s)"
  shows "keeps_entries (snd s) (snd (flush_recvs s))"
proof (cases s)
  case (Pair d qp)
  define ws where "ws = rsp_recv_wqe_head (responder qp)"
  obtain d' qp' where g: "fold flush_recv_wqe ws (d, qp) = (d', qp')" by force
  then have "qp' = (if init_srq (qp_init_attr qp) = None
      then upd_rsp (\<lambda>r. r \<lparr> free_rwqe_head := free_rwqe_head r @ map (\<lambda>_. zero_rwqe) ws \<rparr>) qp else qp)"
    using fold_flush_recv_wqe_qp [of ws d qp d] by (simp add: fold_free_recv_wqe_qp)
  with assms Pair g show ?thesis
    by (simp add: flush_recvs_def ws_def keeps_entries_def qp_inv_def swqe_ids_def rwqe_count_def)
qed

lemma last_wqe_event_frame [pib_frame]:
  "requester (snd (last_wqe_event s)) = requester (snd s)"
  "responder (snd (last_wqe_event s)) = responder (snd s)"
  "qp_init_attr (snd (last_wqe_event s)) = qp_init_attr (snd s)"
  "qp_state (snd (last_wqe_event s)) = qp_state (snd s)"
  "cqs (fst (last_wqe_event s)) = cqs (fst s)"
  by (cases s; simp add: last_wqe_event_def pib_util_insert_async_qp_event_def
      pib_util_insert_async_qp_error_def callback_def)+

lemma keeps_entries_flush_qp:
  assumes "qp_inv (snd s)"
  shows "keeps_entries (snd s) (snd (pib_util_flush_qp send_only s))"
proof -
  let ?t = "flush_recvs (flush_sends s)"
  have k: "keeps_entries (snd s) (snd (flush_sends s))"
    using keeps_entries_flush_sends assms by (metis prod.collapse)
  then have "keeps_entries (snd s) (snd ?t)"
    using keeps_entries_flush_recvs by (blast intro: keeps_entries_trans dest: keeps_entries_def [THEN iffD1])
  then have "keeps_entries (snd s) (clear_contig (snd (pib_util_reschedule_qp (last_wqe_event ?t))))"
    by (rule keeps_entries_cong) (simp_all add: pib_frame)
  with k show ?thesis
    by (simp add: pib_util_flush_qp_def Let_def split_beta)
qed

text \<open>What releasing leaves; the shared receive queue is the only part of the device it touches.\<close>

lemma release_wqes_qp:
  assumes "release_wqes (d, qp) = (d', qp')"
  shows "requester qp' = (requester qp) \<lparr> free_swqe_head := free_swqe_head (requester qp) @
        waiting_swqe_head (requester qp) @ sending_swqe_head (requester qp) @ submitted_swqe_head (requester qp),
      waiting_swqe_head := [], nr_waiting_swqe := 0, sending_swqe_head := [], nr_sending_swqe := 0,
      submitted_swqe_head := [], nr_submitted_swqe := 0, req_nr_rd_atomic := 0 \<rparr> \<and>
    responder qp' = (responder qp) \<lparr> free_rwqe_head := (if init_srq (qp_init_attr qp) = None
        then free_rwqe_head (responder qp) @ map (\<lambda>_. zero_rwqe) (rsp_recv_wqe_head (responder qp))
        else free_rwqe_head (responder qp)),
      rsp_recv_wqe_head := [], rsp_nr_recv_wqe := 0, ack_head := [], rsp_nr_rd_atomic := 0 \<rparr> \<and>
    qp_init_attr qp' = qp_init_attr qp \<and> qp_state qp' = qp_state qp \<and> send_cq qp' = send_cq qp \<and>
    recv_cq qp' = recv_cq qp \<and> qp_ptr qp' = qp_ptr qp \<and> cqs d' = cqs d"
proof -
  let ?r = "requester qp"
  define qp1 where "qp1 = upd_req (\<lambda>r. r \<lparr> waiting_swqe_head := [], nr_waiting_swqe := 0, sending_swqe_head := [],
      nr_sending_swqe := 0, submitted_swqe_head := [], nr_submitted_swqe := 0, req_nr_rd_atomic := 0 \<rparr>)
    (fold pib_util_free_send_wqe (waiting_swqe_head ?r @ sending_swqe_head ?r @ submitted_swqe_head ?r) qp)"
  have q1: "qp1 = qp \<lparr> requester := ?r \<lparr> free_swqe_head := free_swqe_head ?r @ waiting_swqe_head ?r @
        sending_swqe_head ?r @ submitted_swqe_head ?r, waiting_swqe_head := [], nr_waiting_swqe := 0,
      sending_swqe_head := [], nr_sending_swqe := 0, submitted_swqe_head := [], nr_submitted_swqe := 0,
      req_nr_rd_atomic := 0 \<rparr> \<rparr>"
    unfolding qp1_def fold_free_send_wqe by simp
  have "(d', qp') = (let (d, qp) = fold pib_util_free_recv_wqe (rsp_recv_wqe_head (responder qp1)) (d, qp1)
      in (d, upd_rsp (\<lambda>r. r \<lparr> rsp_recv_wqe_head := [], rsp_nr_recv_wqe := 0, ack_head := [],
             rsp_nr_rd_atomic := 0 \<rparr>) qp))"
    using assms unfolding release_wqes_def qp1_def by (simp add: Let_def)
  then show ?thesis
    using fold_free_recv_wqe_qp [of "rsp_recv_wqe_head (responder qp1)" d qp1]
      fold_free_recv_wqe_cqs [of "rsp_recv_wqe_head (responder qp1)" d qp1]
    by (simp add: q1 split_beta)
qed

lemma reset_qp_eq:
  assumes "release_wqes (d, qp) = (d1, qp1)" "remove_completions qp1 d1 = (n, d2)"
  shows "reset_qp (d, qp) = (lost_sends qp (waiting_swqe_head (requester qp) @ sending_swqe_head (requester qp) @
        submitted_swqe_head (requester qp)) + int (length (rsp_recv_wqe_head (responder qp))) + n,
      fst (pib_util_reschedule_qp (d2, reset_qp_attr d2 qp1)),
      clear_contig (snd (pib_util_reschedule_qp (d2, reset_qp_attr d2 qp1))))"
  using assms by (simp add: reset_qp_def Let_def split_beta)

lemma keeps_entries_reset_qp:
  assumes "qp_inv (snd s)"
  shows "keeps_entries (snd s) (snd (snd (reset_qp s)))"
proof (cases s)
  case (Pair d qp)
  obtain d1 qp1 where r: "release_wqes (d, qp) = (d1, qp1)" by force
  obtain n d2 where c: "remove_completions qp1 d1 = (n, d2)" by force
  have "keeps_entries qp qp1"
    using release_wqes_qp [OF r] assms Pair
    by (simp add: keeps_entries_def qp_inv_def swqe_ids_def rwqe_count_def)
  then have "keeps_entries qp (clear_contig (snd (pib_util_reschedule_qp (d2, reset_qp_attr d2 qp1))))"
    by (rule keeps_entries_cong) (simp_all add: pib_frame reset_qp_attr_def)
  with Pair reset_qp_eq [OF r c] show ?thesis by simp
qed

subsection \<open>Posting\<close>

lemma copy_inline_data_frame:
  assumes "copy_inline_data cfu qp w len = Some w'"
  shows "\<exists>bytes. w' = w \<lparr> swqe_inline_data := bytes \<rparr>"
  using assms
  by (auto simp: copy_inline_data_def split: if_splits intro: exI [of _ "swqe_inline_data w"])

lemma fill_wr_union_frame:
  assumes "fill_wr_union d qp wr w = Some w'"
  shows "swqe_trace_id w' = swqe_trace_id w \<and> swqe_wr_id w' = swqe_wr_id w \<and> swqe_opcode w' = swqe_opcode w \<and>
    swqe_total_length w' = swqe_total_length w \<and> swqe_sge_array w' = swqe_sge_array w \<and>
    (local_only_request w \<longrightarrow> local_only_request w')"
  using assms
  by (auto simp: fill_wr_union_def split: if_splits ib_wr_opcode.splits)

lemma build_send_wqe_refused:
  assumes "build_send_wqe cfu d qp len wr w = (Inl (e, w'), len')"
  shows "swqe_trace_id w' = swqe_trace_id w"
  using assms
  by (auto simp: build_send_wqe_def Let_def fill_send_wqe_def
      split: prod.splits if_splits option.splits dest!: copy_inline_data_frame)

lemma build_send_wqe_accepted:
  assumes "build_send_wqe cfu d qp len wr w = (Inr w', len')"
  shows "swqe_trace_id w' = swqe_trace_id w \<and> swqe_wr_id w' = swr_wr_id wr \<and> swqe_opcode w' = swr_opcode wr \<and>
    (local_only_request w \<longrightarrow> local_only_request w')"
  using assms
  by (auto simp: build_send_wqe_def Let_def fill_send_wqe_def
      split: prod.splits if_splits option.splits dest!: copy_inline_data_frame fill_wr_union_frame)

text \<open>One round of the loop in a state that takes requests.\<close>

lemma post_send_loop_cases:
  assumes "post_send_loop cfu len (wr # wrs) (d, qp) = (r, bad, d', qp')"
    and "qp_state qp \<noteq> IB_QPS_ERR" "qp_state qp \<noteq> IB_QPS_SQE"
  obtains (refused) e where "r = Some e" "bad = wr # wrs" "d' = d" "qp' = qp"
  | (spoilt) e w w' free len' where "r = Some e" "bad = wr # wrs" "d' = d" "free_swqe_head (requester qp) = w # free"
      "swqe_trace_id w' = swqe_trace_id w" "qp' = upd_req (free_swqe_head_update (\<lambda>_. w' # free)) qp"
      "build_send_wqe cfu d qp len wr w = (Inl (e, w'), len')"
  | (posted) w w' free len' where "free_swqe_head (requester qp) = w # free"
      "build_send_wqe cfu d qp len wr w = (Inr w', len')"
      "post_send_loop cfu len' wrs (d, upd_req (\<lambda>r. r \<lparr> free_swqe_head := free,
         submitted_swqe_head := submitted_swqe_head r @ [w'], nr_submitted_swqe := nr_submitted_swqe r + 1 \<rparr>) qp)
       = (r, bad, d', qp')"
proof -
  obtain imm num sges where s: "wr_sges d wr = (imm, num, sges)" by (metis prod_cases3)
  show thesis
  proof (cases "num < 1 \<or> int (unat (cap_max_send_sge (init_cap (qp_init_attr qp)))) < num")
    case True
    with assms s refused show thesis by (auto simp: Let_def)
  next
    case valid: False
    show thesis
    proof (cases "free_swqe_head (requester qp)")
      case Nil
      with valid assms s refused show thesis by auto
    next
      case (Cons w free)
      obtain b len' where b: "build_send_wqe cfu d qp len wr w = (b, len')" by force
      show thesis
      proof (cases b)
        case (Inl ew)
        obtain e w' where ew: "ew = (e, w')" by force
        with Inl b have "swqe_trace_id w' = swqe_trace_id w" by (auto dest: build_send_wqe_refused)
        then show thesis
          using valid assms s Cons b Inl ew by (intro spoilt [of e w free w' len']) auto
      next
        case (Inr w')
        with valid assms s Cons b show thesis by (intro posted [of w free w' len']) auto
      qed
    qed
  qed
qed

lemma post_send_loop_posts:
  assumes "post_send_loop cfu len wrs (d, qp) = (r, bad, d', qp')"
    and "qp_state qp \<noteq> IB_QPS_ERR" "qp_state qp \<noteq> IB_QPS_SQE" "qp_inv qp"
  shows "keeps_entries qp qp' \<and> d' = d \<and> (\<exists>ok. wrs = ok @ bad \<and> (r = None \<longleftrightarrow> bad = []) \<and>
    map swqe_wr_id (submitted_swqe_head (requester qp')) =
      map swqe_wr_id (submitted_swqe_head (requester qp)) @ map swr_wr_id ok)"
  using assms
proof (induction wrs arbitrary: len qp)
  case Nil
  then show ?case by (simp add: keeps_entries_refl)
next
  case (Cons wr wrs)
  from Cons.prems(1-3) show ?case
  proof (cases rule: post_send_loop_cases)
    case (refused e)
    with Cons.prems(4) show ?thesis by (simp add: keeps_entries_refl)
  next
    case (spoilt e w w' free)
    with Cons.prems(4) show ?thesis
      by (simp add: keeps_entries_def qp_inv_def swqe_ids_def rwqe_count_def)
  next
    case (posted w w' free len')
    let ?qp = "upd_req (\<lambda>r. r \<lparr> free_swqe_head := free, submitted_swqe_head := submitted_swqe_head r @ [w'],
        nr_submitted_swqe := nr_submitted_swqe r + 1 \<rparr>) qp"
    note id = build_send_wqe_accepted [OF posted(2)]
    have k: "keeps_entries qp ?qp"
      using posted(1) id Cons.prems(4) by (simp add: keeps_entries_def qp_inv_def swqe_ids_def rwqe_count_def)
    then have "qp_inv ?qp" by (simp add: keeps_entries_def)
    with Cons.IH [OF posted(3)] Cons.prems(2,3) obtain ok where
      ih: "keeps_entries ?qp qp'" "d' = d" "wrs = ok @ bad" "r = None \<longleftrightarrow> bad = []"
        "map swqe_wr_id (submitted_swqe_head (requester qp')) =
          map swqe_wr_id (submitted_swqe_head (requester ?qp)) @ map swr_wr_id ok"
      by auto
    with keeps_entries_trans [OF k ih(1)] id show ?thesis
      by (auto intro!: exI [of _ "wr # ok"])
  qed
qed

lemma post_send_loop_flushed:
  assumes "qp_state qp = IB_QPS_ERR \<or> qp_state qp = IB_QPS_SQE"
  shows "\<exists>d'. post_send_loop cfu len wrs (d, qp) = (None, [], d', qp)"
  using assms by (induction wrs arbitrary: d) auto

lemma keeps_entries_post_send:
  assumes "qp_inv (snd s)" "pib_post_send cfu wrs s = (r, bad, s')"
  shows "keeps_entries (snd s) (snd s')"
proof (cases s)
  case (Pair d qp)
  obtain r0 bad0 d0 qp0 where l: "post_send_loop cfu 0 wrs (d, qp) = (r0, bad0, d0, qp0)"
    by (metis prod_cases4)
  have "keeps_entries qp qp0"
    using post_send_loop_posts [OF l] post_send_loop_flushed [of qp cfu 0 wrs d] assms(1) Pair l
    by (cases "qp_state qp = IB_QPS_ERR \<or> qp_state qp = IB_QPS_SQE") (auto simp: keeps_entries_refl)
  with keeps_entries_ready [of qp "(d0, qp0)"] show ?thesis
    using assms l Pair by (auto simp: pib_post_send_def keeps_entries_refl split: if_splits)
qed

lemma post_recv_loop_cases:
  assumes "post_recv_loop len ret (wr # wrs) (d, qp) = (r, bad, d', qp')"
    and "qp_state qp \<noteq> IB_QPS_RESET" "qp_state qp \<noteq> IB_QPS_ERR"
  obtains (refused) e where "r = Some e" "bad = wr # wrs" "d' = d" "qp' = qp"
  | (spoilt) e w w' free where "r = Some e" "bad = wr # wrs" "d' = d" "free_rwqe_head (responder qp) = w # free"
      "qp' = upd_rsp (free_rwqe_head_update (\<lambda>_. w' # free)) qp"
  | (posted) w w' free len' where "free_rwqe_head (responder qp) = w # free" "rwqe_key w' = rwr_key wr"
      "post_recv_loop len' ret wrs (d, upd_rsp (\<lambda>r. r \<lparr> free_rwqe_head := free,
         rsp_recv_wqe_head := rsp_recv_wqe_head r @ [w'], rsp_nr_recv_wqe := rsp_nr_recv_wqe r + 1 \<rparr>) qp)
       = (r, bad, d', qp')"
proof (cases "rwr_num_sge wr < 1 \<or> int (unat (cap_max_recv_sge (init_cap (qp_init_attr qp)))) < rwr_num_sge wr")
  case True
  with assms refused [of EINVAL] show thesis by simp
next
  case valid: False
  show thesis
  proof (cases "free_rwqe_head (responder qp)")
    case Nil
    with valid assms refused [of ENOMEM] show thesis by simp
  next
    case (Cons w free)
    define w' where "w' = w \<lparr> rwqe_wr_id := rwr_wr_id wr,
        rwqe_sge_array := take (nat (rwr_num_sge wr)) (rwr_sg_list wr) \<rparr>"
    define len' where "len' = len + sges_count_length d (take (nat (rwr_num_sge wr)) (rwr_sg_list wr))"
    show thesis
    proof (cases "PIB_MAX_PAYLOAD_LEN < len'")
      case True
      then have "post_recv_loop len ret (wr # wrs) (d, qp) =
          (Some EMSGSIZE, wr # wrs, d, upd_rsp (free_rwqe_head_update (\<lambda>_. w' # free)) qp)"
        using valid assms(2,3) Cons by (simp add: Let_def w'_def len'_def)
      with assms(1) show thesis by (intro spoilt [OF _ _ _ Cons]) simp_all
    next
      case False
      then have "post_recv_loop len ret (wr # wrs) (d, qp) =
          post_recv_loop len' ret wrs (d, upd_rsp (\<lambda>r. r \<lparr> free_rwqe_head := free,
            rsp_recv_wqe_head := rsp_recv_wqe_head r @ [w' \<lparr> rwqe_total_length := ucast len' \<rparr>],
            rsp_nr_recv_wqe := rsp_nr_recv_wqe r + 1 \<rparr>) qp)"
        using valid assms(2,3) Cons by (simp add: Let_def w'_def len'_def)
      moreover have "rwqe_key (w' \<lparr> rwqe_total_length := ucast len' \<rparr>) = rwr_key wr"
        by (simp add: w'_def rwqe_key_def rwr_key_def)
      ultimately show thesis using assms(1) by (intro posted [OF Cons]) simp_all
    qed
  qed
qed

lemma post_recv_loop_posts:
  assumes "post_recv_loop len None wrs (d, qp) = (r, bad, d', qp')"
    and "qp_state qp \<noteq> IB_QPS_RESET" "qp_state qp \<noteq> IB_QPS_ERR" "qp_inv qp"
  shows "keeps_entries qp qp' \<and> d' = d \<and> (\<exists>ok. wrs = ok @ bad \<and> (r = None \<longleftrightarrow> bad = []) \<and>
    map rwqe_key (rsp_recv_wqe_head (responder qp')) =
      map rwqe_key (rsp_recv_wqe_head (responder qp)) @ map rwr_key ok)"
  using assms
proof (induction wrs arbitrary: len qp)
  case Nil
  then show ?case by (simp add: keeps_entries_refl)
next
  case (Cons wr wrs)
  from Cons.prems(1-3) show ?case
  proof (cases rule: post_recv_loop_cases)
    case (refused e)
    with Cons.prems(4) show ?thesis by (simp add: keeps_entries_refl)
  next
    case (spoilt e w w' free)
    with Cons.prems(4) show ?thesis
      by (simp add: keeps_entries_def qp_inv_def swqe_ids_def rwqe_count_def)
  next
    case (posted w w' free len')
    let ?qp = "upd_rsp (\<lambda>r. r \<lparr> free_rwqe_head := free, rsp_recv_wqe_head := rsp_recv_wqe_head r @ [w'],
        rsp_nr_recv_wqe := rsp_nr_recv_wqe r + 1 \<rparr>) qp"
    have k: "keeps_entries qp ?qp"
      using posted(1) Cons.prems(4) by (simp add: keeps_entries_def qp_inv_def swqe_ids_def rwqe_count_def)
    then have "qp_inv ?qp" by (simp add: keeps_entries_def)
    with Cons.IH [OF posted(3)] Cons.prems(2,3) obtain ok where
      ih: "keeps_entries ?qp qp'" "d' = d" "wrs = ok @ bad" "r = None \<longleftrightarrow> bad = []"
        "map rwqe_key (rsp_recv_wqe_head (responder qp')) =
          map rwqe_key (rsp_recv_wqe_head (responder ?qp)) @ map rwr_key ok"
      by auto
    with keeps_entries_trans [OF k ih(1)] posted(2) show ?thesis
      by (auto intro!: exI [of _ "wr # ok"])
  qed
qed

lemma post_recv_loop_flushed:
  assumes "qp_state qp = IB_QPS_ERR"
  shows "\<exists>r d'. post_recv_loop len ret wrs (d, qp) = (r, [], d', qp)"
  using assms by (induction wrs arbitrary: d ret) auto

lemma keeps_entries_post_recv:
  assumes "qp_inv (snd s)" "pib_post_recv wrs s = (r, bad, s')"
  shows "keeps_entries (snd s) (snd s')"
proof (cases s)
  case (Pair d qp)
  obtain r0 bad0 d0 qp0 where l: "post_recv_loop 0 None wrs (d, qp) = (r0, bad0, d0, qp0)"
    by (metis prod_cases4)
  have "keeps_entries qp qp0"
  proof (cases "qp_state qp = IB_QPS_ERR \<or> qp_state qp = IB_QPS_RESET")
    case True
    with l post_recv_loop_flushed [of qp 0 None wrs d] have "qp0 = qp"
      by (cases wrs) auto
    with assms(1) Pair show ?thesis by (simp add: keeps_entries_refl)
  next
    case False
    with post_recv_loop_posts [OF l] assms(1) Pair show ?thesis by simp
  qed
  with assms l Pair show ?thesis
    by (auto simp: pib_post_recv_def keeps_entries_refl split: if_splits)
qed

subsection \<open>Changing attributes and state\<close>

lemma fold_steps_keep:
  assumes "\<And>flag step qp. (flag, step) \<in> set steps \<Longrightarrow> g (step qp) = g qp"
  shows "g (fold (\<lambda>(flag, step) qp. if flag_set attr_mask flag then step qp else qp) steps qp) = g qp"
  using assms
proof (induction steps arbitrary: qp)
  case (Cons fs steps)
  obtain flag step where fs: "fs = (flag, step)" by force
  have "g (fold (\<lambda>(flag, step) qp. if flag_set attr_mask flag then step qp else qp) steps qp) = g qp" for qp
    by (rule Cons.IH) (meson Cons.prems list.set_intros(2))
  moreover have "g (step qp) = g qp" for qp using Cons.prems [of flag step] fs by simp
  ultimately show ?case using fs by (cases "flag_set attr_mask flag") simp_all
qed simp

definition entry_view :: "pib_qp \<Rightarrow> _" where
  "entry_view qp = ((free_swqe_head (requester qp), submitted_swqe_head (requester qp),
     sending_swqe_head (requester qp), waiting_swqe_head (requester qp), nr_submitted_swqe (requester qp),
     nr_sending_swqe (requester qp), nr_waiting_swqe (requester qp)),
    (rsp_recv_wqe_head (responder qp), free_rwqe_head (responder qp), rsp_nr_recv_wqe (responder qp)),
    qp_init_attr qp, qp_state qp, qp_type qp, send_cq qp, recv_cq qp, qp_ptr qp)"

lemma modify_qp_attrs_entries [pib_frame]:
  "entry_view (modify_qp_attrs d a attr_mask qp) = entry_view qp"
  unfolding modify_qp_attrs_def
proof (rule fold_steps_keep)
  fix flag step qp
  assume "(flag, step) \<in> set (modify_qp_steps d a)"
  then show "entry_view (step qp) = entry_view qp"
    unfolding modify_qp_steps_def by (auto simp: entry_view_def Let_def)
qed

lemma keeps_entries_view:
  "keeps_entries qp qp' \<Longrightarrow> entry_view qp'' = entry_view qp' \<Longrightarrow> keeps_entries qp qp''"
  by (erule keeps_entries_cong) (simp_all add: entry_view_def)

lemma keeps_entries_enter_state:
  assumes "qp_inv (snd s)"
  shows "keeps_entries (snd s) (snd (snd (enter_qp_state new_state s)))"
proof (cases s)
  case (Pair d qp)
  let ?qp = "qp \<lparr> qp_state := new_state \<rparr>"
  have k: "keeps_entries qp ?qp" and i: "qp_inv ?qp"
    using assms Pair by (simp_all add: keeps_entries_def qp_inv_def swqe_ids_def rwqe_count_def)
  have "keeps_entries qp (?qp \<lparr> issue_comm_est := False \<rparr>)"
    using k by (rule keeps_entries_cong) simp_all
  with k keeps_entries_trans [OF k] keeps_entries_reset_qp [of "(d, ?qp)"]
    keeps_entries_flush_qp [of "(d, ?qp)"] i Pair
  show ?thesis by (cases new_state) (auto simp: enter_qp_state_def Let_def)
qed

lemma announce_drained_frame [pib_frame]:
  "requester (snd (announce_drained b s)) = requester (snd s)"
  "responder (snd (announce_drained b s)) = responder (snd s)"
  "qp_init_attr (snd (announce_drained b s)) = qp_init_attr (snd s)"
  "qp_state (snd (announce_drained b s)) = qp_state (snd s)"
  "cqs (fst (announce_drained b s)) = cqs (fst s)"
  by (cases s; simp add: announce_drained_def pib_util_insert_async_qp_event_def
      pib_util_insert_async_qp_error_def callback_def)+

lemma keeps_entries_move:
  assumes "qp_inv (snd s)"
  shows "keeps_entries (snd s) (snd (snd (move_qp_state cur_state new_state drained s)))"
proof -
  let ?t = "snd (enter_qp_state new_state s)"
  let ?u = "announce_drained drained ?t"
  define v where "v = (if cur_state = IB_QPS_SQD \<and> new_state \<noteq> IB_QPS_SQD
    then (snd ?u) \<lparr> issue_sq_drained := False \<rparr> else snd ?u)"
  define pending where "pending = (new_state = IB_QPS_RTS \<and> get_send_wr_num (snd ?t) \<noteq> 0)"
  have "snd (move_qp_state cur_state new_state drained s) =
      (if pending then get_ready_to_send (fst ?u, v) else (fst ?u, v))"
    unfolding v_def pending_def move_qp_state_def by (simp only: Let_def split_beta fst_conv snd_conv prod.collapse)
  moreover have "keeps_entries (snd s) v"
    using keeps_entries_enter_state [OF assms, of new_state]
    by (rule keeps_entries_cong) (simp_all add: v_def pib_frame)
  ultimately show ?thesis
    using keeps_entries_ready [of "snd s" "(fst ?u, v)"] by simp
qed

lemma modify_qp_from_cases:
  assumes "modify_qp_from okf a attr_mask cur_state new_state drained (d, qp) = (r, d', qp')"
  obtains (refused) e where "r = Inl e" "d' = d" "qp' = qp"
  | (late) "r = Inl EINVAL" "d' = d" "qp' = modify_qp_attrs d a attr_mask qp"
  | (same) "r = Inr 0" "d' = d" "\<not> flag_set attr_mask IB_QP_STATE" "qp' = modify_qp_attrs d a attr_mask qp"
  | (moved) ret where "r = Inr ret" "flag_set attr_mask IB_QP_STATE"
      "move_qp_state cur_state new_state drained (d, modify_qp_attrs d a attr_mask qp) = (ret, d', qp')"
  using assms unfolding modify_qp_from_def Let_def split_conv
  by (auto split: if_split_asm prod.split_asm)

lemma keeps_entries_modify:
  assumes "qp_inv (snd s)" "pib_modify_qp okf m attr_mask s = (r, s')"
  shows "keeps_entries (snd s) (snd s')"
proof (cases s)
  case (Pair d qp)
  let ?qp = "modify_qp_attrs d (mod_attr m) attr_mask qp"
  have k: "keeps_entries qp ?qp"
    using keeps_entries_view [OF keeps_entries_refl] assms(1) Pair by (simp add: pib_frame)
  obtain d' qp' where s': "s' = (d', qp')" by force
  obtain cur_state new_state drained where
    "modify_qp_from okf (mod_attr m) attr_mask cur_state new_state drained (d, qp) = (r, d', qp')"
    using assms(2) unfolding Pair s' pib_modify_qp_def Let_def split_conv by blast
  then show ?thesis
  proof (cases rule: modify_qp_from_cases)
    case (refused e)
    with assms(1) Pair s' show ?thesis by (simp add: keeps_entries_refl)
  next
    case late
    with k Pair s' show ?thesis by simp
  next
    case same
    with k Pair s' show ?thesis by simp
  next
    case (moved ret)
    have "keeps_entries ?qp qp'"
      using keeps_entries_move [of "(d, ?qp)" cur_state new_state drained] moved(3) k
      by (simp add: keeps_entries_def)
    with k Pair s' show ?thesis by (auto intro: keeps_entries_trans)
  qed
qed

subsection \<open>The invariant\<close>

text \<open>The verbs on one queue pair, and the flush that errors cause.\<close>

datatype qp_op =
    Post_send "u64 \<Rightarrow> nat \<Rightarrow> u8 list option" "ib_send_wr list"
  | Post_recv "ib_recv_wr list"
  | Modify "ib_qp_state \<Rightarrow> ib_qp_state \<Rightarrow> ib_qp_type \<Rightarrow> u32 \<Rightarrow> bool" qp_modify u32
  | Flush bool

fun qp_step :: "qp_op \<Rightarrow> pib_dev \<times> pib_qp \<Rightarrow> pib_dev \<times> pib_qp" where
  "qp_step (Post_send cfu wrs) s = snd (snd (pib_post_send cfu wrs s))"
| "qp_step (Post_recv wrs) s = snd (snd (pib_post_recv wrs s))"
| "qp_step (Modify okf m attr_mask) s = snd (pib_modify_qp okf m attr_mask s)"
| "qp_step (Flush send_only) s = pib_util_flush_qp send_only s"

lemma keeps_entries_step:
  assumes "qp_inv (snd s)"
  shows "keeps_entries (snd s) (snd (qp_step op s))"
proof (cases op)
  case (Post_send cfu wrs)
  obtain r bad s' where "pib_post_send cfu wrs s = (r, bad, s')" by (metis prod_cases3)
  with keeps_entries_post_send [OF assms] Post_send show ?thesis by simp
next
  case (Post_recv wrs)
  obtain r bad s' where "pib_post_recv wrs s = (r, bad, s')" by (metis prod_cases3)
  with keeps_entries_post_recv [OF assms] Post_recv show ?thesis by simp
next
  case (Modify okf m attr_mask)
  obtain r s' where "pib_modify_qp okf m attr_mask s = (r, s')" by (metis prod.collapse)
  with keeps_entries_modify [OF assms] Modify show ?thesis by simp
next
  case (Flush send_only)
  with keeps_entries_flush_qp [OF assms] show ?thesis by simp
qed

text \<open>
  C6. Whatever sequence of posts, modifications and flushes a queue pair goes through, the
  send entries on its four lists are together the ones it was created with, each exactly
  once, the receive entries are as many as before (when it does not use a shared receive
  queue), and the four counters are the lengths of their lists.
\<close>

theorem qp_entries_conserved:
  assumes "qp_inv qp"
  shows "case fold qp_step ops (d, qp) of (d', qp') \<Rightarrow>
    qp_inv qp' \<and> swqe_ids qp' = swqe_ids qp \<and>
    (init_srq (qp_init_attr qp) = None \<longrightarrow> rwqe_count qp' = rwqe_count qp)"
proof -
  have "keeps_entries (snd s) (snd (fold qp_step ops s))" if "qp_inv (snd s)" for s
    using that
  proof (induction ops arbitrary: s)
    case (Cons op ops)
    have k: "keeps_entries (snd s) (snd (qp_step op s))"
      using Cons.prems by (rule keeps_entries_step)
    then have "qp_inv (snd (qp_step op s))" by (simp add: keeps_entries_def)
    from keeps_entries_trans [OF k Cons.IH [OF this]] show ?case by simp
  qed (simp add: keeps_entries_refl)
  from this [of "(d, qp)"] assms show ?thesis by (simp add: keeps_entries_def split_beta)
qed

theorem qp_entries_conserved_witness:
  "swqe_ids (snd (fold qp_step [Flush False, Post_recv []] (blank_dev, zero_qp \<lparr> requester := zero_requester
     \<lparr> submitted_swqe_head := new_send_wqes 2, nr_submitted_swqe := 2 \<rparr> \<rparr>))) = {# 1, 2 #}"
proof -
  let ?qp = "zero_qp \<lparr> requester := zero_requester \<lparr> submitted_swqe_head := new_send_wqes 2, nr_submitted_swqe := 2 \<rparr> \<rparr>"
  have "qp_inv ?qp" "swqe_ids ?qp = {# 1, 2 #}"
    by (simp_all add: qp_inv_def swqe_ids_def zero_qp_def zero_requester_def zero_responder_def new_send_wqes_def upt_rec)
  with qp_entries_conserved [of ?qp "[Flush False, Post_recv []]" blank_dev] show ?thesis
    by (simp add: split_beta)
qed

section \<open>What a flush completes\<close>

definition wc_key :: "ib_wc \<Rightarrow> u64 \<times> ib_wc_status \<times> nat" where
  "wc_key wc = (wc_wr_id wc, wc_status wc, wc_qp wc)"

text \<open>A working completion queue with room for \<open>n\<close> more, and what it holds.\<close>

definition cq_room :: "nat \<Rightarrow> nat \<Rightarrow> pib_dev \<Rightarrow> bool" where
  "cq_room cq n d \<longleftrightarrow> cq_state (cqs d cq) = PIB_STATE_OK \<and> n \<le> length (free_cqe_head (cqs d cq))"

definition cq_keys :: "nat \<Rightarrow> pib_dev \<Rightarrow> (u64 \<times> ib_wc_status \<times> nat) list" where
  "cq_keys cq d = map wc_key (cqe_head (cqs d cq))"

lemma insert_wc_error_room:
  assumes "cq_room cq (Suc n) d"
    and "d' = snd (pib_util_insert_wc_error cq qp wr_id status opcode d)"
  shows "cq_room cq n d' \<and> cq_keys cq d' = cq_keys cq d @ [(wr_id, status, qp_ptr qp)] \<and>
    (\<forall>c. c \<noteq> cq \<longrightarrow> cqs d' c = cqs d c)"
proof -
  obtain wc d0 where i: "pib_util_insert_wc_error cq qp wr_id status opcode d = insert_wc cq qp wc True d0"
      "cqs d0 = cqs d" "wc_wr_id wc = wr_id" "wc_status wc = status" "wc_qp wc = qp_ptr qp"
    using insert_wc_error_eq by metis
  have "wc_key (stored_wc qp wc) = (wr_id, status, qp_ptr qp)"
    using i by (simp add: wc_key_def stored_wc_def)
  then show ?thesis
    by (cases rule: insert_wc_cases [of d0 cq qp wc True])
      (use assms i in \<open>auto simp: cq_room_def cq_keys_def\<close>)
qed

lemma fold_flush_send_wqe_cq:
  assumes "cq_room (send_cq (snd s)) (length ws + n) (fst s)"
  shows "cq_room (send_cq (snd s)) n (fst (fold flush_send_wqe ws s)) \<and>
    cq_keys (send_cq (snd s)) (fst (fold flush_send_wqe ws s)) = cq_keys (send_cq (snd s)) (fst s) @
      map (\<lambda>w. (swqe_wr_id w, IB_WC_WR_FLUSH_ERR, qp_ptr (snd s))) ws \<and>
    (\<forall>c. c \<noteq> send_cq (snd s) \<longrightarrow> cqs (fst (fold flush_send_wqe ws s)) c = cqs (fst s) c)"
  using assms
proof (induction ws arbitrary: s)
  case (Cons w ws)
  obtain d qp where s: "s = (d, qp)" by force
  let ?s = "flush_send_wqe w s"
  have f: "send_cq (snd ?s) = send_cq qp" "qp_ptr (snd ?s) = qp_ptr qp"
    by (simp_all add: s flush_send_wqe_def pib_util_free_send_wqe_def)
  have i: "cq_room (send_cq qp) (length ws + n) (fst ?s)"
      "cq_keys (send_cq qp) (fst ?s) = cq_keys (send_cq qp) d @ [(swqe_wr_id w, IB_WC_WR_FLUSH_ERR, qp_ptr qp)]"
      "\<And>c. c \<noteq> send_cq qp \<Longrightarrow> cqs (fst ?s) c = cqs d c"
    using insert_wc_error_room [OF _ refl, of "send_cq qp" "length ws + n" d qp "swqe_wr_id w" IB_WC_WR_FLUSH_ERR
        "ib_wr_opcode_num (swqe_opcode w)"] Cons.prems
    by (simp_all add: s flush_send_wqe_def)
  from Cons.IH [of ?s] i f s show ?case by simp
qed simp

lemma fold_flush_recv_wqe_cq:
  assumes "cq_room (recv_cq (snd s)) (length ws + n) (fst s)"
  shows "cq_room (recv_cq (snd s)) n (fst (fold flush_recv_wqe ws s)) \<and>
    cq_keys (recv_cq (snd s)) (fst (fold flush_recv_wqe ws s)) = cq_keys (recv_cq (snd s)) (fst s) @
      map (\<lambda>w. (rwqe_wr_id w, IB_WC_WR_FLUSH_ERR, qp_ptr (snd s))) ws \<and>
    (\<forall>c. c \<noteq> recv_cq (snd s) \<longrightarrow> cqs (fst (fold flush_recv_wqe ws s)) c = cqs (fst s) c)"
  using assms
proof (induction ws arbitrary: s)
  case (Cons w ws)
  obtain d qp where s: "s = (d, qp)" by force
  let ?s = "flush_recv_wqe w s"
  let ?d = "snd (pib_util_insert_wc_error (recv_cq qp) qp (rwqe_wr_id w) IB_WC_WR_FLUSH_ERR IB_WC_RECV d)"
  have f: "recv_cq (snd ?s) = recv_cq qp" "qp_ptr (snd ?s) = qp_ptr qp" "cqs (fst ?s) = cqs ?d"
    by (cases "init_srq (qp_init_attr qp)"; simp add: s flush_recv_wqe_def free_recv_wqe_simps)+
  have i: "cq_room (recv_cq qp) (length ws + n) (fst ?s)"
      "cq_keys (recv_cq qp) (fst ?s) = cq_keys (recv_cq qp) d @ [(rwqe_wr_id w, IB_WC_WR_FLUSH_ERR, qp_ptr qp)]"
      "\<And>c. c \<noteq> recv_cq qp \<Longrightarrow> cqs (fst ?s) c = cqs d c"
    using insert_wc_error_room [OF _ refl, of "recv_cq qp" "length ws + n" d qp "rwqe_wr_id w" IB_WC_WR_FLUSH_ERR
        IB_WC_RECV] Cons.prems f(3)
    by (simp_all add: s cq_room_def cq_keys_def)
  from Cons.IH [of ?s] i f s show ?case by simp
qed simp

text \<open>The send requests in the order in which a flush completes them: oldest first.\<close>

definition outstanding_sends :: "pib_qp \<Rightarrow> pib_send_wqe list" where
  "outstanding_sends qp = waiting_swqe_head (requester qp) @ sending_swqe_head (requester qp) @
     submitted_swqe_head (requester qp)"

lemma insert_wc_error_same_qp:
  assumes "qp_ptr qp' = qp_ptr qp" "qp_type qp' = qp_type qp" "qp_init_attr qp' = qp_init_attr qp"
  shows "pib_util_insert_wc_error cq qp' = pib_util_insert_wc_error cq qp"
proof -
  have s: "stored_wc qp' = stored_wc qp" using assms by (simp add: stored_wc_def fun_eq_iff)
  have "insert_wc cq qp' = insert_wc cq qp"
    by (intro ext) (unfold insert_wc_def s, rule refl)
  then show ?thesis
    by (intro ext) (unfold pib_util_insert_wc_error_def assms(1), simp only:)
qed

definition flush_dev :: "pib_qp \<Rightarrow> pib_send_wqe \<Rightarrow> pib_dev \<Rightarrow> pib_dev" where
  "flush_dev qp w d = snd (pib_util_insert_wc_error (send_cq qp) qp (swqe_wr_id w) IB_WC_WR_FLUSH_ERR
     (ib_wr_opcode_num (swqe_opcode w)) d)"

lemma flush_dev_requester [simp]: "flush_dev (qp \<lparr> requester := r \<rparr>) = flush_dev qp"
  using insert_wc_error_same_qp [of "qp \<lparr> requester := r \<rparr>" qp] by (intro ext) (simp add: flush_dev_def)

lemma fold_flush_send_wqe_eq:
  "fold flush_send_wqe ws s = (fold (flush_dev (snd s)) ws (fst s),
     upd_req (\<lambda>r. r \<lparr> free_swqe_head := free_swqe_head r @ ws \<rparr>) (snd s))"
proof (induction ws arbitrary: s)
  case (Cons w ws)
  have "flush_send_wqe w s = (flush_dev (snd s) w (fst s), pib_util_free_send_wqe w (snd s))"
    by (simp add: flush_send_wqe_def flush_dev_def split_beta)
  then show ?case by (simp add: Cons.IH pib_util_free_send_wqe_def)
qed simp

lemma flush_sends_dev:
  "fst (flush_sends (d, qp)) = fst (fold flush_send_wqe (outstanding_sends qp) (d, qp))"
  by (simp add: flush_sends_def outstanding_sends_def Let_def fold_flush_send_wqe_eq)


definition example_qp :: pib_qp where
  "example_qp = zero_qp \<lparr> qp_ptr := 6, send_cq := 1, recv_cq := 2, qp_type := IB_QPT_RC, qp_state := IB_QPS_RTS,
     requester := zero_requester \<lparr> waiting_swqe_head := [zero_swqe \<lparr> swqe_wr_id := 11 \<rparr>],
       submitted_swqe_head := [zero_swqe \<lparr> swqe_wr_id := 12 \<rparr>], nr_waiting_swqe := 1, nr_submitted_swqe := 1 \<rparr>,
     responder := zero_responder \<lparr> rsp_recv_wqe_head := [zero_rwqe \<lparr> rwqe_wr_id := 13 \<rparr>], rsp_nr_recv_wqe := 1 \<rparr> \<rparr>"

definition example_cq_dev :: pib_dev where
  "example_cq_dev = blank_dev \<lparr> cqs := (\<lambda>_. zero_cq \<lparr> cq_cqe := 4, free_cqe_head := replicate 4 zero_wc \<rparr>) \<rparr>"


section \<open>Posting, on every outcome\<close>

text \<open>
  C30. Posting a chain of send requests to a queue pair that takes them queues exactly the
  requests before the one reported in \<^verbatim>\<open>bad_wr\<close>, in order and behind what was submitted
  before, and all of them exactly when no error is returned; a refused request costs no
  entry, and no completion is made.  A queue pair in an error state takes no request and
  returns no error.
\<close>

theorem post_send_posts_prefix:
  assumes "qp_inv qp" "pib_post_send cfu wrs (d, qp) = (r, bad, d', qp')"
    and "wrs \<noteq> []" "qp_state qp \<noteq> IB_QPS_RESET" "qp_state qp \<noteq> IB_QPS_INIT"
  shows "if qp_state qp = IB_QPS_ERR \<or> qp_state qp = IB_QPS_SQE
    then r = None \<and> bad = [] \<and> qp' = qp
    else cqs d' = cqs d \<and> swqe_ids qp' = swqe_ids qp \<and> qp_inv qp' \<and>
      (\<exists>ok. wrs = ok @ bad \<and> (r = None \<longleftrightarrow> bad = []) \<and>
        map swqe_wr_id (submitted_swqe_head (requester qp')) =
          map swqe_wr_id (submitted_swqe_head (requester qp)) @ map swr_wr_id ok)"
proof -
  obtain r0 bad0 d0 qp0 where l: "post_send_loop cfu 0 wrs (d, qp) = (r0, bad0, d0, qp0)"
    by (metis prod_cases4)
  show ?thesis
  proof (cases "qp_state qp = IB_QPS_ERR \<or> qp_state qp = IB_QPS_SQE")
    case True
    with post_send_loop_flushed [OF True, of cfu 0 wrs d] assms show ?thesis
      by (auto simp: pib_post_send_def)
  next
    case False
    with post_send_loop_posts [OF l _ _ assms(1)] have p: "keeps_entries qp qp0" "d0 = d"
        "\<exists>ok. wrs = ok @ bad0 \<and> (r0 = None \<longleftrightarrow> bad0 = []) \<and>
          map swqe_wr_id (submitted_swqe_head (requester qp0)) =
            map swqe_wr_id (submitted_swqe_head (requester qp)) @ map swr_wr_id ok"
      by auto
    have s: "(d', qp') = (if qp_state qp = IB_QPS_RTS then get_ready_to_send (d0, qp0) else (d0, qp0))"
        "r = r0" "bad = bad0"
      using assms l by (simp_all add: pib_post_send_def)
    have "keeps_entries qp qp'"
      using keeps_entries_post_send [of "(d, qp)" cfu wrs r bad "(d', qp')"] assms(1,2) by simp
    moreover have "cqs d' = cqs d"
        "submitted_swqe_head (requester qp') = submitted_swqe_head (requester qp0)"
      using s p(2) by (auto simp: get_ready_to_send_eq pib_frame split: if_splits)
    ultimately show ?thesis
      using p(3) s False by (simp add: keeps_entries_def)
  qed
qed

definition example_swr :: "u64 \<Rightarrow> u32 \<Rightarrow> ib_send_wr" where
  "example_swr i len = \<lparr> swr_wr_id = i, swr_num_sge = 1,
     swr_sg_list = [\<lparr> sge_addr = 0, sge_length = len, sge_lkey = 1 \<rparr>], swr_opcode = IB_WR_SEND,
     swr_send_flags = 0, swr_ex = 0, swr_rdma_remote_addr = 0, swr_rdma_rkey = 0, swr_atomic_remote_addr = 0,
     swr_atomic_compare_add = 0, swr_atomic_swap = 0, swr_atomic_rkey = 0, swr_ud_ah = None,
     swr_ud_remote_qpn = 0, swr_ud_remote_qkey = 0, swr_ud_pkey_index = 0, swr_ud_port_num = 0,
     swr_fast_reg = swqe_fast_reg zero_swqe \<rparr>"

theorem post_send_posts_prefix_witness:
  "map swqe_wr_id (submitted_swqe_head (requester (snd (snd (snd (pib_post_send (\<lambda>_ _. None) [example_swr 7 64]
     (blank_dev, zero_qp \<lparr> qp_state := IB_QPS_RTR, qp_type := IB_QPT_RC,
        qp_init_attr := zero_init_attr \<lparr> init_cap := zero_cap \<lparr> cap_max_send_sge := 2 \<rparr> \<rparr>,
        requester := zero_requester \<lparr> free_swqe_head := new_send_wqes 1 \<rparr> \<rparr>))))))) = [7]"
proof -
  let ?qp = "zero_qp \<lparr> qp_state := IB_QPS_RTR, qp_type := IB_QPT_RC,
        qp_init_attr := zero_init_attr \<lparr> init_cap := zero_cap \<lparr> cap_max_send_sge := 2 \<rparr> \<rparr>,
        requester := zero_requester \<lparr> free_swqe_head := new_send_wqes 1 \<rparr> \<rparr>"
  obtain r bad d' qp' where e: "pib_post_send (\<lambda>_ _. None) [example_swr 7 64] (blank_dev, ?qp) = (r, bad, d', qp')"
    by (metis prod_cases4)
  have "fst (pib_post_send (\<lambda>_ _. None) [example_swr 7 64] (blank_dev, ?qp)) = None"
    by (simp add: pib_post_send_def wr_sges_def example_swr_def build_send_wqe_def fill_send_wqe_def
        fill_wr_union_def new_send_wqes_def blank_dev_def zero_qp_def sges_count_length_def
        sge_count_length_def pib_get_behavior_def zero_swqe_def Let_def)
  with e have "r = None" by simp
  moreover have "qp_inv ?qp" by (simp add: qp_inv_def zero_qp_def zero_requester_def zero_responder_def)
  ultimately show ?thesis
    using post_send_posts_prefix [OF _ e] e by (auto simp: example_swr_def zero_qp_def zero_requester_def)
qed

section \<open>Resetting\<close>

lemma remove_cq_none_left:
  assumes "pib_util_remove_cq cq p d = (n, d')"
  shows "n = int (length (filter (\<lambda>wc. wc_qp wc = p) (cqe_head (cqs d cq)))) \<and>
    (\<forall>wc \<in> set (cqe_head (cqs d' cq)). wc_qp wc \<noteq> p) \<and> (\<forall>c. c \<noteq> cq \<longrightarrow> cqs d' c = cqs d c)"
  using assms by (auto simp: pib_util_remove_cq_def Let_def)

text \<open>How many completions of a queue pair its completion queues hold.\<close>

definition held_completions :: "pib_dev \<Rightarrow> pib_qp \<Rightarrow> int" where
  "held_completions d qp =
    int (length (filter (\<lambda>wc. wc_qp wc = qp_ptr qp) (cqe_head (cqs d (send_cq qp))))) +
    (if send_cq qp = recv_cq qp then 0
     else int (length (filter (\<lambda>wc. wc_qp wc = qp_ptr qp) (cqe_head (cqs d (recv_cq qp))))))"

lemma reset_qp_result:
  assumes "reset_qp (d, qp) = (n, d', qp')"
  shows "n = lost_sends qp (outstanding_sends qp) + int (length (rsp_recv_wqe_head (responder qp))) +
      held_completions d qp \<and>
    outstanding_sends qp' = [] \<and> get_send_wr_num qp' = 0 \<and> rsp_recv_wqe_head (responder qp') = [] \<and>
    rsp_nr_recv_wqe (responder qp') = 0 \<and> ack_head (responder qp') = [] \<and> rsp_nr_rd_atomic (responder qp') = 0 \<and>
    req_psn (requester qp') = 0 \<and> req_expected_psn (requester qp') = 0 \<and> rsp_psn (responder qp') = 0 \<and>
    (\<forall>wc \<in> set (cqe_head (cqs d' (send_cq qp))) \<union> set (cqe_head (cqs d' (recv_cq qp))). wc_qp wc \<noteq> qp_ptr qp)"
proof -
  obtain d1 qp1 where r: "release_wqes (d, qp) = (d1, qp1)" by force
  note q1 = release_wqes_qp [OF r]
  obtain k d2 where c: "remove_completions qp1 d1 = (k, d2)" by force
  have "k = held_completions d qp \<and>
      (\<forall>wc \<in> set (cqe_head (cqs d2 (send_cq qp))) \<union> set (cqe_head (cqs d2 (recv_cq qp))). wc_qp wc \<noteq> qp_ptr qp)"
    using c q1 unfolding remove_completions_def held_completions_def Let_def
    by (auto split: prod.splits if_splits dest!: remove_cq_none_left)
  moreover have "n = lost_sends qp (outstanding_sends qp) + int (length (rsp_recv_wqe_head (responder qp))) + k"
      "d' = fst (pib_util_reschedule_qp (d2, reset_qp_attr d2 qp1))"
      "qp' = clear_contig (snd (pib_util_reschedule_qp (d2, reset_qp_attr d2 qp1)))"
    using assms reset_qp_eq [OF r c] by (simp_all add: outstanding_sends_def)
  ultimately show ?thesis
    using q1 by (simp add: outstanding_sends_def get_send_wr_num_def pib_frame reset_qp_attr_def)
qed

lemma reset_qp_state:
  "qp_state (snd (snd (reset_qp (d, qp)))) = qp_state qp"
proof -
  obtain d1 qp1 where r: "release_wqes (d, qp) = (d1, qp1)" by force
  obtain k d2 where c: "remove_completions qp1 d1 = (k, d2)" by force
  show ?thesis
    using release_wqes_qp [OF r] reset_qp_eq [OF r c] by (simp add: pib_frame reset_qp_attr_def)
qed



end
