(* ===== verification/Pib_QP_Create.thy ===== *)
theory Pib_QP_Create
  imports Pib_QP_Entries
begin

text \<open>
  Creation and destruction of queue pairs: the number bitmap, the number table, the list
  of queue pairs and the counter of the device stay in step, also when an allocation fails
  half way; and what a failed creation of a special queue pair leaves behind.
\<close>

section \<open>The registry of queue pairs\<close>

text \<open>
  A queue pair in the table has its number marked in the bitmap and is in the list; the
  table is sorted; no pointer in use will be handed out again; the numbers of the special
  queue pairs are never given out.
\<close>

definition qp_registry :: "pib_dev \<Rightarrow> bool" where
  "qp_registry d \<longleftrightarrow> qp_table_inv (qp_table d) \<and>
    (\<forall>(k, p) \<in> set_tree (qp_table d). obj_num_bitmap d (PIB_BITMAP_QP_START + unat k) \<and>
       p \<in> set (obj_head (qp_list d))) \<and>
    (\<forall>p \<in> set (obj_head (qp_list d)). p < next_ptr d) \<and> distinct (obj_head (qp_list d)) \<and>
    inj_on snd (set_tree (qp_table d)) \<and>
    obj_num_bitmap d (PIB_BITMAP_QP_START + PIB_QP1)"

lemma kmem_twice:
  assumes "\<exists>bs. d1 = d \<lparr> kmem := bs \<rparr>" "\<exists>bs. d2 = d1 \<lparr> kmem := bs \<rparr>"
  shows "\<exists>bs. d2 = d \<lparr> kmem := bs \<rparr>"
  using assms by auto

lemma kmem_same: "\<exists>bs. d = d \<lparr> kmem := bs \<rparr>"
  by (rule exI [of _ "kmem d"]) simp

lemma alloc_qp_entries_frame:
  assumes "alloc_qp_entries cap d = (ok, d')"
  shows "\<exists>bs. d' = d \<lparr> kmem := bs \<rparr>"
proof -
  define p where "p = (if cap_max_inline_data cap > 0
    then (if cap_max_inline_data cap * cap_max_send_wr cap = 0 then (False, d) else kmem_alloc d) else (True, d))"
  obtain b d1 where k: "p = (b, d1)" by force
  then have k1: "\<exists>bs. d1 = d \<lparr> kmem := bs \<rparr>"
    using kmem_alloc_frame [of d b d1] kmem_same [of d] by (auto simp: p_def split: if_splits)
  obtain b2 d2 where e: "alloc_entries (unat (cap_max_send_wr cap)) d1 = (b2, d2)" by force
  note k2 = kmem_twice [OF k1 alloc_entries_frame [OF e]]
  have "(ok, d') = (case (b, d1) of (False, d) \<Rightarrow> (False, d) | (True, d) \<Rightarrow>
      (case alloc_entries (unat (cap_max_send_wr cap)) d of (False, d) \<Rightarrow> (False, d)
       | (True, d) \<Rightarrow> alloc_entries (unat (cap_max_recv_wr cap)) d))"
    using assms unfolding alloc_qp_entries_def p_def [symmetric] k [symmetric] by simp
  then show ?thesis
    using k1 k2 kmem_twice [OF k2 alloc_entries_frame, of "unat (cap_max_recv_wr cap)" ok d']
    by (cases b; cases b2) (simp_all add: e)
qed

text \<open>Finding a number: the bitmap had it free and the table did not know it.\<close>

lemma register_qp_cases:
  assumes "register_qp ptr d = (on, d')" "qp_registry d" "ptr \<notin> set (obj_head (qp_list d))"
  obtains (none) l where "on = None" "d' = d \<lparr> qp_list := (qp_list d) \<lparr> last_num := l \<rparr> \<rparr>"
  | (num) n where "on = Some n" "unat (of_nat n :: u32) = n" "n \<noteq> PIB_QP0" "n \<noteq> PIB_QP1"
      "(of_nat n :: u32) < 0x1000000" "find_qp_node (qp_table d) (of_nat n) = None"
      "\<not> obj_num_bitmap d (PIB_BITMAP_QP_START + n)"
      "d' = d \<lparr> obj_num_bitmap := (obj_num_bitmap d)(PIB_BITMAP_QP_START + n := True),
         qp_list := \<lparr> last_num = n, nr_obj = nr_obj (qp_list d) + 1, obj_head = obj_head (qp_list d) @ [ptr] \<rparr>,
         qp_table := insert_qp (of_nat n) ptr (qp_table d) \<rparr>"
proof -
  define l where "l = (if pib_get_behavior d PIB_BEHAVIOR_QPN_REALLOCATION then PIB_QP1 + 1 else last_num (qp_list d))"
  have d1: "(if pib_get_behavior d PIB_BEHAVIOR_QPN_REALLOCATION
      then d \<lparr> qp_list := (qp_list d) \<lparr> last_num := PIB_QP1 + 1 \<rparr> \<rparr> else d) =
      d \<lparr> qp_list := (qp_list d) \<lparr> last_num := l \<rparr> \<rparr>"
    by (simp add: l_def)
  obtain a bm k where a: "pib_alloc_obj_num PIB_BITMAP_QP_START PIB_MAX_QP (obj_num_bitmap d, l) = (a, bm, k)"
    by (metis prod_cases3)
  have e: "(on, d') = (case a of None \<Rightarrow> (None, d \<lparr> qp_list := (qp_list d) \<lparr> last_num := l \<rparr> \<rparr>)
     | Some n \<Rightarrow> (Some n, d \<lparr> obj_num_bitmap := bm,
         qp_list := \<lparr> last_num = n, nr_obj = nr_obj (qp_list d) + 1, obj_head = obj_head (qp_list d) @ [ptr] \<rparr>,
         qp_table := insert_qp (of_nat n) ptr (qp_table d) \<rparr>))"
    using assms(1) a unfolding register_qp_def d1 by (cases a) auto
  show ?thesis
  proof (cases a)
    case None
    with e show ?thesis by (intro none) simp_all
  next
    case (Some n)
    note al = alloc_obj_num_Some [OF a [unfolded Some]]
    have n: "n < 0x1000000" "n \<noteq> 0" "\<not> obj_num_bitmap d (PIB_BITMAP_QP_START + n)"
      using al(1) by (auto simp: used_nums_def)
    then have u: "unat (of_nat n :: u32) = n" by (simp add: unat_of_nat_small)
    moreover have v: "(of_nat n :: u32) < 0x1000000" using n(1) u by (simp add: word_less_nat_alt)
    moreover have "n \<noteq> PIB_QP1" using n(3) assms(2) by (auto simp: qp_registry_def)
    moreover have "find_qp_node (qp_table d) (of_nat n) = None"
    proof (rule ccontr)
      assume "find_qp_node (qp_table d) (of_nat n) \<noteq> None"
      then obtain p where "(of_nat n, p) \<in> set_tree (qp_table d)"
        using find_qp_node_spec [OF _ v] assms(2) by (auto simp: qp_registry_def)
      then show False using assms(2) n(3) u by (auto simp: qp_registry_def)
    qed
    ultimately show ?thesis using e Some al(2) n by (intro num [of n]) simp_all
  qed
qed

lemma registry_extend:
  assumes "qp_registry d" "find_qp_node (qp_table d) k = None" "k < 0x1000000" "ptr \<notin> set (obj_head (qp_list d))"
    and "qp_table d' = insert_qp k ptr (qp_table d)" "obj_head (qp_list d') = obj_head (qp_list d) @ [ptr]"
    and "obj_num_bitmap d' = (obj_num_bitmap d)(PIB_BITMAP_QP_START + unat k := True)"
    and "next_ptr d' \<ge> next_ptr d" "ptr < next_ptr d'"
  shows "qp_registry d'"
proof -
  have "qp_table_inv (qp_table d')"
    using assms qptable.insert_inv by (simp add: qp_registry_def)
  moreover have "set_tree (qp_table d') = insert (k, ptr) (set_tree (qp_table d))"
    using assms(5) by (simp add: insert_qp_def)
  ultimately show ?thesis
    using assms unfolding qp_registry_def by (auto intro: less_le_trans)
qed

lemma registry_same_lookups:
  assumes "qp_registry d" "k < 0x1000000" "find_qp_node (qp_table d) k = None" "ptr \<notin> set (obj_head (qp_list d))"
    and "k' < 0x1000000"
  shows "find_qp_node (erase_qp ptr (insert_qp k ptr (qp_table d))) k' = find_qp_node (qp_table d) k'"
proof (rule qptable.erase_insert)
  fix k'' :: u32 assume "k'' < 0x1000000"
  then show "find_qp_node (qp_table d) k'' \<noteq> Some ptr"
    using assms(1,4) find_qp_node_spec [of "qp_table d" k'' ptr] by (auto simp: qp_registry_def)
qed (use assms in \<open>simp_all add: qp_registry_def\<close>)

lemma registry_unregister:
  assumes "qp_registry d" "k < 0x1000000" "find_qp_node (qp_table d) k = None" "ptr \<notin> set (obj_head (qp_list d))"
    and "qp_table d' = erase_qp ptr (insert_qp k ptr (qp_table d))" "obj_head (qp_list d') = obj_head (qp_list d)"
    and "obj_num_bitmap d' = obj_num_bitmap d" "next_ptr d' \<ge> next_ptr d"
  shows "qp_registry d'"
proof -
  have "qp_table_inv (qp_table d')"
    using assms qptable.insert_inv qptable.erase_inv by (simp add: qp_registry_def)
  moreover have "set_tree (qp_table d') \<subseteq> set_tree (qp_table d)"
    using assms(5) by (auto simp: insert_qp_def erase_qp_def)
  ultimately show ?thesis
    using assms unfolding qp_registry_def by (fastforce intro: less_le_trans inj_on_subset)
qed

text \<open>
  C17. Creating a connected or datagram queue pair either gives an idle queue pair with as
  many send and receive entries as were asked for, all free, under a number that was unused
  and under which it is found from then on; or it reports an error, and then no number is
  taken, every number finds what it found before, and the list and the counter of queue
  pairs are as before, whichever allocation failed.  Table, bitmap and list stay in step.
\<close>

theorem create_qp_all_or_nothing:
  assumes "pib_create_qp pd init handler d = (r, d')" "init_qp_type init \<in> {IB_QPT_RC, IB_QPT_UD}" "qp_registry d"
  shows "qp_registry d' \<and> (case r of
      Inl e \<Rightarrow> e \<in> {EINVAL, ENOMEM} \<and> obj_num_bitmap d' = obj_num_bitmap d \<and>
        obj_head (qp_list d') = obj_head (qp_list d) \<and> nr_obj (qp_list d') = nr_obj (qp_list d) \<and>
        (\<forall>k < 0x1000000. pib_util_find_qp d' k = pib_util_find_qp d k)
    | Inr p \<Rightarrow> p \<notin> set (obj_head (qp_list d)) \<and> obj_head (qp_list d') = obj_head (qp_list d) @ [p] \<and>
        nr_obj (qp_list d') = nr_obj (qp_list d) + 1 \<and>
        (let qp = qps d' p in qp_ptr qp = p \<and> qp_inv qp \<and> qp_state qp = IB_QPS_RESET \<and>
          length (free_swqe_head (requester qp)) = unat (cap_max_send_wr (init_cap init)) \<and>
          rwqe_count qp = unat (cap_max_recv_wr (init_cap init)) \<and> outstanding_sends qp = [] \<and>
          pib_util_find_qp d (qp_num qp) = None \<and>
          (\<forall>k < 0x1000000. pib_util_find_qp d' k = (if k = qp_num qp then Some p else pib_util_find_qp d k))))"
proof -
  let ?ptr = "next_ptr d"
  have fresh: "?ptr \<notin> set (obj_head (qp_list d))" using assms(3) by (auto simp: qp_registry_def)
  obtain ok d1 where k: "kmem_alloc d = (ok, d1)" by force
  then obtain bs where d1: "d1 = d \<lparr> kmem := bs \<rparr>" by (metis kmem_alloc_frame)
  define d2 where "d2 = d1 \<lparr> next_ptr := Suc ?ptr \<rparr>"
  have reg2: "qp_registry d2" using assms(3) by (auto simp: d1 d2_def qp_registry_def less_Suc_eq)
  have fresh2: "?ptr \<notin> set (obj_head (qp_list d2))" using fresh by (simp add: d1 d2_def)
  obtain on d3 where r: "register_qp ?ptr d2 = (on, d3)" by force
  have refused: ?thesis if "r = Inl e" "e \<in> {EINVAL, ENOMEM}" "qp_registry d'" "qp_table d' = qp_table d"
      "obj_num_bitmap d' = obj_num_bitmap d" "obj_head (qp_list d') = obj_head (qp_list d)"
      "nr_obj (qp_list d') = nr_obj (qp_list d)" for e
    using that by (simp add: pib_util_find_qp_def)
  let ?bad = "\<not> qp_init_attr_is_ok d init \<or>
    (case init_srq init of Some srq \<Rightarrow> pd \<noteq> srq_pd (srqs d srq) | None \<Rightarrow> False)"
  show ?thesis
  proof (cases "?bad \<or> \<not> ok")
    case True
    with assms(1) obtain e where "r = Inl e" "e \<in> {EINVAL, ENOMEM}" "d' = d \<or> d' = d1"
      by (auto simp: pib_create_qp_def k split: if_splits)
    moreover have "qp_registry d1" using assms(3) by (simp add: d1 qp_registry_def)
    ultimately show ?thesis using assms(3) by (intro refused [of e]) (auto simp: d1)
  next
    case ok: False
    then have "(r, d') = (case register_qp (next_ptr d1) (d1 \<lparr> next_ptr := Suc (next_ptr d1) \<rparr>) of
          (None, d) \<Rightarrow> (Inl ENOMEM, d)
        | (Some num, d) \<Rightarrow> finish_create_qp
            (new_qp (d1 \<lparr> next_ptr := Suc (next_ptr d1) \<rparr>) (next_ptr d1) pd init handler) num True d)"
      using assms(1,2) by (auto simp: pib_create_qp_def k Let_def)
    moreover have np: "next_ptr d1 = ?ptr" by (simp add: d1)
    ultimately have c: "(r, d') = (case register_qp ?ptr d2 of (None, d) \<Rightarrow> (Inl ENOMEM, d)
        | (Some num, d) \<Rightarrow> finish_create_qp (new_qp d2 ?ptr pd init handler) num True d)"
      unfolding d2_def np by simp
    from r reg2 fresh2 show ?thesis
    proof (cases rule: register_qp_cases)
      case (none l)
      with c r reg2 show ?thesis by (intro refused [of ENOMEM]) (simp_all add: d1 d2_def qp_registry_def)
    next
      case (num n)
      obtain b d4 where e: "alloc_qp_entries (init_cap init) d3 = (b, d4)" by force
      then obtain bs' where d4: "d4 = d3 \<lparr> kmem := bs' \<rparr>" by (metis alloc_qp_entries_frame)
      have i: "qp_init_attr (new_qp d2 ?ptr pd init handler) = init" "qp_ptr (new_qp d2 ?ptr pd init handler) = ?ptr"
        by (simp_all add: new_qp_def reset_qp_attr_def)
      note f = num(5,6) fresh2 and eq = num(1,8) d1 d2_def d4
      show ?thesis
      proof (cases b)
        case False
        with c r e i have x: "r = Inl ENOMEM" "d' = unregister_qp n ?ptr True d4"
          by (simp_all add: num(1) finish_create_qp_def)
        have u: "qp_table d' = erase_qp ?ptr (insert_qp (of_nat n) ?ptr (qp_table d2))"
            "obj_head (qp_list d') = obj_head (qp_list d2)" "nr_obj (qp_list d') = nr_obj (qp_list d2)"
            "obj_num_bitmap d' = obj_num_bitmap d2" "next_ptr d' = next_ptr d2"
          using num(3,4,7) fresh2
          by (simp_all add: x(2) unregister_qp_def Let_def eq pib_dealloc_obj_num_def remove1_append fun_upd_idem)
        have "qp_registry d'"
          using registry_unregister [OF reg2 f(1,2,3) u(1,2,4)] u(5) by simp
        then show ?thesis
          using x(1) u registry_same_lookups [OF reg2 f] by (simp add: pib_util_find_qp_def d1 d2_def)
      next
        case True
        with c r e i have x: "r = Inr ?ptr" "d' = d4 \<lparr> qps := (qps d4)(?ptr := (new_qp d2 ?ptr pd init handler)
            \<lparr> qp_num := of_nat n,
              requester := (requester (new_qp d2 ?ptr pd init handler)) \<lparr> free_swqe_head :=
                new_send_wqes (unat (cap_max_send_wr (init_cap init))) \<rparr>,
              responder := (responder (new_qp d2 ?ptr pd init handler)) \<lparr> free_rwqe_head :=
                replicate (unat (cap_max_recv_wr (init_cap init))) zero_rwqe \<rparr> \<rparr>) \<rparr>"
          by (simp_all add: num(1) finish_create_qp_def)
        have "qp_registry d'"
          using registry_extend [OF reg2 f(2,1,3), of d'] num(2) by (simp add: x(2) eq)
        moreover have "find_qp_node (qp_table d') k = (if k = of_nat n then Some ?ptr else find_qp_node (qp_table d2) k)"
          if "k < 0x1000000" for k
          using qptable.find_insert [of "qp_table d2" "of_nat n" k ?ptr] that f reg2
          by (simp add: x(2) eq qp_registry_def)
        ultimately show ?thesis
          using fresh f(2)
          by (simp add: x eq new_qp_def reset_qp_attr_def qp_inv_def rwqe_count_def outstanding_sends_def
              new_send_wqes_def pib_util_find_qp_def zero_qp_def zero_requester_def zero_responder_def)
      qed
    qed
  qed
qed

definition example_init :: ib_qp_init_attr where
  "example_init = zero_init_attr \<lparr> init_qp_type := IB_QPT_RC, init_send_cq := Some 1, init_recv_cq := Some 1,
     init_cap := zero_cap \<lparr> cap_max_send_wr := 1, cap_max_recv_wr := 1, cap_max_recv_sge := 1 \<rparr> \<rparr>"

definition example_reg_dev :: pib_dev where
  "example_reg_dev = blank_dev \<lparr> obj_num_bitmap := setup_obj_num_bitmap (\<lambda>_. False), kmem := [True, True, False] \<rparr>"

lemma example_registry: "qp_registry example_reg_dev"
  by (simp add: qp_registry_def example_reg_dev_def blank_dev_def empty_list_def setup_obj_num_bitmap_def qp_table_inv_def)

theorem create_qp_all_or_nothing_witness:
  "\<exists>r d'. pib_create_qp 0 example_init False example_reg_dev = (r, d') \<and> qp_registry d' \<and>
     (case r of Inl e \<Rightarrow> obj_num_bitmap d' = obj_num_bitmap example_reg_dev | Inr p \<Rightarrow> qp_inv (qps d' p))"
proof -
  obtain r d' where c: "pib_create_qp 0 example_init False example_reg_dev = (r, d')" by force
  have "init_qp_type example_init \<in> {IB_QPT_RC, IB_QPT_UD}" by (simp add: example_init_def)
  from create_qp_all_or_nothing [OF c this example_registry] c show ?thesis
    by (auto simp: Let_def split: sum.splits)
qed


section \<open>Destruction\<close>

text \<open>The parts of the device that resetting a queue pair leaves alone.\<close>

definition registry_view where
  "registry_view d = (qp_table d, qp_list d, obj_num_bitmap d, next_ptr d, mcast_table d, ports d)"

lemma reschedule_view [pib_frame]: "registry_view (fst (pib_util_reschedule_qp s)) = registry_view (fst s)"
  by (cases s) (simp add: pib_util_reschedule_qp_def registry_view_def Let_def split: option.splits)

lemma free_recv_wqes_view: "registry_view (fst (fold pib_util_free_recv_wqe ws (d, qp))) = registry_view d"
proof (induction ws arbitrary: d qp)
  case (Cons w ws)
  then show ?case
    by (cases "init_srq (qp_init_attr qp)") (simp_all add: free_recv_wqe_simps registry_view_def)
qed simp

lemma free_recv_wqes_sched: "sched_root (fst (fold pib_util_free_recv_wqe ws (d, qp))) = sched_root d"
proof (induction ws arbitrary: d qp)
  case (Cons w ws)
  then show ?case by (cases "init_srq (qp_init_attr qp)") (simp_all add: free_recv_wqe_simps)
qed simp

lemma release_wqes_view:
  assumes "release_wqes (d, qp) = (d', qp')"
  shows "registry_view d' = registry_view d \<and> sched_root d' = sched_root d \<and> qp_num qp' = qp_num qp \<and>
    sched_on qp' = sched_on qp"
proof -
  define ws where "ws = waiting_swqe_head (requester qp) @ sending_swqe_head (requester qp) @ submitted_swqe_head (requester qp)"
  define qp1 where "qp1 = upd_req (\<lambda>r. r \<lparr> waiting_swqe_head := [], nr_waiting_swqe := 0, sending_swqe_head := [],
      nr_sending_swqe := 0, submitted_swqe_head := [], nr_submitted_swqe := 0, req_nr_rd_atomic := 0 \<rparr>)
    (fold pib_util_free_send_wqe ws qp)"
  have q1: "qp_num qp1 = qp_num qp" "sched_on qp1 = sched_on qp" by (simp_all add: qp1_def fold_free_send_wqe)
  have "(d', qp') = (let (d, qp) = fold pib_util_free_recv_wqe (rsp_recv_wqe_head (responder qp1)) (d, qp1)
      in (d, upd_rsp (\<lambda>r. r \<lparr> rsp_recv_wqe_head := [], rsp_nr_recv_wqe := 0, ack_head := [],
             rsp_nr_rd_atomic := 0 \<rparr>) qp))"
    using assms unfolding release_wqes_def qp1_def ws_def by (simp add: Let_def)
  then show ?thesis
    using fold_free_recv_wqe_qp [of "rsp_recv_wqe_head (responder qp1)" d qp1] q1
      free_recv_wqes_view [of "rsp_recv_wqe_head (responder qp1)" d qp1]
      free_recv_wqes_sched [of "rsp_recv_wqe_head (responder qp1)" d qp1]
    by (simp add: split_beta)
qed

lemma remove_cq_view:
  "registry_view (snd (pib_util_remove_cq cq p d)) = registry_view d"
  "sched_root (snd (pib_util_remove_cq cq p d)) = sched_root d"
  by (simp_all add: pib_util_remove_cq_def Let_def registry_view_def)

lemma remove_completions_view:
  "registry_view (snd (remove_completions qp d)) = registry_view d"
  "sched_root (snd (remove_completions qp d)) = sched_root d"
  using remove_cq_view by (simp_all add: remove_completions_def Let_def split_beta)

text \<open>A queue pair with nothing outstanding is not put back into the schedule.\<close>

lemma idle_not_scheduled:
  assumes "outstanding_sends qp = []" "ack_head (responder qp) = []"
  shows "reschedule_time now qp = None"
  using assms by (simp add: reschedule_time_def outstanding_sends_def Let_def)

lemma reschedule_idle:
  assumes "outstanding_sends qp = []" "ack_head (responder qp) = []"
    and "sched_on qp \<or> (\<forall>n \<in> set_tree (sched_root d). snd (snd n) \<noteq> qp_ptr qp)"
  shows "\<forall>n \<in> set_tree (sched_root (fst (pib_util_reschedule_qp (d, qp)))). snd (snd n) \<noteq> qp_ptr qp"
proof -
  have "reschedule_time (jiffies d) (qp \<lparr> sched_on := False \<rparr>) = None"
    using assms by (intro idle_not_scheduled) (simp_all add: outstanding_sends_def)
  then show ?thesis
    using assms(3) by (auto simp: pib_util_reschedule_qp_def Let_def sched_erase_def)
qed

lemma reset_qp_frame:
  assumes "reset_qp (d, qp) = (n, d', qp')"
    and "sched_on qp \<or> (\<forall>n \<in> set_tree (sched_root d). snd (snd n) \<noteq> qp_ptr qp)"
  shows "registry_view d' = registry_view d \<and> qp_num qp' = qp_num qp \<and> qp_ptr qp' = qp_ptr qp \<and>
    (\<forall>n \<in> set_tree (sched_root d'). snd (snd n) \<noteq> qp_ptr qp)"
proof -
  obtain d1 qp1 where r: "release_wqes (d, qp) = (d1, qp1)" by force
  obtain k d2 where c: "remove_completions qp1 d1 = (k, d2)" by force
  let ?qp = "reset_qp_attr d2 qp1"
  note rel = release_wqes_qp [OF r] release_wqes_view [OF r]
  have p: "qp_ptr ?qp = qp_ptr qp" "qp_num ?qp = qp_num qp" "sched_on ?qp = sched_on qp"
      "outstanding_sends ?qp = []" "ack_head (responder ?qp) = []"
    using rel by (simp_all add: reset_qp_attr_def outstanding_sends_def)
  have d2: "registry_view d2 = registry_view d" "sched_root d2 = sched_root d"
    using remove_completions_view [of qp1 d1] rel c by simp_all
  have "\<forall>n \<in> set_tree (sched_root (fst (pib_util_reschedule_qp (d2, ?qp)))). snd (snd n) \<noteq> qp_ptr ?qp"
    using reschedule_idle [OF p(4,5), of d2] assms(2) p d2 by simp
  then show ?thesis
    using assms(1) reset_qp_eq [OF r c] p d2 reschedule_view [of "(d2, ?qp)"] reschedule_qp_frame(4,5) [of "(d2, ?qp)"]
    by (auto simp: clear_contig_def)
qed

lemma unlink_mcasts_view:
  "qp_table (fold (unlink_mcast p) ls d) = qp_table d \<and> qp_list (fold (unlink_mcast p) ls d) = qp_list d \<and>
   obj_num_bitmap (fold (unlink_mcast p) ls d) = obj_num_bitmap d \<and> next_ptr (fold (unlink_mcast p) ls d) = next_ptr d \<and>
   sched_root (fold (unlink_mcast p) ls d) = sched_root d"
  by (induction ls arbitrary: d) (simp_all add: unlink_mcast_def)

text \<open>
  C18. Destroying a connected or datagram queue pair takes it out of the device: its number
  is free again and finds nothing while every other number finds what it found, it is off
  the list, the scheduler and all multicast groups, where the other members stay, and no
  completion queue it used holds a completion of it; table, bitmap and list stay in step.
\<close>

theorem destroy_qp_forgets:
  assumes "qp_registry d" "(qp_num qp, qp_ptr qp) \<in> set_tree (qp_table d)" "qp_num qp \<notin> {0, 1}" "mcast_linked d qp"
    and "sched_on qp \<or> (\<forall>n \<in> set_tree (sched_root d). snd (snd n) \<noteq> qp_ptr qp)"
  shows "let d' = pib_destroy_qp (d, qp) in qp_registry d' \<and>
    \<not> obj_num_bitmap d' (PIB_BITMAP_QP_START + unat (qp_num qp)) \<and>
    (\<forall>k < 0x1000000. pib_util_find_qp d' k = (if k = qp_num qp then None else pib_util_find_qp d k)) \<and>
    obj_head (qp_list d') = remove1 (qp_ptr qp) (obj_head (qp_list d)) \<and> nr_obj (qp_list d') = nr_obj (qp_list d) - 1 \<and>
    (\<forall>n \<in> set_tree (sched_root d'). snd (snd n) \<noteq> qp_ptr qp) \<and>
    (\<forall>lid. mcast_table d' lid = other_links (qp_ptr qp) d lid) \<and>
    (\<forall>wc \<in> set (cqe_head (cqs d' (send_cq qp))) \<union> set (cqe_head (cqs d' (recv_cq qp))). wc_qp wc \<noteq> qp_ptr qp)"
proof -
  define d1 where "d1 = fold (unlink_mcast (qp_ptr qp)) (mcast_head qp) d"
  note v1 = unlink_mcasts_view [of "qp_ptr qp" "mcast_head qp" d, folded d1_def]
  obtain n d2 qp2 where r: "reset_qp (d1, qp \<lparr> mcast_head := [] \<rparr>) = (n, d2, qp2)" by (metis prod_cases3)
  have v2: "registry_view d2 = registry_view d1" "qp_num qp2 = qp_num qp" "qp_ptr qp2 = qp_ptr qp"
      "\<forall>n \<in> set_tree (sched_root d2). snd (snd n) \<noteq> qp_ptr qp"
    using reset_qp_frame [OF r] assms(5) v1 by simp_all
  have wc: "\<forall>wc \<in> set (cqe_head (cqs d2 (send_cq qp))) \<union> set (cqe_head (cqs d2 (recv_cq qp))). wc_qp wc \<noteq> qp_ptr qp"
    using reset_qp_result [OF r] by simp
  have num: "unat (qp_num qp) \<noteq> 0 \<and> unat (qp_num qp) \<noteq> 1"
    using assms(3) unsigned_word_eqI [where 'a = nat, of "qp_num qp" 1] unat_eq_zero [of "qp_num qp"] by auto
  have d': "pib_destroy_qp (d, qp) = d2 \<lparr> qp_table := erase_qp (qp_ptr qp) (qp_table d),
      qp_list := (qp_list d) \<lparr> obj_head := remove1 (qp_ptr qp) (obj_head (qp_list d)), nr_obj := nr_obj (qp_list d) - 1 \<rparr>,
      obj_num_bitmap := (obj_num_bitmap d)(PIB_BITMAP_QP_START + unat (qp_num qp) := False) \<rparr>"
    using num v1 v2 r
    by (simp add: pib_destroy_qp_def pib_detach_all_mcast_def d1_def [symmetric] dealloc_free_wqe_def Let_def
        pib_dealloc_obj_num_def registry_view_def)
  have k: "qp_num qp < 0x1000000" using assms(1,2) by (auto simp: qp_registry_def qp_table_inv_def)
  have others: "p \<noteq> qp_ptr qp \<longleftrightarrow> k \<noteq> qp_num qp" if "(k, p) \<in> set_tree (qp_table d)" for k p
    using qp_table_functional [OF _ that, of "qp_ptr qp"] inj_onD [of snd, OF _ _ that assms(2)] assms(1,2)
    by (auto simp: qp_registry_def)
  have find: "find_qp_node (erase_qp (qp_ptr qp) (qp_table d)) k =
      (if k = qp_num qp then None else find_qp_node (qp_table d) k)" if "k < 0x1000000" for k
    using that qptable.find_erase [of "qp_table d" k "qp_ptr qp"] others assms(1,2)
      find_qp_node_spec [of "qp_table d" k] by (auto simp: qp_registry_def)
  have tree: "set_tree (erase_qp (qp_ptr qp) (qp_table d)) = {x \<in> set_tree (qp_table d). snd x \<noteq> qp_ptr qp}"
    by (auto simp: erase_qp_def)
  have "qp_registry (pib_destroy_qp (d, qp))"
  proof -
    have "next_ptr d2 = next_ptr d" using v1 v2(1) by (simp add: registry_view_def)
    moreover have "qp_table_inv (erase_qp (qp_ptr qp) (qp_table d))"
      using assms(1) qptable.erase_inv by (simp add: qp_registry_def)
    moreover have "unat k \<noteq> unat (qp_num qp)" if "(k, p) \<in> set_tree (qp_table d)" "p \<noteq> qp_ptr qp" for k p
      using others that by (metis unsigned_word_eqI)
    ultimately show ?thesis
      using assms(1) num unfolding d' qp_registry_def tree
      by (auto simp: tree inj_on_def)
  qed
  moreover have "mcast_table d2 lid = other_links (qp_ptr qp) d lid" for lid
    using detach_all_mcast_links [OF assms(4)] v2(1) by (simp add: d1_def registry_view_def)
  ultimately show ?thesis
    using v2(4) wc find unfolding Let_def d' by (simp add: pib_util_find_qp_def)
qed

theorem destroy_qp_forgets_witness:
  "pib_util_find_qp (pib_destroy_qp
     (blank_dev \<lparr> obj_num_bitmap := (\<lambda>_. True), qp_table := insert_qp 9 4 Leaf, next_ptr := 5,
        qp_list := \<lparr> last_num = 9, nr_obj = 1, obj_head = [4] \<rparr> \<rparr>,
      zero_qp \<lparr> qp_ptr := 4, qp_num := 9 \<rparr>)) 9 = None"
proof -
  let ?d = "blank_dev \<lparr> obj_num_bitmap := (\<lambda>_. True), qp_table := insert_qp 9 4 Leaf, next_ptr := 5,
    qp_list := \<lparr> last_num = 9, nr_obj = 1, obj_head = [4] \<rparr> \<rparr>"
  let ?qp = "zero_qp \<lparr> qp_ptr := 4, qp_num := 9 \<rparr>"
  have "qp_registry ?d" by (simp add: qp_registry_def insert_qp_def qp_table_inv_def)
  moreover have "mcast_linked ?d ?qp" by (simp add: mcast_linked_def my_links_def blank_dev_def zero_qp_def)
  ultimately show ?thesis
    using destroy_qp_forgets [of ?d ?qp] by (simp add: insert_qp_def Let_def blank_dev_def)
qed

section \<open>The special queue pairs\<close>


definition example_port :: pib_port where
  "example_port = zero_port \<lparr> port_state := IB_PORT_ACTIVE, port_phys_state := 5, port_is_connected := True, port_lid := 1,
     port_active_mtu := 5 \<rparr>"


end
