(* ===== verification/Pib_QP_Attr.thy ===== *)
theory Pib_QP_Attr
  imports Pib_QP_Create
begin

text \<open>
  The attributes of a queue pair stay within the ranges that the rest of the driver takes for
  granted: the number of its port indexes the table of ports, the path MTU is a code whose power of two is
  at most 4096, timeouts and retry counts have the width of their fields in packets.
  \<^verbatim>\<open>modify_qp_is_ok\<close> (\<^verbatim>\<open>driver/pib_qp.c\<close>) is the only place where they are checked.
\<close>

section \<open>What the verbs leave alone\<close>

definition static_view :: "pib_dev \<times> pib_qp \<Rightarrow> _" where
  "static_view = (\<lambda>(d, qp). ((ports d, phys_port_cnt d, ib_dev_attr d),
     (qp_attr qp, req_max_rd_atomic (requester qp), qp_type qp)))"

named_theorems attr_frame
  \<open>operations that leave the attributes of the queue pair and of the device alone\<close>

lemma attr_frame_intro:
  "ports (fst s') = ports (fst s) \<Longrightarrow> phys_port_cnt (fst s') = phys_port_cnt (fst s) \<Longrightarrow>
   ib_dev_attr (fst s') = ib_dev_attr (fst s) \<Longrightarrow> qp_attr (snd s') = qp_attr (snd s) \<Longrightarrow>
   req_max_rd_atomic (requester (snd s')) = req_max_rd_atomic (requester (snd s)) \<Longrightarrow>
   qp_type (snd s') = qp_type (snd s) \<Longrightarrow> static_view s' = static_view s"
  by (simp add: static_view_def split_beta)

lemma static_dev_insert_wc [attr_frame]:
  "ports (snd (insert_wc cq qp wc sol d)) = ports d"
  "phys_port_cnt (snd (insert_wc cq qp wc sol d)) = phys_port_cnt d"
  "ib_dev_attr (snd (insert_wc cq qp wc sol d)) = ib_dev_attr d"
  by (simp_all add: insert_wc_def Let_def callback_def pib_queue_work_def split: list.split)

lemma static_dev_insert_wc_error [attr_frame]:
  "ports (snd (pib_util_insert_wc_error cq qp wr_id status opcode d)) = ports d"
  "phys_port_cnt (snd (pib_util_insert_wc_error cq qp wr_id status opcode d)) = phys_port_cnt d"
  "ib_dev_attr (snd (pib_util_insert_wc_error cq qp wr_id status opcode d)) = ib_dev_attr d"
  by (simp add: pib_util_insert_wc_error_def Let_def split_beta attr_frame;
      simp add: corrupt_wc_def pib_random_def Let_def)+

lemma static_flush_send_wqe [attr_frame]: "static_view (flush_send_wqe w s) = static_view s"
  by (rule attr_frame_intro) (simp_all add: flush_send_wqe_def split_beta attr_frame pib_util_free_send_wqe_def)

lemma static_free_recv_wqe [attr_frame]: "static_view (pib_util_free_recv_wqe w s) = static_view s"
  by (cases s, rule attr_frame_intro) (simp_all add: pib_util_free_recv_wqe_def split: option.split)

lemma static_flush_recv_wqe [attr_frame]: "static_view (flush_recv_wqe w s) = static_view s"
  by (cases s) (simp add: flush_recv_wqe_def attr_frame, simp add: static_view_def attr_frame)

lemma static_fold:
  assumes "\<And>x s. static_view (f x s) = static_view s"
  shows "static_view (fold f xs s) = static_view s"
  by (induction xs arbitrary: s) (simp_all add: assms)

lemma static_upd [attr_frame]:
  "static_view (d, qp \<lparr> responder := r \<rparr>) = static_view (d, qp)"
  "req_max_rd_atomic q = req_max_rd_atomic (requester qp) \<Longrightarrow> static_view (d, qp \<lparr> requester := q \<rparr>) = static_view (d, qp)"
  "static_view (d, qp \<lparr> qp_state := x \<rparr>) = static_view (d, qp)"
  "static_view (d, qp \<lparr> issue_sq_drained := b \<rparr>) = static_view (d, qp)"
  "static_view (d, qp \<lparr> issue_comm_est := b \<rparr>) = static_view (d, qp)"
  "static_view (d, qp \<lparr> issue_last_wqe_reached := b \<rparr>) = static_view (d, qp)"
  "static_view (d, clear_contig qp) = static_view (d, qp)"
  "static_view (d, pib_util_free_send_wqe w qp) = static_view (d, qp)"
  "static_view (d, reset_qp_attr d' qp) = static_view (d, qp)"
  by (simp_all add: static_view_def clear_contig_def pib_util_free_send_wqe_def reset_qp_attr_def)

lemmas static_folds [attr_frame] =
  static_fold [of flush_send_wqe, OF static_flush_send_wqe] static_fold [of flush_recv_wqe, OF static_flush_recv_wqe]
  static_fold [of pib_util_free_recv_wqe, OF static_free_recv_wqe]

lemma static_fold_free_send [attr_frame]:
  "static_view (d, fold pib_util_free_send_wqe ws qp) = static_view (d, qp)"
  by (induction ws arbitrary: qp) (simp_all add: attr_frame)

lemma static_reschedule [attr_frame]: "static_view (pib_util_reschedule_qp s) = static_view s"
  by (cases s, rule attr_frame_intro) (simp_all add: pib_util_reschedule_qp_def Let_def split: option.split)

lemma static_ready [attr_frame]: "static_view (get_ready_to_send s) = static_view s"
  by (simp add: get_ready_to_send_eq attr_frame)

lemma static_event [attr_frame]: "static_view (pib_util_insert_async_qp_event e s) = static_view s"
  by (cases s, rule attr_frame_intro)
    (simp_all add: pib_util_insert_async_qp_event_def pib_util_insert_async_qp_error_def callback_def)

lemma static_flush_sends [attr_frame]: "static_view (flush_sends s) = static_view s"
  by (cases s) (simp add: flush_sends_def Let_def split_beta attr_frame)

lemma static_flush_qp [attr_frame]: "static_view (pib_util_flush_qp send_only s) = static_view s"
proof -
  have r: "static_view (flush_recvs t) = static_view t" for t
    by (cases t) (simp add: flush_recvs_def Let_def split_beta attr_frame)
  have l: "static_view (last_wqe_event t) = static_view t" for t
    by (cases t) (simp add: last_wqe_event_def Let_def split_beta attr_frame)
  show ?thesis
    by (simp add: pib_util_flush_qp_def Let_def split_beta attr_frame r l)
qed

lemma static_reset_qp [attr_frame]: "static_view (snd (reset_qp s)) = static_view s"
proof (cases s)
  case (Pair d qp)
  have r: "static_view (release_wqes t) = static_view t" for t
    by (cases t) (simp add: release_wqes_def Let_def split_beta attr_frame)
  have c: "static_view (snd (remove_completions q e), p) = static_view (e, p)" for q e p
    by (simp add: remove_completions_def pib_util_remove_cq_def Let_def split_beta static_view_def)
  show ?thesis
    using r [of s] by (simp add: Pair reset_qp_def Let_def split_beta attr_frame c)
qed

lemma static_move [attr_frame]: "static_view (snd (move_qp_state cur_state new_state drained s)) = static_view s"
proof -
  have e: "static_view (snd (enter_qp_state x t)) = static_view t" for x t
    by (cases t; cases x) (simp_all add: enter_qp_state_def Let_def attr_frame)
  have a: "static_view (announce_drained b t) = static_view t" for b t
    by (cases t) (simp add: announce_drained_def Let_def split_beta attr_frame)
  show ?thesis
    by (simp add: move_qp_state_def Let_def split_beta attr_frame e a)
qed

lemma static_post_send [attr_frame]: "static_view (snd (snd (pib_post_send cfu wrs s))) = static_view s"
proof -
  have "static_view (snd (snd (post_send_loop cfu len wrs s))) = static_view s" for len s
  proof (induction cfu len wrs s rule: post_send_loop.induct)
    case (2 cfu len wr wrs d qp)
    have w: "static_view (snd (pib_util_insert_wc_error cq q i st op d), qp) = static_view (d, qp)" for cq q i st op
      by (rule attr_frame_intro) (simp_all add: attr_frame)
    show ?case using 2
      by (auto simp: Let_def attr_frame w split: list.split sum.split prod.split)
  qed simp
  then show ?thesis by (simp add: pib_post_send_def Let_def split_beta attr_frame)
qed

lemma static_post_recv [attr_frame]: "static_view (snd (snd (pib_post_recv wrs s))) = static_view s"
proof -
  have "static_view (snd (snd (post_recv_loop len ret wrs s))) = static_view s" for len ret s
  proof (induction len ret wrs s rule: post_recv_loop.induct)
    case (2 len ret wr wrs d qp)
    have w: "static_view (snd (pib_util_insert_wc_error cq q i st op d), qp) = static_view (d, qp)" for cq q i st op
      by (rule attr_frame_intro) (simp_all add: attr_frame)
    show ?case using 2
      by (auto simp: Let_def attr_frame w split: list.split)
  qed simp
  then show ?thesis by (simp add: pib_post_recv_def)
qed

section \<open>The ranges\<close>

text \<open>
  \<open>in_range\<close> holds of every queue pair.  The P_Key index and the destination are checked as
  well, but a change of the migration state assigns them without a check.
\<close>

definition in_range :: "pib_dev \<Rightarrow> pib_qp \<Rightarrow> bool" where
  "in_range d qp \<longleftrightarrow> (let a = qp_attr qp in
    unat (attr_port_num a) \<le> phys_port_cnt d \<and> path_mtu a \<le> IB_MTU_4096 \<and>
    attr_timeout a < 32 \<and> min_rnr_timer a < 32 \<and> attr_retry_cnt a < 8 \<and> attr_rnr_retry a < 8 \<and>
    int (unat (max_rd_atomic a)) \<le> max_qp_init_rd_atom (ib_dev_attr d) \<and>
    int (unat (req_max_rd_atomic (requester qp))) \<le> max_qp_init_rd_atom (ib_dev_attr d) \<and>
    int (unat (max_dest_rd_atomic a)) \<le> max_qp_rd_atom (ib_dev_attr d))"

definition path_in_range :: "pib_qp \<Rightarrow> bool" where
  "path_in_range qp \<longleftrightarrow> unat (attr_pkey_index (qp_attr qp)) < PIB_PKEY_TABLE_LEN \<and>
    ah_dlid (ah_attr (qp_attr qp)) < PIB_MCAST_LID_BASE"

definition ports_in_range :: "pib_dev \<Rightarrow> bool" where
  "ports_in_range d \<longleftrightarrow> length (ports d) = phys_port_cnt d \<and> list_all (\<lambda>p. port_active_mtu p \<le> IB_MTU_4096) (ports d)"

text \<open>They depend on the attributes only.\<close>

lemma in_range_view:
  assumes "static_view s' = static_view s"
  shows "in_range (fst s') (snd s') = in_range (fst s) (snd s)" "path_in_range (snd s') = path_in_range (snd s)"
    "ports_in_range (fst s') = ports_in_range (fst s)"
  using assms by (simp_all add: static_view_def split_beta in_range_def path_in_range_def ports_in_range_def)

lemma fold_steps_inv:
  assumes "\<And>flag step qp. (flag, step) \<in> set steps \<Longrightarrow> flag_set attr_mask flag \<Longrightarrow> P qp \<Longrightarrow> P (step qp)" "P qp"
  shows "P (fold (\<lambda>(flag, step) qp. if flag_set attr_mask flag then step qp else qp) steps qp)"
  using assms
proof (induction steps arbitrary: qp)
  case (Cons fs steps)
  obtain flag step where fs: "fs = (flag, step)" by force
  have "P (if flag_set attr_mask flag then step qp else qp)"
    using Cons.prems(1) [of flag step qp] Cons.prems(2) fs by simp
  then have "P (fold (\<lambda>(flag, step) qp. if flag_set attr_mask flag then step qp else qp) steps
      (if flag_set attr_mask flag then step qp else qp))"
    by (rule Cons.IH [rotated]) (use Cons.prems(1) in auto)
  then show ?case by (simp add: fs)
qed simp

lemma field_width:
  fixes x :: u8
  shows "x AND NOT 0x1F = 0 \<Longrightarrow> x < 32" "x AND NOT 7 = 0 \<Longrightarrow> x < 8"
proof -
  have *: "x < 2 ^ n" if "x AND NOT (2 ^ n - 1) = 0" "n < 8" for n
  proof -
    have "x = x AND mask n"
    proof (rule bit_word_eqI)
      fix k
      have "\<not> bit (x AND NOT (mask n)) k" using that(1) by (simp add: mask_eq_decr_exp)
      then show "bit x k = bit (x AND mask n) k" by (auto simp: bit_simps dest: bit_imp_le_length)
    qed
    also have "\<dots> < 2 ^ n" using that(2) by (intro and_mask_less') simp_all
    finally show ?thesis .
  qed
  show "x AND NOT 0x1F = 0 \<Longrightarrow> x < 32" using * [of 5] by simp
  show "x AND NOT 7 = 0 \<Longrightarrow> x < 8" using * [of 3] by simp
qed

lemma modify_qp_attrs_in_range:
  assumes ok: "modify_qp_is_ok d qp0 cur_state a attr_mask" and ports: "ports_in_range d" and "in_range d qp"
  shows "in_range d (modify_qp_attrs d a attr_mask qp)"
  unfolding modify_qp_attrs_def
proof (rule fold_steps_inv)
  fix flag step qp
  assume st: "(flag, step) \<in> set (modify_qp_steps d a)" "flag_set attr_mask flag" and qp: "in_range d qp"
  have mtu: "port_active_mtu (ports d ! (unat (attr_port_num a) - Suc 0)) \<le> IB_MTU_4096"
    if "flag_set attr_mask IB_QP_PORT"
  proof -
    have "attr_port_num a \<noteq> 0" "\<not> phys_port_cnt d < unat (attr_port_num a)"
      using ok that by (simp_all add: modify_qp_is_ok_def)
    then have "0 < unat (attr_port_num a)" "unat (attr_port_num a) \<le> length (ports d)"
      using ports by (simp_all add: ports_in_range_def unat_gt_0)
    then have "unat (attr_port_num a) - 1 < length (ports d)" by linarith
    with ports show ?thesis by (simp add: ports_in_range_def list_all_length)
  qed
  have range: "flag_set attr_mask IB_QP_TIMEOUT \<Longrightarrow> attr_timeout a < 32"
      "flag_set attr_mask IB_QP_MIN_RNR_TIMER \<Longrightarrow> min_rnr_timer a < 32"
      "flag_set attr_mask IB_QP_RETRY_CNT \<Longrightarrow> attr_retry_cnt a < 8"
      "flag_set attr_mask IB_QP_RNR_RETRY \<Longrightarrow> attr_rnr_retry a < 8"
    using ok field_width by (simp_all add: modify_qp_is_ok_def)
  have limits: "flag_set attr_mask IB_QP_PATH_MTU \<Longrightarrow> path_mtu a \<le> IB_MTU_4096"
      "flag_set attr_mask IB_QP_PORT \<Longrightarrow> unat (attr_port_num a) \<le> phys_port_cnt d"
      "flag_set attr_mask IB_QP_MAX_QP_RD_ATOMIC \<Longrightarrow> uint (max_rd_atomic a) \<le> max_qp_init_rd_atom (ib_dev_attr d)"
      "flag_set attr_mask IB_QP_MAX_DEST_RD_ATOMIC \<Longrightarrow> uint (max_dest_rd_atomic a) \<le> max_qp_rd_atom (ib_dev_attr d)"
    using ok by (simp_all add: modify_qp_is_ok_def)
  show "in_range d (step qp)"
    using st qp unfolding modify_qp_steps_def list.set insert_iff empty_iff prod.inject in_range_def Let_def
    by (elim disjE conjE; simp add: range limits mtu)
qed fact

lemma modify_qp_attrs_path_in_range:
  assumes ok: "modify_qp_is_ok d qp0 cur_state a attr_mask" and "\<not> flag_set attr_mask IB_QP_PATH_MIG_STATE" "path_in_range qp"
  shows "path_in_range (modify_qp_attrs d a attr_mask qp)"
  unfolding modify_qp_attrs_def
proof (rule fold_steps_inv)
  fix flag step qp
  assume st: "(flag, step) \<in> set (modify_qp_steps d a)" "flag_set attr_mask flag" and qp: "path_in_range qp"
  have limits: "flag_set attr_mask IB_QP_AV \<Longrightarrow> ah_dlid (ah_attr a) < PIB_MCAST_LID_BASE"
      "flag_set attr_mask IB_QP_PKEY_INDEX \<Longrightarrow> unat (attr_pkey_index a) < PIB_PKEY_TABLE_LEN"
    using ok by (simp_all add: modify_qp_is_ok_def not_le)
  show "path_in_range (step qp)"
    using st qp assms(2) unfolding modify_qp_steps_def list.set insert_iff empty_iff prod.inject path_in_range_def Let_def
    by (elim disjE conjE; simp add: limits)
qed fact

lemma qp_step_in_range:
  assumes "ports_in_range (fst s)" "in_range (fst s) (snd s)"
  shows "in_range (fst (qp_step op s)) (snd (qp_step op s)) \<and> ports_in_range (fst (qp_step op s))"
    "(\<forall>okf m attr_mask. op = Modify okf m attr_mask \<longrightarrow> \<not> flag_set attr_mask IB_QP_PATH_MIG_STATE) \<Longrightarrow>
     path_in_range (snd s) \<Longrightarrow> path_in_range (snd (qp_step op s))"
proof -
  obtain d qp where s: "s = (d, qp)" by force
  have "in_range (fst (qp_step op s)) (snd (qp_step op s)) \<and> ports_in_range (fst (qp_step op s)) \<and>
    ((\<forall>okf m attr_mask. op = Modify okf m attr_mask \<longrightarrow> \<not> flag_set attr_mask IB_QP_PATH_MIG_STATE) \<longrightarrow>
     path_in_range (snd s) \<longrightarrow> path_in_range (snd (qp_step op s)))"
  proof (cases "\<exists>okf m attr_mask. op = Modify okf m attr_mask")
    case False
    then have "static_view (qp_step op s) = static_view s" by (cases op) (simp_all add: attr_frame)
    from in_range_view [OF this] assms show ?thesis by simp
  next
    case True
    then obtain okf m attr_mask where op: "op = Modify okf m attr_mask" by blast
    obtain r d' qp' where r: "pib_modify_qp okf m attr_mask (d, qp) = (r, d', qp')" by (metis prod_cases3)
    then obtain cur_state new_state drained where f:
      "modify_qp_from okf (mod_attr m) attr_mask cur_state new_state drained (d, qp) = (r, d', qp')"
      unfolding pib_modify_qp_def Let_def split_conv by blast
    let ?qp = "modify_qp_attrs d (mod_attr m) attr_mask qp"
    have "(d', qp') = (d, qp) \<or> modify_qp_is_ok d qp cur_state (mod_attr m) attr_mask \<and> static_view (d', qp') = static_view (d, ?qp)"
    proof (cases "modify_qp_is_ok d qp cur_state (mod_attr m) attr_mask")
      case False
      with f show ?thesis by (simp add: modify_qp_from_def split: if_split_asm)
    next
      case True
      from f show ?thesis
        by (cases rule: modify_qp_from_cases) (use True static_move [of cur_state new_state drained "(d, ?qp)"] in auto)
    qed
    with assms modify_qp_attrs_in_range [of d qp cur_state "mod_attr m" attr_mask qp]
      modify_qp_attrs_path_in_range [of d qp cur_state "mod_attr m" attr_mask qp] in_range_view [of "(d', qp')" "(d, ?qp)"]
    show ?thesis by (auto simp: s op r)
  qed
  then show "in_range (fst (qp_step op s)) (snd (qp_step op s)) \<and> ports_in_range (fst (qp_step op s))"
    "(\<forall>okf m attr_mask. op = Modify okf m attr_mask \<longrightarrow> \<not> flag_set attr_mask IB_QP_PATH_MIG_STATE) \<Longrightarrow>
     path_in_range (snd s) \<Longrightarrow> path_in_range (snd (qp_step op s))" by blast+
qed


definition example_attr_dev :: pib_dev where
  "example_attr_dev = blank_dev \<lparr> ports := [example_port, example_port] \<rparr>"


end
