(* ===== verification/Pib_SMA.thy ===== *)
theory Pib_SMA
  imports Pib_MAD Pib_QP_Attr
begin

text \<open>
  The subnet management agent of an adapter, \<^verbatim>\<open>driver/pib_mad.c\<close>: the packets of the subnet manager are
  answered from the tables of the ports, or change them.  The stack calls it with the number of the
  port a packet came in through.  Shown here: what PortInfo and the P_Key table read back
  after they were set, which events are reported, and that no other port changes.

  The result is the code of \<^verbatim>\<open>ib_mad.h\<close> with the packet to answer; \<open>None\<close> is a write behind the end of the packet.
\<close>

section \<open>Answers\<close>

definition reply :: "ib_smp \<Rightarrow> u32 \<times> ib_smp" where
  "reply smp = (IB_MAD_RESULT_SUCCESS OR IB_MAD_RESULT_REPLY,
     smp \<lparr> smp_method := IB_MGMT_METHOD_GET_RESP,
           smp_status := (if smp_mgmt_class smp = IB_MGMT_CLASS_SUBN_DIRECTED_ROUTE then smp_status smp OR IB_SMP_DIRECTION
                          else smp_status smp) \<rparr>)"

definition reply_failure :: "ib_smp \<Rightarrow> u32 \<times> ib_smp" where
  "reply_failure smp = (IB_MAD_RESULT_FAILURE OR IB_MAD_RESULT_REPLY,
     smp \<lparr> smp_method := IB_MGMT_METHOD_GET_RESP,
           smp_status := (if smp_mgmt_class smp = IB_MGMT_CLASS_SUBN_DIRECTED_ROUTE then smp_status smp OR IB_SMP_DIRECTION
                          else smp_status smp) \<rparr>)"

abbreviation add_status :: "u16 \<Rightarrow> ib_smp \<Rightarrow> ib_smp" where
  "add_status b smp \<equiv> smp \<lparr> smp_status := smp_status smp OR b \<rparr>"

abbreviation in_port :: "pib_dev \<Rightarrow> u8 \<Rightarrow> pib_port" where
  "in_port d in_port_num \<equiv> ports d ! (unat in_port_num - 1)"

section \<open>Reading attributes\<close>

definition subn_get_nodedescription :: "ib_smp \<Rightarrow> pib_dev \<Rightarrow> u32 \<times> ib_smp" where
  "subn_get_nodedescription smp d =
    (let smp = (if smp_attr_mod smp \<noteq> 0 then add_status PIB_SMP_INVALID_FIELD smp else smp)
     in reply (put_data (strncpy 64 (node_desc d)) smp))"

abbreviation (input) "RDMA_NODE_IB_CA \<equiv> (1 :: u8)"

definition subn_get_nodeinfo :: "ib_smp \<Rightarrow> pib_dev \<Rightarrow> u8 \<Rightarrow> u32 \<times> ib_smp" where
  "subn_get_nodeinfo smp d in_port_num = reply (put_data (node_info_bytes \<lparr>
     ni_base_version = IB_MGMT_BASE_VERSION, ni_class_version = PIB_MGMT_CLASS_VERSION, ni_node_type = RDMA_NODE_IB_CA,
     ni_node_ports = of_nat (phys_port_cnt d), ni_sys_image_guid = sys_image_guid (ib_dev_attr d), ni_node_guid = node_guid d,
     ni_port_guid = snd (port_gid (in_port d in_port_num) ! 0), ni_partition_cap = 1, ni_device_id = PIB_DRIVER_DEVICE_ID,
     ni_revision = PIB_DRIVER_REVISION, ni_local_port_num = in_port_num, ni_vendor_id = [0, 0, 0] \<rparr>) smp)"

definition subn_get_guidinfo :: "ib_smp \<Rightarrow> u32 \<times> ib_smp" where
  "subn_get_guidinfo smp = reply_failure (put_data [] smp)"

text \<open>The number of the port is in the modifier; zero is the port the packet came in through.\<close>

definition portinfo_port :: "ib_smp \<Rightarrow> u8 \<Rightarrow> u32" where
  "portinfo_port smp in_port_num = (if smp_attr_mod smp = 0 then ucast in_port_num else smp_attr_mod smp)"

definition portinfo_port_ok :: "pib_dev \<Rightarrow> u32 \<Rightarrow> bool" where
  "portinfo_port_ok d port_num \<longleftrightarrow> \<not> (port_num < 1 \<or> phys_port_cnt d < unat port_num)"

definition subn_get_portinfo :: "ib_smp \<Rightarrow> pib_dev \<Rightarrow> u8 \<Rightarrow> u32 \<times> ib_smp" where
  "subn_get_portinfo smp d in_port_num =
    (let smp = put_data [] smp; port_num = portinfo_port smp in_port_num in
     if \<not> portinfo_port_ok d port_num then reply (add_status PIB_SMP_INVALID_FIELD smp)
     else reply (pib_subn_get_portinfo smp (ports d ! (unat port_num - 1)) PIB_PORT_CA))"

definition subn_get_pkey_table :: "ib_smp \<Rightarrow> pib_dev \<Rightarrow> u8 \<Rightarrow> u32 \<times> ib_smp" where
  "subn_get_pkey_table smp d in_port_num =
    (let smp = put_data [] smp; block_index = smp_attr_mod smp AND 0xFFFF in
     if block_index \<noteq> 0 then reply (add_status PIB_SMP_INVALID_FIELD smp)
     else reply (put_data (pkeys_bytes (take PIB_PKEY_PER_BLOCK (port_pkey_table (in_port d in_port_num)))) smp))"

text \<open>The subnet manager's own attribute, read and written alike: whether this port runs one.\<close>

definition subn_sm_info :: "ib_smp \<Rightarrow> pib_dev \<Rightarrow> u8 \<Rightarrow> u32 \<times> ib_smp" where
  "subn_sm_info smp d in_port_num =
    (let flags = port_port_cap_flags (in_port d in_port_num) in
     if flag_set flags IB_PORT_SM_DISABLED then (IB_MAD_RESULT_SUCCESS OR IB_MAD_RESULT_CONSUMED, smp)
     else if flag_set flags IB_PORT_SM then (IB_MAD_RESULT_SUCCESS, smp)
     else reply (add_status PIB_SMP_UNSUP_METH_ATTR smp))"

definition process_subn_get_method :: "ib_smp \<Rightarrow> pib_dev \<Rightarrow> u8 \<Rightarrow> u32 \<times> ib_smp" where
  "process_subn_get_method smp d in_port_num =
    (let a = smp_attr_id smp in
     if a = IB_SMP_ATTR_NODE_DESC then subn_get_nodedescription smp d
     else if a = IB_SMP_ATTR_NODE_INFO then subn_get_nodeinfo smp d in_port_num
     else if a = IB_SMP_ATTR_GUID_INFO then subn_get_guidinfo smp
     else if a = IB_SMP_ATTR_PORT_INFO then subn_get_portinfo smp d in_port_num
     else if a = IB_SMP_ATTR_PKEY_TABLE then subn_get_pkey_table smp d in_port_num
     else if a = IB_SMP_ATTR_SL_TO_VL_TABLE then reply_failure smp
     else if a = IB_SMP_ATTR_VL_ARB_TABLE then reply_failure smp
     else if a = IB_SMP_ATTR_SM_INFO then subn_sm_info smp d in_port_num
     else reply (add_status PIB_SMP_UNSUP_METH_ATTR smp))"

section \<open>Writing attributes\<close>

abbreviation port_event :: "ib_event_type \<Rightarrow> u32 \<Rightarrow> bool \<Rightarrow> pib_callback list" where
  "port_event e port_num b \<equiv> (if b then [Port_event e port_num] else [])"

text \<open>The table that resolves LIDs is kept by the driver in single host mode only.\<close>

definition move_lid :: "u16 \<Rightarrow> u16 \<Rightarrow> nat \<Rightarrow> pib_dev \<Rightarrow> pib_dev" where
  "move_lid old_lid new_lid sockaddr d =
    (if multi_host_mode (module d) \<or> old_lid = new_lid then d
     else
       let t = lid_table d; t = (if old_lid \<noteq> 0 then t(old_lid := None) else t);
           t = (if new_lid \<noteq> 0 then t(new_lid := Some sockaddr) else t)
       in d \<lparr> lid_table := t \<rparr>)"

definition keep_link_up :: "pib_port \<Rightarrow> pib_port" where
  "keep_link_up port =
    (if port_is_connected port
     then port \<lparr> port_phys_state := PIB_PHYS_PORT_LINK_UP,
                 port_state := (if port_state port < IB_PORT_INIT then IB_PORT_INIT else port_state port) \<rparr>
     else port)"

definition subn_set_portinfo :: "ib_smp \<Rightarrow> pib_dev \<Rightarrow> u8 \<Rightarrow> (u32 \<times> ib_smp) \<times> pib_dev" where
  "subn_set_portinfo smp d in_port_num =
    (let port_num = portinfo_port smp in_port_num in
     if \<not> portinfo_port_ok d port_num then (reply (add_status PIB_SMP_INVALID_FIELD smp), d)
     else
       let i = port_info_of_bytes (smp_data smp); k = unat port_num - 1; old = ports d ! k;
           d = move_lid (port_lid old) (pi_lid i) (port_sockaddr old) d;
           new = keep_link_up (pib_subn_set_portinfo smp old PIB_PORT_CA);
           events = port_event IB_EVENT_CLIENT_REREGISTER port_num (flag_set (pi_clientrereg_resv_subnetto i) 0x80) @
             port_event IB_EVENT_PORT_ERR port_num (port_state new \<noteq> IB_PORT_ACTIVE \<and> port_state old = IB_PORT_ACTIVE) @
             port_event IB_EVENT_PORT_ACTIVE port_num (port_state new = IB_PORT_ACTIVE \<and> port_state old \<noteq> IB_PORT_ACTIVE) @
             port_event IB_EVENT_SM_CHANGE port_num (port_sm_lid old \<noteq> pi_sm_lid i) @
             port_event IB_EVENT_LID_CHANGE port_num (port_lid old \<noteq> pi_lid i)
       in (reply smp, d \<lparr> ports := (ports d)[k := new], callbacks := callbacks d @ events \<rparr>))"

definition pkey_changed :: "u16 \<Rightarrow> u16 \<Rightarrow> bool" where
  "pkey_changed nkey okey \<longleftrightarrow> nkey \<noteq> okey \<and> (flag_set okey 0x7FFF \<or> flag_set nkey 0x7FFF)"

definition subn_set_pkey_table :: "ib_smp \<Rightarrow> pib_dev \<Rightarrow> u8 \<Rightarrow> (u32 \<times> ib_smp) \<times> pib_dev" where
  "subn_set_pkey_table smp d in_port_num =
    (let block_index = smp_attr_mod smp AND 0xFFFF in
     if block_index \<noteq> 0 then (reply (add_status PIB_SMP_INVALID_FIELD smp), d)
     else
       let k = unat in_port_num - 1; old = port_pkey_table (ports d ! k); new = pkeys_of_bytes (smp_data smp);
           changed = list_ex (\<lambda>(n, ok). pkey_changed n ok) (zip new old)
       in (reply smp, d \<lparr> ports := (ports d)[k := (ports d ! k) \<lparr> port_pkey_table := new @ drop PIB_PKEY_PER_BLOCK old \<rparr>],
             callbacks := callbacks d @ port_event IB_EVENT_PKEY_CHANGE (ucast in_port_num) changed \<rparr>))"

definition process_subn_set_method :: "ib_smp \<Rightarrow> pib_dev \<Rightarrow> u8 \<Rightarrow> (u32 \<times> ib_smp) \<times> pib_dev" where
  "process_subn_set_method smp d in_port_num =
    (let a = smp_attr_id smp in
     if a = IB_SMP_ATTR_GUID_INFO then (reply_failure smp, d)
     else if a = IB_SMP_ATTR_PORT_INFO then subn_set_portinfo smp d in_port_num
     else if a = IB_SMP_ATTR_PKEY_TABLE then subn_set_pkey_table smp d in_port_num
     else if a = IB_SMP_ATTR_SL_TO_VL_TABLE then (reply_failure smp, d)
     else if a = IB_SMP_ATTR_VL_ARB_TABLE then (reply_failure smp, d)
     else if a = IB_SMP_ATTR_SM_INFO then (subn_sm_info smp d in_port_num, d)
     else (reply (add_status PIB_SMP_UNSUP_METH_ATTR smp), d))"

section \<open>The agent\<close>

definition process_subn :: "u8 \<Rightarrow> ib_smp \<Rightarrow> pib_dev \<Rightarrow> (u32 \<times> ib_smp \<times> pib_dev) option" where
  "process_subn in_port_num smp d =
    (if smp_base_version smp \<noteq> IB_MGMT_BASE_VERSION
     then Some (IB_MAD_RESULT_FAILURE OR IB_MAD_RESULT_REPLY, smp \<lparr> smp_status := swab16 IB_MGMT_MAD_STATUS_BAD_VERSION \<rparr>, d)
     else
       let method = smp_method smp;
           ((ret, smp), d) =
             (if method = IB_MGMT_METHOD_GET then (process_subn_get_method smp d in_port_num, d)
              else if method = IB_MGMT_METHOD_SET
              then let ((ret, smp), d) = process_subn_set_method smp d in_port_num in
                   if flag_set (smp_status smp) (NOT IB_SMP_DIRECTION) then ((ret, smp), d)
                   else (process_subn_get_method smp d in_port_num, d)
              else if method \<in> {IB_MGMT_METHOD_TRAP, IB_MGMT_METHOD_REPORT, IB_MGMT_METHOD_REPORT_RESP, IB_MGMT_METHOD_GET_RESP} \<and>
                      smp_mgmt_class smp = IB_MGMT_CLASS_SUBN_LID_ROUTED
              then ((IB_MAD_RESULT_SUCCESS, smp), d)
              else (reply (add_status PIB_SMP_UNSUP_METHOD smp), d));
           k = unat (smp_hop_ptr smp) + 1
       in if k < PIB_SMP_MAX_PATH_HOPS
          then Some (ret, smp \<lparr> smp_return_path := (smp_return_path smp)[k := in_port_num] \<rparr>, d)
          else None)"

section \<open>PortInfo reads back\<close>

lemma portinfo_sel:
  fixes port :: "'a mgmt_port_scheme"
  defines "j \<equiv> portinfo_of_port port PIB_PORT_CA"
  shows "pi_lid j = port_lid port" "pi_sm_lid j = port_sm_lid port" "pi_gid_prefix j = fst (port_gid port ! 0)"
    "pi_mkey_lease_period j = port_mkey_lease_period port" "pi_mkey j = push_bit 56 (ucast (port_mkey port))"
    "pi_mkeyprot_resv_lmc j = push_bit 6 (port_mkeyprot port) OR port_lmc port"
    "pi_neighbormtu_mastersmsl j = push_bit 4 (of_nat (port_active_mtu port)) OR port_master_smsl port"
    "pi_clientrereg_resv_subnetto j = push_bit 7 (port_client_reregister port) OR port_subnet_timeout port"
    "pi_localphyerrors_overrunerrors j = push_bit 4 (port_local_phy_errors port) OR port_overrun_errors port"
    "pi_local_port_num j = 0" "length (pi_link_roundtrip_latency j) = 3"
  by (simp_all add: j_def portinfo_of_port_def zero_port_info_def Let_def)

lemma set_portinfo_sel:
  fixes port :: pib_port and smp :: ib_smp
  defines "p \<equiv> keep_link_up (pib_subn_set_portinfo smp port PIB_PORT_CA)"
    and "i \<equiv> port_info_of_bytes (smp_data smp)"
  shows "port_lid p = pi_lid i" "port_sm_lid p = pi_sm_lid i"
    "port_gid p = (port_gid port)[0 := (pi_gid_prefix i, snd (port_gid port ! 0))]"
    "port_mkey_lease_period p = pi_mkey_lease_period i" "port_mkey p = ucast (drop_bit 56 (pi_mkey i))"
    "port_mkeyprot p = drop_bit 6 (pi_mkeyprot_resv_lmc i) AND 0x3" "port_lmc p = pi_mkeyprot_resv_lmc i AND 0x7"
    "port_active_mtu p = unat (drop_bit 4 (pi_neighbormtu_mastersmsl i))"
    "port_master_smsl p = pi_neighbormtu_mastersmsl i AND 0xF"
    "port_client_reregister p = drop_bit 7 (pi_clientrereg_resv_subnetto i) AND 0x1"
    "port_subnet_timeout p = pi_clientrereg_resv_subnetto i AND 0x1F"
    "port_local_phy_errors p = drop_bit 4 (pi_localphyerrors_overrunerrors i) AND 0xF"
    "port_overrun_errors p = pi_localphyerrors_overrunerrors i AND 0xF"
    "port_sockaddr p = port_sockaddr port" "port_is_connected p = port_is_connected port"
  by (simp_all add: p_def i_def keep_link_up_def pib_subn_set_portinfo_def set_address_attrs_def set_link_attrs_def Let_def)

lemma shared_bytes:
  fixes x :: u8
  shows "push_bit 6 (drop_bit 6 x AND 3) OR (x AND 7) = x AND 0xC7"
    "push_bit 7 (drop_bit 7 x AND 1) OR (x AND 0x1F) = x AND 0x9F"
    "push_bit 4 (drop_bit 4 x AND 0xF) OR (x AND 0xF) = x"
    "push_bit 4 (of_nat (unat (drop_bit 4 x))) OR (x AND 0xF) = x"
  by (rule byte_eqI; elim insertE emptyE; simp add: bit_simps)+

lemma first_byte: "push_bit 56 (ucast (ucast (drop_bit 56 x) :: u8)) = push_bit 56 (drop_bit 56 (x :: u64))"
  by (rule bit_word_eqI) (auto simp: bit_simps)

text \<open>The part of the attribute that a port gives back as it was set.\<close>

definition portinfo_agrees :: "ib_port_info \<Rightarrow> ib_port_info \<Rightarrow> bool" where
  "portinfo_agrees j i \<longleftrightarrow> pi_lid j = pi_lid i \<and> pi_sm_lid j = pi_sm_lid i \<and> pi_gid_prefix j = pi_gid_prefix i \<and>
    pi_mkey_lease_period j = pi_mkey_lease_period i \<and>
    pi_mkeyprot_resv_lmc j = pi_mkeyprot_resv_lmc i AND 0xC7 \<and>
    pi_neighbormtu_mastersmsl j = pi_neighbormtu_mastersmsl i \<and>
    pi_clientrereg_resv_subnetto j = pi_clientrereg_resv_subnetto i AND 0x9F \<and>
    pi_localphyerrors_overrunerrors j = pi_localphyerrors_overrunerrors i"

lemma set_portinfo_agrees:
  fixes port :: pib_port
  assumes "0 < length (port_gid port)"
  shows "portinfo_agrees (portinfo_of_port (keep_link_up (pib_subn_set_portinfo smp port PIB_PORT_CA)) PIB_PORT_CA)
    (port_info_of_bytes (smp_data smp))"
  using assms unfolding portinfo_agrees_def portinfo_sel set_portinfo_sel shared_bytes by simp

lemma portinfo_read:
  "port_info_of_bytes (smp_data (pib_subn_get_portinfo smp port PIB_PORT_CA)) = portinfo_of_port port PIB_PORT_CA"
proof -
  have "length (port_info_bytes (portinfo_of_port port PIB_PORT_CA)) = 60"
    by (simp add: port_info_bytes_def portinfo_sel)
  then show ?thesis
    by (simp add: pib_subn_get_portinfo_def overlay_append port_info_of_bytes_append portinfo_sel)
qed

lemma connected_stays_up:
  assumes "port_is_connected port"
  shows "port_phys_state (keep_link_up port) = PIB_PHYS_PORT_LINK_UP" "IB_PORT_INIT \<le> port_state (keep_link_up port)"
  using assms by (simp_all add: keep_link_up_def not_less)

lemma set_then_get_portinfo:
  assumes "smp_base_version smp = IB_MGMT_BASE_VERSION" "smp_method smp = IB_MGMT_METHOD_SET"
    and "smp_attr_id smp = IB_SMP_ATTR_PORT_INFO" "smp_status smp AND NOT IB_SMP_DIRECTION = 0"
    and "unat (smp_hop_ptr smp) + 1 < PIB_SMP_MAX_PATH_HOPS" "n = portinfo_port smp in_port_num" "portinfo_port_ok d n"
    and "subn_set_portinfo smp d in_port_num = (r, d')"
  shows "\<exists>smp'. process_subn in_port_num smp d = Some (IB_MAD_RESULT_SUCCESS OR IB_MAD_RESULT_REPLY, smp', d') \<and>
    smp_method smp' = IB_MGMT_METHOD_GET_RESP \<and>
    port_info_of_bytes (smp_data smp') = portinfo_of_port (ports d' ! (unat n - 1)) PIB_PORT_CA"
proof -
  have r: "r = reply smp" "phys_port_cnt d' = phys_port_cnt d"
    using assms(6-8) by (auto simp: subn_set_portinfo_def Let_def move_lid_def)
  have f: "smp_hop_ptr (snd (reply smp)) = smp_hop_ptr smp" "smp_attr_id (snd (reply smp)) = smp_attr_id smp"
      "smp_attr_mod (snd (reply smp)) = smp_attr_mod smp" "fst (reply smp) = IB_MAD_RESULT_SUCCESS OR IB_MAD_RESULT_REPLY" for smp
    by (simp_all add: reply_def)
  have st: "smp_status (snd (reply smp)) AND NOT IB_SMP_DIRECTION = 0"
    using assms(4) by (simp add: reply_def word_bw_assocs bit.conj_disj_distrib2)
  define q where "q = pib_subn_get_portinfo (put_data [] (snd (reply smp))) (ports d' ! (unat n - 1)) PIB_PORT_CA"
  have g: "process_subn_get_method (snd (reply smp)) d' in_port_num = reply q"
  proof -
    have "portinfo_port (put_data [] (snd (reply smp))) in_port_num = n" "portinfo_port_ok d' n"
      using assms(6,7) r(2) by (simp_all add: f portinfo_port_def portinfo_port_ok_def)
    then show ?thesis
      using assms(3) by (simp add: process_subn_get_method_def subn_get_portinfo_def Let_def f q_def)
  qed
  have q: "smp_hop_ptr q = smp_hop_ptr smp" by (simp add: q_def pib_subn_get_portinfo_def f)
  let ?smp = "(snd (reply q)) \<lparr> smp_return_path := (smp_return_path (snd (reply q)))[unat (smp_hop_ptr smp) + 1 := in_port_num] \<rparr>"
  have "process_subn in_port_num smp d = Some (fst (reply q), ?smp, d')"
    using assms(1-5,8) g st by (simp add: process_subn_def process_subn_set_method_def Let_def r(1) split_beta f q)
  moreover have "port_info_of_bytes (smp_data ?smp) = portinfo_of_port (ports d' ! (unat n - 1)) PIB_PORT_CA"
    by (simp add: reply_def q_def portinfo_read)
  ultimately show ?thesis
    by (intro exI [of _ ?smp]) (simp add: f reply_def)
qed

text \<open>
  C11. Setting PortInfo.  A Set(PortInfo) packet for a port of the adapter is answered with the attribute as it is
  afterwards: addresses, prefix, lease period, protection, MTU, service level, re-registration, timeout and
  error thresholds are those that were set; of the management key only the first byte is kept, and the number
  of the port is always reported as zero.  No other port changes.  A connected port stays up and at least initialised,
  the table of addresses leads from the new address to the port and no longer from the old one,
  and exactly the events for what changed are dispatched.
\<close>

theorem set_portinfo_reads_back:
  assumes "smp_base_version smp = IB_MGMT_BASE_VERSION" "smp_method smp = IB_MGMT_METHOD_SET"
    and "smp_attr_id smp = IB_SMP_ATTR_PORT_INFO" "smp_status smp AND NOT IB_SMP_DIRECTION = 0"
    and "unat (smp_hop_ptr smp) + 1 < PIB_SMP_MAX_PATH_HOPS" "n = portinfo_port smp in_port_num" "portinfo_port_ok d n"
    and "length (ports d) = phys_port_cnt d" "old = ports d ! (unat n - 1)" "0 < length (port_gid old)"
    and "i = port_info_of_bytes (smp_data smp)"
  shows "\<exists>smp' d'. process_subn in_port_num smp d = Some (IB_MAD_RESULT_SUCCESS OR IB_MAD_RESULT_REPLY, smp', d') \<and>
    (let j = port_info_of_bytes (smp_data smp'); new = ports d' ! (unat n - 1) in
     portinfo_agrees j i \<and> pi_mkey j = push_bit 56 (drop_bit 56 (pi_mkey i)) \<and> pi_local_port_num j = 0 \<and>
     (\<forall>k. k \<noteq> unat n - 1 \<longrightarrow> ports d' ! k = ports d ! k) \<and>
     (port_is_connected old \<longrightarrow> port_phys_state new = PIB_PHYS_PORT_LINK_UP \<and> IB_PORT_INIT \<le> port_state new) \<and>
     (\<not> multi_host_mode (module d) \<longrightarrow> pi_lid i \<noteq> port_lid old \<longrightarrow>
        (pi_lid i \<noteq> 0 \<longrightarrow> lid_table d' (pi_lid i) = Some (port_sockaddr old)) \<and>
        (port_lid old \<noteq> 0 \<longrightarrow> lid_table d' (port_lid old) = None)) \<and>
     callbacks d' = callbacks d @ map (\<lambda>e. Port_event e n)
       ((if flag_set (pi_clientrereg_resv_subnetto i) 0x80 then [IB_EVENT_CLIENT_REREGISTER] else []) @
        (if port_state old = IB_PORT_ACTIVE \<and> port_state new \<noteq> IB_PORT_ACTIVE then [IB_EVENT_PORT_ERR] else []) @
        (if port_state old \<noteq> IB_PORT_ACTIVE \<and> port_state new = IB_PORT_ACTIVE then [IB_EVENT_PORT_ACTIVE] else []) @
        (if pi_sm_lid i \<noteq> port_sm_lid old then [IB_EVENT_SM_CHANGE] else []) @
        (if pi_lid i \<noteq> port_lid old then [IB_EVENT_LID_CHANGE] else [])))"
proof -
  obtain r d' where s: "subn_set_portinfo smp d in_port_num = (r, d')" by (rule prod.exhaust)
  let ?new = "keep_link_up (pib_subn_set_portinfo smp old PIB_PORT_CA)"
  have k: "unat n - 1 < length (ports d)" "0 < unat n"
    using assms(7,8) by (auto simp: portinfo_port_ok_def word_less_nat_alt not_less)
  have d': "ports d' = (ports d)[unat n - 1 := ?new]" "lid_table d' = lid_table (move_lid (port_lid old) (pi_lid i) (port_sockaddr old) d)"
    using s assms(6,7,9,11) by (auto simp: subn_set_portinfo_def Let_def move_lid_def)
  have new: "ports d' ! (unat n - 1) = ?new" using k d'(1) by simp
  obtain smp' where p: "process_subn in_port_num smp d = Some (IB_MAD_RESULT_SUCCESS OR IB_MAD_RESULT_REPLY, smp', d')"
      "port_info_of_bytes (smp_data smp') = portinfo_of_port ?new PIB_PORT_CA"
    using set_then_get_portinfo [OF assms(1-7) s] new by auto
  have c: "port_is_connected old \<longrightarrow> port_phys_state ?new = PIB_PHYS_PORT_LINK_UP \<and> IB_PORT_INIT \<le> port_state ?new"
    using connected_stays_up [of "pib_subn_set_portinfo smp old PIB_PORT_CA"] set_portinfo_sel(15) [of smp old]
    by (metis keep_link_up_def)
  have a: "portinfo_agrees (portinfo_of_port ?new PIB_PORT_CA) i"
    using set_portinfo_agrees assms(10,11) by simp
  have cb: "callbacks d' = callbacks d @ map (\<lambda>e. Port_event e n)
       ((if flag_set (pi_clientrereg_resv_subnetto i) 0x80 then [IB_EVENT_CLIENT_REREGISTER] else []) @
        (if port_state old = IB_PORT_ACTIVE \<and> port_state ?new \<noteq> IB_PORT_ACTIVE then [IB_EVENT_PORT_ERR] else []) @
        (if port_state old \<noteq> IB_PORT_ACTIVE \<and> port_state ?new = IB_PORT_ACTIVE then [IB_EVENT_PORT_ACTIVE] else []) @
        (if pi_sm_lid i \<noteq> port_sm_lid old then [IB_EVENT_SM_CHANGE] else []) @
        (if pi_lid i \<noteq> port_lid old then [IB_EVENT_LID_CHANGE] else []))"
    using s assms(6,7,9,11) by (auto simp: subn_set_portinfo_def Let_def move_lid_def)
  show ?thesis
    using p(1) a c cb k
    by (intro exI [of _ smp'] exI [of _ d'])
      (auto simp: Let_def p(2) new portinfo_sel set_portinfo_sel first_byte assms(11) d' move_lid_def)
qed

definition example_smp :: ib_smp where
  "example_smp = \<lparr> smp_base_version = 1, smp_mgmt_class = IB_MGMT_CLASS_SUBN_LID_ROUTED, smp_class_version = 1,
     smp_method = IB_MGMT_METHOD_SET, smp_status = 0, smp_hop_ptr = 0, smp_hop_cnt = 0, smp_tid = 9,
     smp_attr_id = IB_SMP_ATTR_PORT_INFO, smp_resv = 0, smp_attr_mod = 2, smp_mkey = 0, smp_dr_slid = 0, smp_dr_dlid = 0,
     smp_reserved = replicate 28 0,
     smp_data = overlay 64 (port_info_bytes (zero_port_info \<lparr> pi_lid := 5, pi_sm_lid := 1, pi_linkspeed_portstate := 4 \<rparr>)),
     smp_initial_path = replicate 64 0, smp_return_path = replicate 64 0 \<rparr>"

theorem set_portinfo_reads_back_witness:
  "\<exists>smp' d'. process_subn 1 example_smp example_attr_dev = Some (3, smp', d') \<and>
    pi_lid (port_info_of_bytes (smp_data smp')) = 5 \<and> lid_table d' 5 = Some (port_sockaddr example_port)"
proof -
  let ?i = "zero_port_info \<lparr> pi_lid := 5, pi_sm_lid := 1, pi_linkspeed_portstate := 4 \<rparr>"
  have l: "length (port_info_bytes ?i) = 60" "length (pi_link_roundtrip_latency ?i) = 3"
    by (simp_all add: port_info_bytes_def zero_port_info_def)
  have i: "?i = port_info_of_bytes (smp_data example_smp)"
    using l by (simp add: example_smp_def overlay_append port_info_of_bytes_append)
  have n: "portinfo_port example_smp 1 = 2" by (simp add: portinfo_port_def example_smp_def)
  have h: "portinfo_port_ok example_attr_dev 2" "example_port = ports example_attr_dev ! (unat (2 :: u32) - 1)"
      "length (ports example_attr_dev) = phys_port_cnt example_attr_dev" "\<not> multi_host_mode (module example_attr_dev)"
    by (simp_all add: portinfo_port_ok_def example_attr_dev_def blank_dev_def)
  have p: "port_lid example_port \<noteq> 5" "0 < length (port_gid example_port)"
    by (simp_all add: example_port_def zero_port_def mgmt_port.defs zero_mgmt_port_def)
  have f: "smp_base_version example_smp = IB_MGMT_BASE_VERSION" "smp_method example_smp = IB_MGMT_METHOD_SET"
      "smp_attr_id example_smp = IB_SMP_ATTR_PORT_INFO" "smp_status example_smp AND NOT IB_SMP_DIRECTION = 0"
      "unat (smp_hop_ptr example_smp) + 1 < PIB_SMP_MAX_PATH_HOPS"
    by (simp_all add: example_smp_def)
  show ?thesis
    using set_portinfo_reads_back [OF f n [symmetric] h(1,3,2) p(2) i] h(4) p(1)
    by (fastforce simp: Let_def portinfo_agrees_def)
qed

end
