(* ===== verification/Pib_PMA.thy ===== *)
theory Pib_PMA
  imports Pib_SMA
begin

text \<open>
  The performance management agent, \<^verbatim>\<open>driver/pib_mad_pma.c\<close>, of the adapters and of the easy switch, and the
  entry of the stack into both agents of an adapter (\<^verbatim>\<open>driver/pib_mad.c\<close>).  The layouts of the attributes are those of
  \<^verbatim>\<open>ib_pma.h\<close>.  Shown here: a narrow counter reads as the least of the counter and the largest number of
  its width; the wide counters read back what was set; and setting the narrow counters never returns.

  The result of an agent is the code of \<^verbatim>\<open>ib_mad.h\<close>, the packet to answer and the ports;
  \<open>None\<close> is a call that does not return or an access outside the ports.
\<close>

section \<open>Packets\<close>

abbreviation (input) "PIB_PMA_CLASS_VERSION \<equiv> (1 :: u8)"
abbreviation (input) "PIB_PMA_STATUS_BAD_VERSION \<equiv> (0x04 :: u16)"
abbreviation (input) "PIB_PMA_STATUS_UNSUPPORTED_METHOD \<equiv> (0x08 :: u16)"
abbreviation (input) "PIB_PMA_STATUS_UNSUPPORTED_METHOD_ATTRIB \<equiv> (0x0C :: u16)"
abbreviation (input) "PIB_PMA_STATUS_INVALID_ATTRIB_VALUE \<equiv> (0x1C :: u16)"
abbreviation (input) "IB_PMA_CLASS_PORT_INFO \<equiv> (0x0001 :: u16)"
abbreviation (input) "IB_PMA_PORT_SAMPLES_CONTROL \<equiv> (0x0010 :: u16)"
abbreviation (input) "IB_PMA_PORT_SAMPLES_RESULT \<equiv> (0x0011 :: u16)"
abbreviation (input) "IB_PMA_PORT_COUNTERS \<equiv> (0x0012 :: u16)"
abbreviation (input) "IB_PMA_PORT_COUNTERS_EXT \<equiv> (0x001D :: u16)"
abbreviation (input) "IB_PMA_PORT_SAMPLES_RESULT_EXT \<equiv> (0x001E :: u16)"
abbreviation (input) "IB_PMA_CLASS_CAP_EXT_WIDTH \<equiv> (0x0200 :: u16)"
abbreviation (input) "PIB_PMA_SAMPLE_STATUS_DONE \<equiv> (0 :: u8)"

record ib_pma_mad =
  pma_base_version :: u8
  pma_mgmt_class :: u8
  pma_class_version :: u8
  pma_method :: u8
  pma_status :: u16
  pma_class_specific :: u16
  pma_tid :: u64
  pma_attr_id :: u16
  pma_resv :: u16
  pma_attr_mod :: u32
  pma_reserved :: "u8 list"
  pma_data :: "u8 list"

definition pma_bytes :: "ib_pma_mad \<Rightarrow> u8 list" where
  "pma_bytes p = [pma_base_version p, pma_mgmt_class p, pma_class_version p, pma_method p] @ bytes_be 2 (pma_status p) @
     bytes_be 2 (pma_class_specific p) @ bytes_be 8 (pma_tid p) @ bytes_be 2 (pma_attr_id p) @ bytes_be 2 (pma_resv p) @
     bytes_be 4 (pma_attr_mod p) @ pma_reserved p @ pma_data p"

definition pma_of_bytes :: "u8 list \<Rightarrow> ib_pma_mad" where
  "pma_of_bytes b = \<lparr> pma_base_version = b ! 0, pma_mgmt_class = b ! 1, pma_class_version = b ! 2, pma_method = b ! 3,
     pma_status = word_be (field_at 4 2 b), pma_class_specific = word_be (field_at 6 2 b), pma_tid = word_be (field_at 8 8 b),
     pma_attr_id = word_be (field_at 16 2 b), pma_resv = word_be (field_at 18 2 b), pma_attr_mod = word_be (field_at 20 4 b),
     pma_reserved = field_at 24 40 b, pma_data = field_at 64 192 b \<rparr>"

abbreviation put_pma :: "u8 list \<Rightarrow> ib_pma_mad \<Rightarrow> ib_pma_mad" where
  "put_pma bytes p \<equiv> p \<lparr> pma_data := overlay 192 bytes \<rparr>"

record ib_pma_portcounters =
  pc_port_select :: u8
  pc_counter_select :: u16
  pc_symbol_error_counter :: u16
  pc_link_error_recovery_counter :: u8
  pc_link_downed_counter :: u8
  pc_port_rcv_errors :: u16
  pc_port_rcv_remphys_errors :: u16
  pc_port_rcv_switch_relay_errors :: u16
  pc_port_xmit_discards :: u16
  pc_port_xmit_constraint_errors :: u8
  pc_port_rcv_constraint_errors :: u8
  pc_link_overrun_errors :: u8
  pc_vl15_dropped :: u16
  pc_port_xmit_data :: u32
  pc_port_rcv_data :: u32
  pc_port_xmit_packets :: u32
  pc_port_rcv_packets :: u32
  pc_port_xmit_wait :: u32

definition portcounters_bytes :: "ib_pma_portcounters \<Rightarrow> u8 list" where
  "portcounters_bytes p = [0, pc_port_select p] @ bytes_be 2 (pc_counter_select p) @ bytes_be 2 (pc_symbol_error_counter p) @
     [pc_link_error_recovery_counter p, pc_link_downed_counter p] @ bytes_be 2 (pc_port_rcv_errors p) @
     bytes_be 2 (pc_port_rcv_remphys_errors p) @ bytes_be 2 (pc_port_rcv_switch_relay_errors p) @
     bytes_be 2 (pc_port_xmit_discards p) @
     [pc_port_xmit_constraint_errors p, pc_port_rcv_constraint_errors p, 0, pc_link_overrun_errors p, 0, 0] @
     bytes_be 2 (pc_vl15_dropped p) @ bytes_be 4 (pc_port_xmit_data p) @ bytes_be 4 (pc_port_rcv_data p) @
     bytes_be 4 (pc_port_xmit_packets p) @ bytes_be 4 (pc_port_rcv_packets p) @ bytes_be 4 (pc_port_xmit_wait p)"

definition portcounters_of_bytes :: "u8 list \<Rightarrow> ib_pma_portcounters" where
  "portcounters_of_bytes b = \<lparr> pc_port_select = b ! 1, pc_counter_select = word_be (field_at 2 2 b),
     pc_symbol_error_counter = word_be (field_at 4 2 b), pc_link_error_recovery_counter = b ! 6,
     pc_link_downed_counter = b ! 7, pc_port_rcv_errors = word_be (field_at 8 2 b),
     pc_port_rcv_remphys_errors = word_be (field_at 10 2 b), pc_port_rcv_switch_relay_errors = word_be (field_at 12 2 b),
     pc_port_xmit_discards = word_be (field_at 14 2 b), pc_port_xmit_constraint_errors = b ! 16,
     pc_port_rcv_constraint_errors = b ! 17, pc_link_overrun_errors = b ! 19, pc_vl15_dropped = word_be (field_at 22 2 b),
     pc_port_xmit_data = word_be (field_at 24 4 b), pc_port_rcv_data = word_be (field_at 28 4 b),
     pc_port_xmit_packets = word_be (field_at 32 4 b), pc_port_rcv_packets = word_be (field_at 36 4 b),
     pc_port_xmit_wait = word_be (field_at 40 4 b) \<rparr>"

record ib_pma_portcounters_ext =
  px_port_select :: u8
  px_counter_select :: u16
  px_port_xmit_data :: u64
  px_port_rcv_data :: u64
  px_port_xmit_packets :: u64
  px_port_rcv_packets :: u64
  px_port_unicast_xmit_packets :: u64
  px_port_unicast_rcv_packets :: u64
  px_port_multicast_xmit_packets :: u64
  px_port_multicast_rcv_packets :: u64

definition portcounters_ext_bytes :: "ib_pma_portcounters_ext \<Rightarrow> u8 list" where
  "portcounters_ext_bytes p = [0, px_port_select p] @ bytes_be 2 (px_counter_select p) @ [0, 0, 0, 0] @
     bytes_be 8 (px_port_xmit_data p) @ bytes_be 8 (px_port_rcv_data p) @ bytes_be 8 (px_port_xmit_packets p) @
     bytes_be 8 (px_port_rcv_packets p) @ bytes_be 8 (px_port_unicast_xmit_packets p) @
     bytes_be 8 (px_port_unicast_rcv_packets p) @ bytes_be 8 (px_port_multicast_xmit_packets p) @
     bytes_be 8 (px_port_multicast_rcv_packets p)"

definition portcounters_ext_of_bytes :: "u8 list \<Rightarrow> ib_pma_portcounters_ext" where
  "portcounters_ext_of_bytes b = \<lparr> px_port_select = b ! 1, px_counter_select = word_be (field_at 2 2 b),
     px_port_xmit_data = word_be (field_at 8 8 b), px_port_rcv_data = word_be (field_at 16 8 b),
     px_port_xmit_packets = word_be (field_at 24 8 b), px_port_rcv_packets = word_be (field_at 32 8 b),
     px_port_unicast_xmit_packets = word_be (field_at 40 8 b), px_port_unicast_rcv_packets = word_be (field_at 48 8 b),
     px_port_multicast_xmit_packets = word_be (field_at 56 8 b),
     px_port_multicast_rcv_packets = word_be (field_at 64 8 b) \<rparr>"

record ib_pma_portsamplescontrol =
  sc_opcode :: u8
  sc_port_select :: u8
  sc_tick :: u8
  sc_counter_width :: u8
  sc_counter_mask0_9 :: u32
  sc_counter_mask10_14 :: u16
  sc_sample_mechanisms :: u8
  sc_sample_status :: u8
  sc_sample_start :: u32
  sc_sample_interval :: u32
  sc_tag :: u16
  sc_counter_select :: "u16 list"

definition samplescontrol_bytes :: "ib_pma_portsamplescontrol \<Rightarrow> u8 list" where
  "samplescontrol_bytes p = [sc_opcode p, sc_port_select p, sc_tick p, sc_counter_width p] @ bytes_be 4 (sc_counter_mask0_9 p) @
     bytes_be 2 (sc_counter_mask10_14 p) @ [sc_sample_mechanisms p, sc_sample_status p] @ replicate 16 0 @
     bytes_be 4 (sc_sample_start p) @ bytes_be 4 (sc_sample_interval p) @ bytes_be 2 (sc_tag p) @
     pkeys_bytes (sc_counter_select p)"

section \<open>Saturation\<close>

definition get_saturation4 :: "u64 \<Rightarrow> u8" where
  "get_saturation4 v = (if 0xF < v then 0xF else ucast (v AND 0xF))"

definition get_saturation8 :: "u64 \<Rightarrow> u8" where
  "get_saturation8 v = (if 0xFF < v then 0xFF else ucast v)"

definition get_saturation16 :: "u64 \<Rightarrow> u16" where
  "get_saturation16 v = (if 0xFFFF < v then 0xFFFF else ucast v)"

definition get_saturation32 :: "u64 \<Rightarrow> u32" where
  "get_saturation32 v = (if drop_bit 32 v \<noteq> 0 then 0xFFFFFFFF else ucast v)"

section \<open>Reading counters\<close>

text \<open>
  A node is the ports the agent works on with the first port number and the one after the last.  The status is stored
  without the conversion to network order.
\<close>

record 'a pib_node =
  node_port_count :: u8
  node_port_start :: u8
  node_ports :: "'a mgmt_port_scheme list"

type_synonym 'a pma_result = "(u32 \<times> ib_pma_mad \<times> 'a pib_node) option"

abbreviation bad_status :: "u16 \<Rightarrow> ib_pma_mad \<Rightarrow> ib_pma_mad" where
  "bad_status b p \<equiv> p \<lparr> pma_status := swab16 b \<rparr>"

definition pma_reply :: "ib_pma_mad \<Rightarrow> 'a pib_node \<Rightarrow> 'a pma_result" where
  "pma_reply p node = Some (IB_MAD_RESULT_SUCCESS OR IB_MAD_RESULT_REPLY, p \<lparr> pma_method := IB_MGMT_METHOD_GET_RESP \<rparr>, node)"

definition node_port :: "'a pib_node \<Rightarrow> u8 \<Rightarrow> 'a mgmt_port_scheme option" where
  "node_port node n =
    (if node_port_start node \<le> n \<and> unat n - unat (node_port_start node) < length (node_ports node)
     then Some (node_ports node ! (unat n - unat (node_port_start node))) else None)"

definition port_select_ok :: "'a pib_node \<Rightarrow> u8 \<Rightarrow> bool" where
  "port_select_ok node port_select \<longleftrightarrow> \<not> (port_select < node_port_start node \<or> node_port_count node \<le> port_select)"

definition set_node_perf :: "u8 \<Rightarrow> (pib_port_perf \<Rightarrow> pib_port_perf) \<Rightarrow> 'a pib_node \<Rightarrow> 'a pib_node" where
  "set_node_perf n f node =
    (let k = unat n - unat (node_port_start node); port = node_ports node ! k
     in node \<lparr> node_ports := (node_ports node)[k := port \<lparr> port_perf := f (port_perf port) \<rparr>] \<rparr>)"

definition pma_get_class_port_info :: "ib_pma_mad \<Rightarrow> 'a pib_node \<Rightarrow> 'a pma_result" where
  "pma_get_class_port_info p node =
    (let p = put_pma [] p in
     if pma_attr_mod p \<noteq> 0 then pma_reply (bad_status PIB_PMA_STATUS_INVALID_ATTRIB_VALUE p) node
     else pma_reply (put_pma ([IB_MGMT_BASE_VERSION, PIB_PMA_CLASS_VERSION] @ bytes_be 2 IB_PMA_CLASS_CAP_EXT_WIDTH @
            [0, 0, 0, 18]) p) node)"

definition pma_get_port_samples_control :: "ib_pma_mad \<Rightarrow> 'a pib_node \<Rightarrow> 'a pma_result" where
  "pma_get_port_samples_control p node =
    (let port_select = pma_data p ! 1; p = put_pma [0, port_select] p in
     if pma_attr_mod p \<noteq> 0 \<or> \<not> port_select_ok node port_select
     then pma_reply (bad_status PIB_PMA_STATUS_INVALID_ATTRIB_VALUE p) node
     else case node_port node port_select of
       None \<Rightarrow> None
     | Some port \<Rightarrow>
         let perf = port_perf port
         in pma_reply (put_pma (samplescontrol_bytes \<lparr> sc_opcode = perf_OpCode perf, sc_port_select = port_select, sc_tick = 1,
              sc_counter_width = 4, sc_counter_mask0_9 = 0x09249249, sc_counter_mask10_14 = 0x1249, sc_sample_mechanisms = 0,
              sc_sample_status = PIB_PMA_SAMPLE_STATUS_DONE, sc_sample_start = 0, sc_sample_interval = 0,
              sc_tag = perf_tag perf, sc_counter_select = take 15 (perf_counter_select perf) \<rparr>) p) node)"

text \<open>The control is cleared before it is read: what is stored is always zero.\<close>

definition pma_set_port_samples_control :: "ib_pma_mad \<Rightarrow> 'a pib_node \<Rightarrow> 'a pma_result" where
  "pma_set_port_samples_control p node =
    (let port_select = pma_data p ! 1; p = put_pma [0, port_select] p in
     if pma_attr_mod p \<noteq> 0 \<or> \<not> port_select_ok node port_select
     then pma_get_port_samples_control (bad_status PIB_PMA_STATUS_INVALID_ATTRIB_VALUE p) node
     else case node_port node port_select of
       None \<Rightarrow> None
     | Some _ \<Rightarrow>
         let b = pma_data p;
             f = (\<lambda>perf. perf \<lparr> perf_OpCode := b ! 0, perf_tag := word_be (field_at 36 2 b),
                    perf_counter_select := map (\<lambda>i. word_be (field_at (38 + 2 * i) 2 b)) [0..<15] @
                      drop 15 (perf_counter_select perf) \<rparr>)
         in pma_get_port_samples_control p (set_node_perf port_select f node))"

text \<open>The results of sampling are those of the port the packet came in through.\<close>

definition pma_get_port_samples_result :: "ib_pma_mad \<Rightarrow> 'a pib_node \<Rightarrow> u8 \<Rightarrow> 'a pma_result" where
  "pma_get_port_samples_result p node port_num =
    (let p = put_pma [] p in
     if pma_attr_mod p \<noteq> 0 then pma_reply (bad_status PIB_PMA_STATUS_INVALID_ATTRIB_VALUE p) node
     else case node_port node port_num of
       None \<Rightarrow> None
     | Some port \<Rightarrow>
         pma_reply (put_pma (bytes_be 2 (perf_tag (port_perf port)) @ bytes_be 2 (0 :: u16) @
           concat (map (\<lambda>c. bytes_be 4 (ucast c :: u32)) (take 15 (perf_counter (port_perf port))))) p) node)"

definition pma_get_port_samples_result_ext :: "ib_pma_mad \<Rightarrow> 'a pib_node \<Rightarrow> u8 \<Rightarrow> 'a pma_result" where
  "pma_get_port_samples_result_ext p node port_num =
    (let p = put_pma [] p in
     if pma_attr_mod p \<noteq> 0 then pma_reply (bad_status PIB_PMA_STATUS_INVALID_ATTRIB_VALUE p) node
     else case node_port node port_num of
       None \<Rightarrow> None
     | Some port \<Rightarrow>
         pma_reply (put_pma (bytes_be 2 (perf_tag (port_perf port)) @ bytes_be 2 (0 :: u16) @ bytes_be 4 (0x80000000 :: u32) @
           concat (map (bytes_be 8) (take 15 (perf_counter (port_perf port))))) p) node)"

definition portcounters_of_perf :: "u8 \<Rightarrow> pib_port_perf \<Rightarrow> ib_pma_portcounters" where
  "portcounters_of_perf port_select perf = \<lparr> pc_port_select = port_select, pc_counter_select = 0,
     pc_symbol_error_counter = get_saturation16 (symbol_error_counter perf),
     pc_link_error_recovery_counter = get_saturation8 (link_error_recovery_counter perf),
     pc_link_downed_counter = get_saturation8 (link_downed_counter perf),
     pc_port_rcv_errors = get_saturation16 (rcv_errors perf),
     pc_port_rcv_remphys_errors = get_saturation16 (rcv_remphys_errors perf),
     pc_port_rcv_switch_relay_errors = get_saturation16 (rcv_switch_relay_errors perf),
     pc_port_xmit_discards = get_saturation16 (xmit_discards perf),
     pc_port_xmit_constraint_errors = get_saturation8 (xmit_constraint_errors perf),
     pc_port_rcv_constraint_errors = get_saturation8 (rcv_constraint_errors perf),
     pc_link_overrun_errors = push_bit 4 (get_saturation4 (local_link_integrity_errors perf)) OR
       get_saturation4 (excessive_buffer_overrun_errors perf),
     pc_vl15_dropped = get_saturation16 (vl15_dropped perf),
     pc_port_xmit_data = get_saturation32 (xmit_data perf), pc_port_rcv_data = get_saturation32 (rcv_data perf),
     pc_port_xmit_packets = get_saturation32 (xmit_packets perf), pc_port_rcv_packets = get_saturation32 (rcv_packets perf),
     pc_port_xmit_wait = get_saturation32 (xmit_wait perf) \<rparr>"

definition pma_get_port_counters :: "ib_pma_mad \<Rightarrow> 'a pib_node \<Rightarrow> 'a pma_result" where
  "pma_get_port_counters p node =
    (let port_select = pma_data p ! 1; p = put_pma [0, port_select] p in
     if pma_attr_mod p \<noteq> 0 \<or> \<not> port_select_ok node port_select
     then pma_reply (bad_status PIB_PMA_STATUS_INVALID_ATTRIB_VALUE p) node
     else case node_port node port_select of
       None \<Rightarrow> None
     | Some port \<Rightarrow> pma_reply (put_pma (portcounters_bytes (portcounters_of_perf port_select (port_perf port))) p) node)"

definition pma_get_port_counters_ext :: "ib_pma_mad \<Rightarrow> 'a pib_node \<Rightarrow> 'a pma_result" where
  "pma_get_port_counters_ext p node =
    (let port_select = pma_data p ! 1; p = put_pma [0, port_select] p in
     if pma_attr_mod p \<noteq> 0 \<or> \<not> port_select_ok node port_select
     then pma_reply (bad_status PIB_PMA_STATUS_INVALID_ATTRIB_VALUE p) node
     else case node_port node port_select of
       None \<Rightarrow> None
     | Some port \<Rightarrow>
         let perf = port_perf port
         in pma_reply (put_pma (portcounters_ext_bytes \<lparr> px_port_select = port_select, px_counter_select = 0,
              px_port_xmit_data = xmit_data perf, px_port_rcv_data = rcv_data perf,
              px_port_xmit_packets = xmit_packets perf, px_port_rcv_packets = rcv_packets perf,
              px_port_unicast_xmit_packets = unicast_xmit_packets perf, px_port_unicast_rcv_packets = unicast_rcv_packets perf,
              px_port_multicast_xmit_packets = multicast_xmit_packets perf,
              px_port_multicast_rcv_packets = multicast_rcv_packets perf \<rparr>) p) node)"

definition pma_get_method :: "ib_pma_mad \<Rightarrow> 'a pib_node \<Rightarrow> u8 \<Rightarrow> 'a pma_result" where
  "pma_get_method p node port_num =
    (let a = pma_attr_id p in
     if a = IB_PMA_CLASS_PORT_INFO then pma_get_class_port_info p node
     else if a = IB_PMA_PORT_SAMPLES_CONTROL then pma_get_port_samples_control p node
     else if a = IB_PMA_PORT_SAMPLES_RESULT then pma_get_port_samples_result p node port_num
     else if a = IB_PMA_PORT_SAMPLES_RESULT_EXT then pma_get_port_samples_result_ext p node port_num
     else if a = IB_PMA_PORT_COUNTERS then pma_get_port_counters p node
     else if a = IB_PMA_PORT_COUNTERS_EXT then pma_get_port_counters_ext p node
     else pma_reply (bad_status PIB_PMA_STATUS_UNSUPPORTED_METHOD_ATTRIB p) node)"

section \<open>Setting counters\<close>

abbreviation set_if :: "bool \<Rightarrow> (pib_port_perf \<Rightarrow> pib_port_perf) \<Rightarrow> pib_port_perf \<Rightarrow> pib_port_perf" where
  "set_if b f perf \<equiv> (if b then f perf else perf)"

definition store_counters :: "ib_pma_portcounters \<Rightarrow> pib_port_perf \<Rightarrow> pib_port_perf" where
  "store_counters p perf =
    (let sel = (\<lambda>b. flag_set (pc_counter_select p) b);
         perf = set_if (sel 0x0001) (symbol_error_counter_update (\<lambda>_. ucast (pc_symbol_error_counter p))) perf;
         perf = set_if (sel 0x0002) (link_error_recovery_counter_update (\<lambda>_. ucast (pc_link_error_recovery_counter p))) perf;
         perf = set_if (sel 0x0004) (link_downed_counter_update (\<lambda>_. ucast (pc_link_downed_counter p))) perf;
         perf = set_if (sel 0x0008) (rcv_errors_update (\<lambda>_. ucast (pc_port_rcv_errors p))) perf;
         perf = set_if (sel 0x0010) (rcv_remphys_errors_update (\<lambda>_. ucast (pc_port_rcv_remphys_errors p))) perf;
         perf = set_if (sel 0x0020) (rcv_switch_relay_errors_update (\<lambda>_. ucast (pc_port_rcv_switch_relay_errors p))) perf;
         perf = set_if (sel 0x0040) (xmit_discards_update (\<lambda>_. ucast (pc_port_xmit_discards p))) perf;
         perf = set_if (sel 0x0080) (xmit_constraint_errors_update (\<lambda>_. ucast (pc_port_xmit_constraint_errors p))) perf;
         perf = set_if (sel 0x0100) (rcv_constraint_errors_update (\<lambda>_. ucast (pc_port_rcv_constraint_errors p))) perf;
         perf = set_if (sel 0x0200) (local_link_integrity_errors_update
                  (\<lambda>_. ucast (drop_bit 4 (pc_link_overrun_errors p) AND 0xF))) perf;
         perf = set_if (sel 0x0400) (excessive_buffer_overrun_errors_update
                  (\<lambda>_. ucast (pc_link_overrun_errors p AND 0xF))) perf;
         perf = set_if (sel 0x0800) (vl15_dropped_update (\<lambda>_. ucast (pc_vl15_dropped p))) perf;
         perf = set_if (sel 0x1000) (xmit_data_update (\<lambda>_. ucast (pc_port_xmit_data p))) perf;
         perf = set_if (sel 0x2000) (rcv_data_update (\<lambda>_. ucast (pc_port_rcv_data p))) perf;
         perf = set_if (sel 0x4000) (xmit_packets_update (\<lambda>_. ucast (pc_port_xmit_packets p))) perf
     in set_if (sel 0x8000) (rcv_packets_update (\<lambda>_. ucast (pc_port_rcv_packets p))) perf)"

text \<open>What a call does before it calls itself: the packet is cleared before the counters to set are read from it.\<close>

definition pma_set_port_counters_once :: "ib_pma_mad \<Rightarrow> 'a pib_node \<Rightarrow> (ib_pma_mad \<times> 'a pib_node) option" where
  "pma_set_port_counters_once p node =
    (let port_select = pma_data p ! 1; p = put_pma [0, port_select] p in
     if pma_attr_mod p \<noteq> 0 \<or> \<not> port_select_ok node port_select
     then Some (bad_status PIB_PMA_STATUS_INVALID_ATTRIB_VALUE p, node)
     else case node_port node port_select of
       None \<Rightarrow> None
     | Some _ \<Rightarrow> Some (p, set_node_perf port_select (store_counters (portcounters_of_bytes (pma_data p))) node))"

text \<open>The last statement is a call of the function itself.\<close>

partial_function (option) pma_set_port_counters :: "ib_pma_mad \<Rightarrow> 'a pib_node \<Rightarrow> 'a pma_result" where
  "pma_set_port_counters p node =
    (case pma_set_port_counters_once p node of
       None \<Rightarrow> None
     | Some (p, node) \<Rightarrow> pma_set_port_counters p node)"

definition store_counters_ext :: "ib_pma_portcounters_ext \<Rightarrow> pib_port_perf \<Rightarrow> pib_port_perf" where
  "store_counters_ext p perf =
    (let sel = (\<lambda>b. flag_set (px_counter_select p) b);
         perf = set_if (sel 0x0001) (xmit_data_update (\<lambda>_. px_port_xmit_data p)) perf;
         perf = set_if (sel 0x0002) (rcv_data_update (\<lambda>_. px_port_rcv_data p)) perf;
         perf = set_if (sel 0x0004) (xmit_packets_update (\<lambda>_. px_port_xmit_packets p)) perf
     in set_if (sel 0x0008) (rcv_packets_update (\<lambda>_. px_port_rcv_packets p)) perf)"

text \<open>
  The counters of unicast and multicast packets are cleared in the packet, not in the port; the answer is then
  filled from the port again.
\<close>

definition clear_at :: "bool \<Rightarrow> nat \<Rightarrow> u8 list \<Rightarrow> u8 list" where
  "clear_at b off xs = (if b then take off xs @ replicate 8 0 @ drop (off + 8) xs else xs)"

definition clear_in_packet :: "ib_pma_mad \<Rightarrow> ib_pma_mad" where
  "clear_in_packet p =
    (let sel = (\<lambda>b. flag_set (px_counter_select (portcounters_ext_of_bytes (pma_data p))) b)
     in p \<lparr> pma_data := clear_at (sel 0x0080) 64 (clear_at (sel 0x0040) 56 (clear_at (sel 0x0020) 48
             (clear_at (sel 0x0010) 40 (pma_data p)))) \<rparr>)"

definition pma_set_port_counters_ext :: "ib_pma_mad \<Rightarrow> 'a pib_node \<Rightarrow> 'a pma_result" where
  "pma_set_port_counters_ext p node =
    (let port_select = pma_data p ! 1 in
     if pma_attr_mod p \<noteq> 0 \<or> \<not> port_select_ok node port_select
     then pma_get_port_counters_ext (bad_status PIB_PMA_STATUS_INVALID_ATTRIB_VALUE p) node
     else case node_port node port_select of
       None \<Rightarrow> None
     | Some _ \<Rightarrow> pma_get_port_counters_ext (clear_in_packet p)
         (set_node_perf port_select (store_counters_ext (portcounters_ext_of_bytes (pma_data p))) node))"

definition pma_set_method :: "ib_pma_mad \<Rightarrow> 'a pib_node \<Rightarrow> 'a pma_result" where
  "pma_set_method p node =
    (let a = pma_attr_id p in
     if a = IB_PMA_PORT_SAMPLES_CONTROL then pma_set_port_samples_control p node
     else if a = IB_PMA_PORT_COUNTERS then pma_set_port_counters p node
     else if a = IB_PMA_PORT_COUNTERS_EXT then pma_set_port_counters_ext p node
     else pma_reply (bad_status PIB_PMA_STATUS_UNSUPPORTED_METHOD_ATTRIB p) node)"

section \<open>The agents\<close>

definition pib_process_pma_mad :: "'a pib_node \<Rightarrow> u8 \<Rightarrow> ib_pma_mad \<Rightarrow> 'a pma_result" where
  "pib_process_pma_mad node port_num p =
    (if pma_base_version p \<noteq> IB_MGMT_BASE_VERSION \<or> pma_class_version p \<noteq> PIB_PMA_CLASS_VERSION
     then pma_reply (bad_status PIB_PMA_STATUS_BAD_VERSION p) node
     else if pma_method p = IB_MGMT_METHOD_GET then pma_get_method p node port_num
     else if pma_method p = IB_MGMT_METHOD_SET then pma_set_method p node
     else if pma_method p = IB_MGMT_METHOD_TRAP \<or> pma_method p = IB_MGMT_METHOD_GET_RESP
     then Some (IB_MAD_RESULT_SUCCESS, p, node)
     else pma_reply (bad_status PIB_PMA_STATUS_UNSUPPORTED_METHOD p) node)"

text \<open>
  The packets of the stack are 256 bytes; the class in the second byte decides which agent reads them.  An
  answer that is not written is the empty list.
\<close>

definition pib_process_mad :: "u8 \<Rightarrow> u8 list \<Rightarrow> pib_dev \<Rightarrow> (u32 \<times> u8 list \<times> pib_dev) option" where
  "pib_process_mad in_port_num in_mad d =
    (if in_mad ! 3 = IB_MGMT_METHOD_GET_RESP then Some (IB_MAD_RESULT_SUCCESS, [], d)
     else if in_mad ! 1 = IB_MGMT_CLASS_SUBN_DIRECTED_ROUTE \<or> in_mad ! 1 = IB_MGMT_CLASS_SUBN_LID_ROUTED
     then map_option (\<lambda>(ret, smp, d). (ret, smp_bytes smp, d)) (process_subn in_port_num (smp_of_bytes in_mad) d)
     else if in_mad ! 1 = IB_MGMT_CLASS_PERF_MGMT
     then map_option (\<lambda>(ret, p, node). (ret, pma_bytes p, d \<lparr> ports := node_ports node \<rparr>))
            (pib_process_pma_mad \<lparr> node_port_count = of_nat (phys_port_cnt d + 1), node_port_start = 1, node_ports = ports d \<rparr>
               in_port_num (pma_of_bytes in_mad))
     else Some (IB_MAD_RESULT_SUCCESS, [], d))"

section \<open>Narrow counters saturate\<close>

lemma saturates:
  "unat (get_saturation4 v) = min (unat v) 0xF" "unat (get_saturation8 v) = min (unat v) 0xFF"
  "unat (get_saturation16 v) = min (unat v) 0xFFFF" "unat (get_saturation32 v) = min (unat v) 0xFFFFFFFF"
proof -
  have "v AND 0xF = take_bit 4 v" by (simp add: take_bit_eq_mask mask_eq_exp_minus_1)
  then have m: "unat (v AND 0xF) = unat v mod 16" by (simp add: unsigned_take_bit_eq) (simp add: take_bit_eq_mod)
  show "unat (get_saturation4 v) = min (unat v) 0xF"
    by (auto simp: get_saturation4_def word_less_nat_alt unsigned_ucast_eq min_def m take_bit_eq_mod)
  show "unat (get_saturation8 v) = min (unat v) 0xFF" "unat (get_saturation16 v) = min (unat v) 0xFFFF"
    by (auto simp: get_saturation8_def get_saturation16_def word_less_nat_alt unsigned_ucast_eq min_def take_bit_eq_mod)
  have "unat (drop_bit 32 v) = unat v div 2 ^ 32" by (simp add: unat_drop_bit_eq) (simp add: drop_bit_eq_div)
  then have "drop_bit 32 v = 0 \<longleftrightarrow> unat v < 2 ^ 32"
    by (metis div_eq_0_iff unsigned_eq_0_iff zero_neq_numeral power_eq_0_iff)
  then show "unat (get_saturation32 v) = min (unat v) 0xFFFFFFFF"
    by (auto simp: get_saturation32_def unsigned_ucast_eq min_def take_bit_eq_mod)
qed

lemma nibbles:
  "drop_bit 4 (push_bit 4 (get_saturation4 v) OR get_saturation4 w) = get_saturation4 v"
  "(push_bit 4 (get_saturation4 v) OR get_saturation4 w) AND 0xF = get_saturation4 w"
proof -
  have low: "bit (get_saturation4 u) i \<longleftrightarrow> i < 4 \<and> bit (get_saturation4 u) i" for u i
  proof -
    have "unat (get_saturation4 u) < 2 ^ 4" by (simp add: saturates)
    then have "unat (take_bit 4 (get_saturation4 u)) = unat (get_saturation4 u)"
      by (simp only: unsigned_take_bit_eq take_bit_nat_eq_self)
    then have "take_bit 4 (get_saturation4 u) = get_saturation4 u" by (simp only: word_unat_eq_iff)
    then show ?thesis by (metis bit_take_bit_iff)
  qed
  show "drop_bit 4 (push_bit 4 (get_saturation4 v) OR get_saturation4 w) = get_saturation4 v"
    by (rule bit_word_eqI) (use low in \<open>auto simp: bit_simps\<close>)
  have "(push_bit 4 (get_saturation4 v) OR get_saturation4 w) AND mask 4 = get_saturation4 w"
    by (rule bit_word_eqI) (use low in \<open>auto simp: bit_simps\<close>)
  then show "(push_bit 4 (get_saturation4 v) OR get_saturation4 w) AND 0xF = get_saturation4 w"
    by (simp add: mask_eq_exp_minus_1)
qed

lemma portcounters_of_bytes_append: "portcounters_of_bytes (portcounters_bytes p @ xs) = p"
  by (simp add: portcounters_bytes_def portcounters_of_bytes_def nth_append)

lemma portcounters_ext_of_bytes_append: "portcounters_ext_of_bytes (portcounters_ext_bytes p @ xs) = p"
  by (simp add: portcounters_ext_bytes_def portcounters_ext_of_bytes_def nth_append)

lemma pma_of_bytes_bytes:
  "length (pma_reserved p) = 40 \<Longrightarrow> length (pma_data p) = 192 \<Longrightarrow> pma_of_bytes (pma_bytes p) = p"
  by (simp add: pma_bytes_def pma_of_bytes_def nth_append)

lemma length_pma_layouts [simp]:
  "length (portcounters_bytes c) = 44" "length (portcounters_ext_bytes x) = 72"
  by (simp_all add: portcounters_bytes_def portcounters_ext_bytes_def)

lemma pma_bytes_nth [simp]: "pma_bytes p ! 1 = pma_mgmt_class p" "pma_bytes p ! 3 = pma_method p"
    "pma_bytes p ! Suc 0 = pma_mgmt_class p"
  by (simp_all add: pma_bytes_def)

text \<open>A packet of the class for the port of an adapter, as the stack hands it over.\<close>

definition pma_request :: "u8 \<Rightarrow> u16 \<Rightarrow> ib_pma_mad \<Rightarrow> bool" where
  "pma_request method attr_id p \<longleftrightarrow> pma_base_version p = IB_MGMT_BASE_VERSION \<and> pma_class_version p = PIB_PMA_CLASS_VERSION \<and>
     pma_mgmt_class p = IB_MGMT_CLASS_PERF_MGMT \<and> pma_method p = method \<and> pma_attr_id p = attr_id \<and> pma_attr_mod p = 0 \<and>
     length (pma_reserved p) = 40 \<and> length (pma_data p) = 192"

definition port_selected :: "pib_dev \<Rightarrow> u8 \<Rightarrow> bool" where
  "port_selected d n \<longleftrightarrow> 1 \<le> n \<and> unat n \<le> phys_port_cnt d \<and> phys_port_cnt d < 255 \<and> length (ports d) = phys_port_cnt d"

abbreviation pma_node where
  "pma_node d \<equiv> \<lparr> node_port_count = of_nat (phys_port_cnt d + 1), node_port_start = 1, node_ports = ports d \<rparr>"

lemma port_selected:
  assumes "port_selected d n"
  shows "port_select_ok (pma_node d) n" "node_port (pma_node d) n = Some (ports d ! (unat n - 1))" "unat n - 1 < length (ports d)"
proof -
  have "unat (of_nat k :: u8) = k" if "k < 256" for k using that by (simp add: unat_of_nat take_bit_eq_mod)
  from this [of "phys_port_cnt d + 1"]
  have "unat (of_nat (phys_port_cnt d + 1) :: u8) = phys_port_cnt d + 1" "1 \<le> unat n"
    using assms by (simp_all add: port_selected_def word_le_nat_alt)
  with assms show "port_select_ok (pma_node d) n" "node_port (pma_node d) n = Some (ports d ! (unat n - 1))"
      "unat n - 1 < length (ports d)"
    by (auto simp: port_selected_def port_select_ok_def node_port_def word_le_nat_alt word_less_nat_alt)
qed

lemma pib_process_mad_pma:
  "pma_request method attr_id p \<Longrightarrow> method \<noteq> IB_MGMT_METHOD_GET_RESP \<Longrightarrow>
   pib_process_mad in_port_num (pma_bytes p) d =
     map_option (\<lambda>(ret, p, node). (ret, pma_bytes p, d \<lparr> ports := node_ports node \<rparr>))
       (pib_process_pma_mad (pma_node d) in_port_num p)"
  by (simp add: pib_process_mad_def pma_request_def pma_of_bytes_bytes)

text \<open>
  C28. Narrow counters.  A Get(PortCounters) packet for a port of the adapter is answered, nothing changes, and
  every counter of the answer is the counter of the port or, where that does not fit, the
  largest number of the field: 32 bits for data and packets, 16 or 8 bits for most errors,
  4 bits each for the two that share a byte.
\<close>

theorem counters_saturate:
  assumes "pma_request IB_MGMT_METHOD_GET IB_PMA_PORT_COUNTERS p" "port_selected d (pma_data p ! 1)"
    and "perf = port_perf (ports d ! (unat (pma_data p ! 1) - 1))"
  shows "\<exists>p'. pib_process_mad in_port_num (pma_bytes p) d = Some (IB_MAD_RESULT_SUCCESS OR IB_MAD_RESULT_REPLY, pma_bytes p', d) \<and>
    (let c = portcounters_of_bytes (pma_data p') in
     pc_port_select c = pma_data p ! 1 \<and>
     unat (pc_port_xmit_data c) = min (unat (xmit_data perf)) (2 ^ 32 - 1) \<and>
     unat (pc_port_rcv_data c) = min (unat (rcv_data perf)) (2 ^ 32 - 1) \<and>
     unat (pc_port_xmit_packets c) = min (unat (xmit_packets perf)) (2 ^ 32 - 1) \<and>
     unat (pc_port_rcv_packets c) = min (unat (rcv_packets perf)) (2 ^ 32 - 1) \<and>
     unat (pc_port_xmit_wait c) = min (unat (xmit_wait perf)) (2 ^ 32 - 1) \<and>
     unat (pc_symbol_error_counter c) = min (unat (symbol_error_counter perf)) (2 ^ 16 - 1) \<and>
     unat (pc_port_rcv_errors c) = min (unat (rcv_errors perf)) (2 ^ 16 - 1) \<and>
     unat (pc_port_rcv_remphys_errors c) = min (unat (rcv_remphys_errors perf)) (2 ^ 16 - 1) \<and>
     unat (pc_port_rcv_switch_relay_errors c) = min (unat (rcv_switch_relay_errors perf)) (2 ^ 16 - 1) \<and>
     unat (pc_port_xmit_discards c) = min (unat (xmit_discards perf)) (2 ^ 16 - 1) \<and>
     unat (pc_vl15_dropped c) = min (unat (vl15_dropped perf)) (2 ^ 16 - 1) \<and>
     unat (pc_link_error_recovery_counter c) = min (unat (link_error_recovery_counter perf)) (2 ^ 8 - 1) \<and>
     unat (pc_link_downed_counter c) = min (unat (link_downed_counter perf)) (2 ^ 8 - 1) \<and>
     unat (pc_port_xmit_constraint_errors c) = min (unat (xmit_constraint_errors perf)) (2 ^ 8 - 1) \<and>
     unat (pc_port_rcv_constraint_errors c) = min (unat (rcv_constraint_errors perf)) (2 ^ 8 - 1) \<and>
     unat (drop_bit 4 (pc_link_overrun_errors c)) = min (unat (local_link_integrity_errors perf)) 15 \<and>
     unat (pc_link_overrun_errors c AND 0xF) = min (unat (excessive_buffer_overrun_errors perf)) 15)"
proof -
  let ?n = "pma_data p ! 1" and ?c = "portcounters_of_perf (pma_data p ! 1) perf"
  let ?p = "p \<lparr> pma_data := overlay 192 (portcounters_bytes ?c), pma_method := IB_MGMT_METHOD_GET_RESP \<rparr>"
  have "pib_process_pma_mad (pma_node d) in_port_num p = Some (IB_MAD_RESULT_SUCCESS OR IB_MAD_RESULT_REPLY, ?p, pma_node d)"
    using assms port_selected [OF assms(2)]
    by (simp add: pma_request_def pib_process_pma_mad_def pma_get_method_def pma_get_port_counters_def pma_reply_def Let_def)
  then have r: "pib_process_mad in_port_num (pma_bytes p) d = Some (IB_MAD_RESULT_SUCCESS OR IB_MAD_RESULT_REPLY, pma_bytes ?p, d)"
    by (simp add: pib_process_mad_pma [OF assms(1)])
  have c: "portcounters_of_bytes (pma_data ?p) = ?c"
    by (simp add: overlay_append portcounters_of_bytes_append)
  have n: "drop_bit 4 (pc_link_overrun_errors ?c) = get_saturation4 (local_link_integrity_errors perf)"
      "pc_link_overrun_errors ?c AND 0xF = get_saturation4 (excessive_buffer_overrun_errors perf)"
    by (simp_all only: portcounters_of_perf_def ib_pma_portcounters.select_convs nibbles)
  show ?thesis
    by (intro exI [of _ ?p]) (simp only: c Let_def r n saturates, simp add: portcounters_of_perf_def saturates)
qed

definition example_pma :: "u8 \<Rightarrow> u16 \<Rightarrow> u8 list \<Rightarrow> ib_pma_mad" where
  "example_pma method attr_id bytes = \<lparr> pma_base_version = 1, pma_mgmt_class = IB_MGMT_CLASS_PERF_MGMT, pma_class_version = 1,
     pma_method = method, pma_status = 0, pma_class_specific = 0, pma_tid = 7, pma_attr_id = attr_id, pma_resv = 0,
     pma_attr_mod = 0, pma_reserved = replicate 40 0, pma_data = overlay 192 bytes \<rparr>"

lemma example_pma [simp]:
  "pma_request method attr_id (example_pma method attr_id bytes)"
  "pma_data (example_pma method attr_id bytes) = overlay 192 bytes"
  by (simp_all add: pma_request_def example_pma_def)

lemma example_selected: "port_selected example_attr_dev 2"
  by (simp add: port_selected_def example_attr_dev_def blank_dev_def)

theorem counters_saturate_witness:
  "\<exists>p'. pib_process_mad 1 (pma_bytes (example_pma IB_MGMT_METHOD_GET IB_PMA_PORT_COUNTERS [0, 2])) example_attr_dev =
     Some (3, pma_bytes p', example_attr_dev) \<and> unat (pc_port_xmit_data (portcounters_of_bytes (pma_data p'))) \<le> 2 ^ 32 - 1"
  using counters_saturate [of "example_pma IB_MGMT_METHOD_GET IB_PMA_PORT_COUNTERS [0, 2]" example_attr_dev _ 1]
    example_selected by (auto simp: overlay_def Let_def)

section \<open>Setting the narrow counters\<close>

lemma pma_set_port_counters_none: "pma_set_port_counters p node = None"
proof (rule ccontr)
  assume "pma_set_port_counters p node \<noteq> None"
  then obtain r where "pma_set_port_counters p node = Some r" by auto
  then show False
    by (rule pma_set_port_counters.raw_induct [rotated, where P = "\<lambda>_ _ _. False"]) (auto split: option.splits)
qed

text \<open>
  C26. Setting the narrow counters.  A Set(PortCounters) packet, whatever counters it selects and on whatever
  port, never comes back from the agent: its handler ends by calling itself.
\<close>

theorem set_port_counters_never_returns:
  assumes "pma_request IB_MGMT_METHOD_SET IB_PMA_PORT_COUNTERS p"
  shows "pib_process_mad in_port_num (pma_bytes p) d = None"
  using assms pib_process_mad_pma [OF assms, of in_port_num d]
  by (simp add: pma_request_def pib_process_pma_mad_def pma_set_method_def pma_set_port_counters_none Let_def)

theorem set_port_counters_never_returns_witness:
  "pib_process_mad 1 (pma_bytes (example_pma IB_MGMT_METHOD_SET IB_PMA_PORT_COUNTERS [0, 2, 0xFF, 0xFF])) example_attr_dev = None"
  by (rule set_port_counters_never_returns) simp

section \<open>Wide counters\<close>

text \<open>
  Wide counters.  A Set(PortCountersExt) packet sets the selected ones of the four counters of data and packets and
  no other counter, on the selected port and no other, and the answer shows all eight as they are then.
  The counters of unicast and multicast packets cannot be set, although they can be selected.
\<close>

theorem wide_counters_read_back:
  assumes "pma_request IB_MGMT_METHOD_SET IB_PMA_PORT_COUNTERS_EXT p" "port_selected d (pma_data p ! 1)"
    and "k = unat (pma_data p ! 1) - 1" "q = portcounters_ext_of_bytes (pma_data p)" "perf = port_perf (ports d ! k)"
  shows "\<exists>p' perf'. pib_process_mad in_port_num (pma_bytes p) d =
      Some (IB_MAD_RESULT_SUCCESS OR IB_MAD_RESULT_REPLY, pma_bytes p',
        d \<lparr> ports := (ports d)[k := (ports d ! k) \<lparr> port_perf := perf' \<rparr>] \<rparr>) \<and>
    perf' = perf \<lparr> xmit_data := if flag_set (px_counter_select q) 1 then px_port_xmit_data q else xmit_data perf,
      rcv_data := if flag_set (px_counter_select q) 2 then px_port_rcv_data q else rcv_data perf,
      xmit_packets := if flag_set (px_counter_select q) 4 then px_port_xmit_packets q else xmit_packets perf,
      rcv_packets := if flag_set (px_counter_select q) 8 then px_port_rcv_packets q else rcv_packets perf \<rparr> \<and>
    portcounters_ext_of_bytes (pma_data p') = \<lparr> px_port_select = pma_data p ! 1, px_counter_select = 0,
      px_port_xmit_data = xmit_data perf', px_port_rcv_data = rcv_data perf',
      px_port_xmit_packets = xmit_packets perf', px_port_rcv_packets = rcv_packets perf',
      px_port_unicast_xmit_packets = unicast_xmit_packets perf, px_port_unicast_rcv_packets = unicast_rcv_packets perf,
      px_port_multicast_xmit_packets = multicast_xmit_packets perf,
      px_port_multicast_rcv_packets = multicast_rcv_packets perf \<rparr>"
proof -
  let ?n = "pma_data p ! 1" and ?perf = "store_counters_ext q perf"
  let ?node = "set_node_perf ?n (store_counters_ext q) (pma_node d)"
  let ?x = "\<lparr> px_port_select = ?n, px_counter_select = 0, px_port_xmit_data = xmit_data ?perf, px_port_rcv_data = rcv_data ?perf,
      px_port_xmit_packets = xmit_packets ?perf, px_port_rcv_packets = rcv_packets ?perf,
      px_port_unicast_xmit_packets = unicast_xmit_packets ?perf, px_port_unicast_rcv_packets = unicast_rcv_packets ?perf,
      px_port_multicast_xmit_packets = multicast_xmit_packets ?perf,
      px_port_multicast_rcv_packets = multicast_rcv_packets ?perf \<rparr>"
  let ?p = "p \<lparr> pma_data := overlay 192 (portcounters_ext_bytes ?x), pma_method := IB_MGMT_METHOD_GET_RESP \<rparr>"
  note s = port_selected [OF assms(2)]
  have perf: "?perf = perf \<lparr> xmit_data := if flag_set (px_counter_select q) 1 then px_port_xmit_data q else xmit_data perf,
      rcv_data := if flag_set (px_counter_select q) 2 then px_port_rcv_data q else rcv_data perf,
      xmit_packets := if flag_set (px_counter_select q) 4 then px_port_xmit_packets q else xmit_packets perf,
      rcv_packets := if flag_set (px_counter_select q) 8 then px_port_rcv_packets q else rcv_packets perf \<rparr>"
    by (simp add: store_counters_ext_def)
  have node: "?node = pma_node d \<lparr> node_ports := (ports d)[k := (ports d ! k) \<lparr> port_perf := ?perf \<rparr>] \<rparr>"
    by (simp add: set_node_perf_def assms(3,5) Let_def)
  have port: "port_select_ok ?node ?n" "node_port ?node ?n = Some ((ports d ! k) \<lparr> port_perf := ?perf \<rparr>)"
    unfolding node using s assms(3) by (auto simp: port_select_ok_def node_port_def split: if_splits)
  have same: "clear_in_packet p \<lparr> pma_data := x \<rparr> = p \<lparr> pma_data := x \<rparr>" "pma_attr_mod (clear_in_packet p) = pma_attr_mod p"
      "pma_data (clear_in_packet p) ! 1 = ?n" for x
    using assms(1) by (simp_all add: clear_in_packet_def clear_at_def pma_request_def nth_append Let_def)
  have "pma_get_port_counters_ext (clear_in_packet p) ?node = Some (IB_MAD_RESULT_SUCCESS OR IB_MAD_RESULT_REPLY, ?p, ?node)"
    using port same(1) assms(1) by (simp add: pma_get_port_counters_ext_def pma_reply_def same(2,3) [simplified] pma_request_def Let_def)
  then have "pib_process_pma_mad (pma_node d) in_port_num p = Some (IB_MAD_RESULT_SUCCESS OR IB_MAD_RESULT_REPLY, ?p, ?node)"
    using assms s by (simp add: pma_request_def pib_process_pma_mad_def pma_set_method_def pma_set_port_counters_ext_def Let_def)
  then have r: "pib_process_mad in_port_num (pma_bytes p) d = Some (IB_MAD_RESULT_SUCCESS OR IB_MAD_RESULT_REPLY, pma_bytes ?p,
      d \<lparr> ports := (ports d)[k := (ports d ! k) \<lparr> port_perf := ?perf \<rparr>] \<rparr>)"
    by (simp add: pib_process_mad_pma [OF assms(1)] set_node_perf_def assms(3,5) Let_def)
  show ?thesis
    using r perf by (intro exI [of _ ?p] exI [of _ ?perf]) (simp add: overlay_append portcounters_ext_of_bytes_append)
qed

theorem wide_counters_read_back_witness:
  "\<exists>p' d'. pib_process_mad 1 (pma_bytes (example_pma IB_MGMT_METHOD_SET IB_PMA_PORT_COUNTERS_EXT
       (portcounters_ext_bytes \<lparr> px_port_select = 2, px_counter_select = 0x11, px_port_xmit_data = 77, px_port_rcv_data = 5,
          px_port_xmit_packets = 0, px_port_rcv_packets = 0, px_port_unicast_xmit_packets = 0, px_port_unicast_rcv_packets = 0,
          px_port_multicast_xmit_packets = 0, px_port_multicast_rcv_packets = 0 \<rparr>))) example_attr_dev = Some (3, pma_bytes p', d') \<and>
     xmit_data (port_perf (ports d' ! 1)) = 77 \<and> rcv_data (port_perf (ports d' ! 1)) = rcv_data (port_perf (ports example_attr_dev ! 1))"
proof -
  let ?x = "\<lparr> px_port_select = 2, px_counter_select = 0x11, px_port_xmit_data = 77, px_port_rcv_data = 5,
          px_port_xmit_packets = 0, px_port_rcv_packets = 0, px_port_unicast_xmit_packets = 0, px_port_unicast_rcv_packets = 0,
          px_port_multicast_xmit_packets = 0, px_port_multicast_rcv_packets = 0 \<rparr>"
  let ?p = "example_pma IB_MGMT_METHOD_SET IB_PMA_PORT_COUNTERS_EXT (portcounters_ext_bytes ?x)"
  have x: "portcounters_ext_of_bytes (pma_data ?p) = ?x" "pma_data ?p ! 1 = 2"
    by (simp_all add: overlay_append portcounters_ext_of_bytes_append, simp add: portcounters_ext_bytes_def)
  have l: "1 < length (ports example_attr_dev)" using port_selected(3) [OF example_selected] by simp
  show ?thesis
    using wide_counters_read_back [of ?p example_attr_dev 1 ?x _ 1] x example_selected l by (auto simp: example_pma)
qed

end
