(* ===== verification/Pib_RC_Base.thy ===== *)
theory Pib_RC_Base
  imports Pib_QP
begin

text \<open>
  What the requester and the responder of \<^verbatim>\<open>driver/pib_rc.c\<close> (and the datagrams of
  \<^verbatim>\<open>driver/pib_ud.c\<close>) share: building the headers of a packet in the send buffer, handing it
  to the kernel thread, and the errors of a queue pair.

  The bytes behind the headers are those the code writes.  The length fields also count the
  pad bytes and the four bytes of the ICRC, which are whatever the buffer held before; they
  are not part of the record.  Immediate data is kept as the code does, in network order.

  A \<^verbatim>\<open>BUG\<close> or a \<^verbatim>\<open>BUG_ON\<close> that is hit stops the machine: the handlers that have one return an
  \<open>option\<close>, and \<open>None\<close> is that stop.
\<close>

section \<open>Packets in the send buffer\<close>

abbreviation port_of :: "pib_dev \<Rightarrow> u8 \<Rightarrow> pib_port" where
  "port_of d port_num \<equiv> ports d ! (unat port_num - 1)"

text \<open>An index behind the table of GIDs, which the check admits by one, is outside the model.\<close>

definition pib_fill_grh :: "pib_dev \<Rightarrow> u8 \<Rightarrow> ib_ah_attr \<Rightarrow> ib_grh" where
  "pib_fill_grh d port_num src =
    (let sgid = port_gid (port_of d port_num) ! unat (ah_sgid_index src) in
     \<lparr> grh_version_tclass_flow = push_bit 28 6 OR push_bit 20 (ucast (ah_traffic_class src)) OR
         (ah_flow_label src AND 0xFFFFF),
       grh_paylen = 0, grh_next_hdr = 0, grh_hop_limit = ah_hop_limit src,
       grh_sgid_prefix = fst sgid, grh_sgid_id = snd sgid,
       grh_dgid_prefix = ah_dgid_prefix src, grh_dgid_id = ah_dgid_id src \<rparr>)"

text \<open>The local route header, the global one if the address asks for it, and a base header.\<close>

definition open_packet :: "pib_dev \<Rightarrow> u8 \<Rightarrow> ib_ah_attr \<Rightarrow> pib_packet_bth \<Rightarrow> packet" where
  "open_packet d port_num ah bth =
    (let (grh, lnh) = (if flag_set (ah_flags ah) IB_AH_GRH
                       then (Some (pib_fill_grh d port_num ah), 0x3) else (None, 0x2)) in
     \<lparr> pkt_lrh = \<lparr> lrh_dlid = ah_dlid ah, lrh_vl_lver = 0, lrh_sl_rsv_lnh = push_bit 4 (ah_sl ah) OR lnh,
                   lrh_slid = port_lid (port_of d port_num), lrh_pktlen = 0 \<rparr>,
       pkt_grh = grh, pkt_bth = bth, pkt_rest = [] \<rparr>)"

definition rc_bth :: "pib_dev \<Rightarrow> pib_qp \<Rightarrow> u8 \<Rightarrow> u32 \<Rightarrow> pib_packet_bth" where
  "rc_bth d qp OpCode psn =
    \<lparr> bth_OpCode = OpCode, bth_se_m_padcnt_tver = 0,
      bth_pkey = port_pkey_table (port_of d (attr_port_num (qp_attr qp))) ! unat (attr_pkey_index (qp_attr qp)),
      bth_destQP = dest_qp_num (qp_attr qp), bth_psn = psn AND PIB_PSN_MASK \<rparr>"

abbreviation append_rest :: "u8 list \<Rightarrow> packet \<Rightarrow> packet" where
  "append_rest bs p \<equiv> p \<lparr> pkt_rest := pkt_rest p @ bs \<rparr>"

text \<open>\<open>packet_length\<close> is \<^verbatim>\<open>buffer - dev->thread.send_buffer\<close> when the last byte has been written.\<close>

definition set_packet_length :: "nat \<Rightarrow> packet \<Rightarrow> packet" where
  "set_packet_length packet_length p =
    (let fix_packet_length = 4 * ((packet_length + 3) div 4) in
     p \<lparr> pkt_lrh := pib_packet_lrh_set_pktlen (of_nat ((fix_packet_length + 4) div 4)) (pkt_lrh p),
         pkt_bth := pib_packet_bth_set_padcnt (of_nat (fix_packet_length - packet_length)) (pkt_bth p) \<rparr>)"

definition ready_packet :: "u8 \<Rightarrow> u16 \<Rightarrow> pib_qp \<Rightarrow> u32 \<Rightarrow> pib_dev \<Rightarrow> pib_dev" where
  "ready_packet port_num dlid qp trace_id d = d \<lparr> thread := (thread d) \<lparr> thread_port_num := port_num,
     thread_slid := port_lid (port_of d port_num), thread_dlid := dlid, thread_src_qp_num := qp_num qp,
     thread_trace_id := trace_id, ready_to_send := True \<rparr> \<rparr>"

definition write_buffer :: "packet \<Rightarrow> pib_dev \<Rightarrow> pib_dev" where
  "write_buffer p d = d \<lparr> thread := (thread d) \<lparr> send_buffer := Some p \<rparr> \<rparr>"

abbreviation pmtu :: "pib_qp \<Rightarrow> u32" where
  "pmtu qp \<equiv> push_bit (path_mtu (qp_attr qp)) 128"

section \<open>Errors of a queue pair\<close>

definition drop_active_rwqe :: "pib_dev \<times> pib_qp \<Rightarrow> pib_dev \<times> pib_qp" where
  "drop_active_rwqe = (\<lambda>(d, qp).
    pib_util_free_recv_wqe (hd (rsp_recv_wqe_head (responder qp)))
      (d, upd_rsp (\<lambda>r. r \<lparr> rsp_recv_wqe_head := tl (rsp_recv_wqe_head r),
                           rsp_nr_recv_wqe := rsp_nr_recv_wqe r - 1 \<rparr>) (qp \<lparr> push_rcqe := True \<rparr>)))"

definition fail_active_rwqe :: "ib_wc_status \<Rightarrow> u32 \<Rightarrow> pib_dev \<times> pib_qp \<Rightarrow> pib_dev \<times> pib_qp" where
  "fail_active_rwqe status opcode = (\<lambda>(d, qp).
    drop_active_rwqe (snd (pib_util_insert_wc_error (recv_cq qp) qp
      (rwqe_wr_id (hd (rsp_recv_wqe_head (responder qp)))) status opcode d), qp))"

definition abort_active_rwqe :: "pib_dev \<times> pib_qp \<Rightarrow> pib_dev \<times> pib_qp" where
  "abort_active_rwqe = (\<lambda>(d, qp).
    if rsp_recv_wqe_head (responder qp) = [] \<or> rsp_offset (responder qp) = 0 then (d, qp)
    else fail_active_rwqe IB_WC_GENERAL_ERR IB_WC_RECV (d, qp))"

definition enter_error :: "pib_dev \<times> pib_qp \<Rightarrow> pib_dev \<times> pib_qp" where
  "enter_error = (\<lambda>(d, qp). pib_util_flush_qp False (d, qp \<lparr> qp_state := IB_QPS_ERR \<rparr>))"

definition insert_async_qp_error :: "ib_event_type \<Rightarrow> pib_dev \<times> pib_qp \<Rightarrow> pib_dev \<times> pib_qp" where
  "insert_async_qp_error event s = enter_error (abort_active_rwqe (pib_util_insert_async_qp_error event s))"

definition signalled :: "pib_qp \<Rightarrow> pib_send_wqe \<Rightarrow> bool" where
  "signalled qp w \<longleftrightarrow> sq_sig_type (qp_init_attr qp) = IB_SIGNAL_ALL_WR \<or> flag_set (swqe_send_flags w) IB_SEND_SIGNALED"

definition complete_send :: "u32 \<Rightarrow> pib_send_wqe \<Rightarrow> pib_dev \<times> pib_qp \<Rightarrow> pib_dev \<times> pib_qp" where
  "complete_send opcode w = (\<lambda>(d, qp).
    (if signalled qp w
     then snd (pib_util_insert_wc_success (send_cq qp) qp (zero_wc \<lparr> wc_wr_id := swqe_wr_id w,
            wc_opcode := opcode, wc_qp := qp_ptr qp \<rparr>) False d)
     else d, qp))"

end
