(* ===== verification/Pib_RC_Rsp.thy ===== *)
theory Pib_RC_Rsp
  imports Pib_RC_Base
begin

text \<open>
  The responder of the reliable connection service, \<^verbatim>\<open>driver/pib_rc.c\<close>: receiving requests,
  queueing acknowledgements, and turning them into packets.  The payload of a packet
  (\<^verbatim>\<open>buffer\<close>, \<^verbatim>\<open>size\<close>) is the list of its bytes.  The properties are in \<open>Pib_QP_Wf\<close>,
  \<open>Pib_QP_Run\<close>, \<open>Pib_RC_Once\<close>, \<open>Pib_RC_Write\<close> and \<open>Pib_RC_Read\<close>.
\<close>

section \<open>The queue of acknowledgements\<close>

abbreviation (input) "PIB_SYND_ACK_CODE \<equiv> (0x00 :: u8)"
abbreviation (input) "PIB_SYND_RNR_NAK_CODE \<equiv> (0x20 :: u8)"
abbreviation (input) "PIB_SYND_NAK_CODE \<equiv> (0x60 :: u8)"
abbreviation (input) "PIB_SYND_CODE_MASK \<equiv> (0xE0 :: u8)"
abbreviation (input) "PIB_SYND_NAK_CODE_PSN_SEQ_ERR \<equiv> (0x60 :: u8)"
abbreviation (input) "PIB_SYND_NAK_CODE_INV_REQ_ERR \<equiv> (0x61 :: u8)"
abbreviation (input) "PIB_SYND_NAK_CODE_REM_ACCESS_ERR \<equiv> (0x62 :: u8)"
abbreviation (input) "PIB_SYND_NAK_CODE_REM_OP_ERR \<equiv> (0x63 :: u8)"
abbreviation (input) "PIB_SYND_NAK_CODE_INV_RD_REQ_ERR \<equiv> (0x64 :: u8)"

definition zero_ack :: pib_ack where
  "zero_ack = \<lparr> ack_type = PIB_ACK_NORMAL, ack_psn = 0, ack_expected_psn = 0, ack_msn = 0, ack_syndrome = 0,
     ack_vaddress = 0, ack_rkey = 0, ack_size = 0, ack_offset = 0, ack_atomic_res = 0 \<rparr>"

definition get_resources_not_ready :: "pib_qp \<Rightarrow> u8" where
  "get_resources_not_ready qp = PIB_SYND_RNR_NAK_CODE OR (min_rnr_timer (qp_attr qp) AND NOT PIB_SYND_CODE_MASK)"

text \<open>The last queued acknowledgement has the same code as a new one, and is not of another type.\<close>

definition last_has_code :: "u8 \<Rightarrow> pib_ack list \<Rightarrow> bool" where
  "last_has_code code acks \<longleftrightarrow> acks \<noteq> [] \<and> ack_type (last acks) = PIB_ACK_NORMAL \<and>
     ack_syndrome (last acks) AND PIB_SYND_CODE_MASK = code"

definition push_ack :: "pib_ack \<Rightarrow> pib_dev \<times> pib_qp \<Rightarrow> pib_dev \<times> pib_qp" where
  "push_ack ack = (\<lambda>(d, qp). case kmem_alloc d of
       (False, d) \<Rightarrow> (d, qp)
     | (True, d) \<Rightarrow> (d, upd_rsp (\<lambda>r. r \<lparr> ack_head := ack_head r @ [ack],
         rsp_nr_rd_atomic := (if ack_type ack = PIB_ACK_NORMAL then rsp_nr_rd_atomic r else rsp_nr_rd_atomic r + 1),
         rsp_nr_contig_read_acks :=
           (if ack_type ack = PIB_ACK_NORMAL \<and> ack_syndrome ack AND PIB_SYND_CODE_MASK \<noteq> PIB_SYND_ACK_CODE
            then 0 else rsp_nr_contig_read_acks r) \<rparr>) qp))"

definition push_acknowledge :: "u32 \<Rightarrow> u8 \<Rightarrow> pib_dev \<times> pib_qp \<Rightarrow> pib_dev \<times> pib_qp" where
  "push_acknowledge psn syndrome = (\<lambda>(d, qp).
    let acks = ack_head (responder qp); code = syndrome AND PIB_SYND_CODE_MASK in
    if code = PIB_SYND_RNR_NAK_CODE \<and> last_has_code PIB_SYND_RNR_NAK_CODE acks then (d, qp)
    else if code = PIB_SYND_ACK_CODE \<and> last_has_code PIB_SYND_ACK_CODE acks
    then (d, upd_rsp (ack_head_update (\<lambda>_. butlast acks @
           [(last acks) \<lparr> ack_psn := psn, ack_expected_psn := psn + 1 \<rparr>])) qp)
    else push_ack (zero_ack \<lparr> ack_type := PIB_ACK_NORMAL, ack_psn := psn, ack_expected_psn := psn + 1,
           ack_syndrome := syndrome \<rparr>) (d, qp))"

definition push_rdma_read_acknowledge :: "u32 \<Rightarrow> u32 \<Rightarrow> u64 \<Rightarrow> u32 \<Rightarrow> u32 \<Rightarrow> pib_dev \<times> pib_qp \<Rightarrow> pib_dev \<times> pib_qp" where
  "push_rdma_read_acknowledge psn expected_psn vaddress rkey sz =
    push_ack (zero_ack \<lparr> ack_type := PIB_ACK_RMDA_READ, ack_psn := psn, ack_expected_psn := expected_psn,
      ack_vaddress := vaddress, ack_rkey := rkey, ack_size := sz \<rparr>)"

definition push_atomic_acknowledge :: "u32 \<Rightarrow> u64 \<Rightarrow> pib_dev \<times> pib_qp \<Rightarrow> pib_dev \<times> pib_qp" where
  "push_atomic_acknowledge psn res =
    push_ack (zero_ack \<lparr> ack_type := PIB_ACK_ATOMIC, ack_psn := psn, ack_expected_psn := psn + 1,
      ack_atomic_res := res \<rparr>)"

text \<open>Acknowledgements that overlap a range of sequence numbers, or lie behind it, are dropped.\<close>

definition overlapped :: "u32 \<Rightarrow> u32 \<Rightarrow> pib_ack \<Rightarrow> bool" where
  "overlapped psn expected_psn ack \<longleftrightarrow>
    get_psn_diff (ack_psn ack) psn \<ge> 0 \<and> get_psn_diff (ack_psn ack) expected_psn < 0 \<or>
    get_psn_diff (ack_expected_psn ack) psn > 0 \<and> get_psn_diff (ack_expected_psn ack) expected_psn \<le> 0 \<or>
    get_psn_diff (ack_psn ack) expected_psn \<ge> 0"

definition is_rd_atomic_ack :: "pib_ack \<Rightarrow> bool" where
  "is_rd_atomic_ack ack \<longleftrightarrow> ack_type ack = PIB_ACK_RMDA_READ \<or> ack_type ack = PIB_ACK_ATOMIC"

definition remove_overlapped_rdma_read_acknowledge :: "u32 \<Rightarrow> u32 \<Rightarrow> pib_qp \<Rightarrow> pib_qp" where
  "remove_overlapped_rdma_read_acknowledge psn expected_psn qp =
    upd_rsp (\<lambda>r. r \<lparr>
      rsp_nr_rd_atomic := rsp_nr_rd_atomic r -
        int (length (filter (\<lambda>a. overlapped psn expected_psn a \<and> is_rd_atomic_ack a) (ack_head r))),
      ack_head := filter (\<lambda>a. \<not> overlapped psn expected_psn a) (ack_head r) \<rparr>) qp"

section \<open>Receiving SEND requests\<close>

text \<open>\<^verbatim>\<open>init\<close>, \<^verbatim>\<open>finit\<close>, \<^verbatim>\<open>with_imm\<close>, \<^verbatim>\<open>with_inv\<close>, \<^verbatim>\<open>min\<close> and \<^verbatim>\<open>max\<close> by opcode.\<close>

record request_frame =
  fr_init :: bool
  fr_finit :: bool
  fr_with_imm :: bool
  fr_with_inv :: bool
  fr_min :: nat
  fr_max :: nat

definition send_frame :: "u8 \<Rightarrow> nat \<Rightarrow> request_frame" where
  "send_frame OpCode mtu = \<lparr>
     fr_init = OpCode \<in> {IB_OPCODE_SEND_FIRST, IB_OPCODE_SEND_ONLY, IB_OPCODE_SEND_ONLY_WITH_IMMEDIATE,
                 IB_OPCODE_SEND_ONLY_WITH_INVALIDATE},
     fr_finit = OpCode \<notin> {IB_OPCODE_SEND_FIRST, IB_OPCODE_SEND_MIDDLE},
     fr_with_imm = OpCode \<in> {IB_OPCODE_SEND_LAST_WITH_IMMEDIATE, IB_OPCODE_SEND_ONLY_WITH_IMMEDIATE},
     fr_with_inv = OpCode \<in> {IB_OPCODE_SEND_LAST_WITH_INVALIDATE, IB_OPCODE_SEND_ONLY_WITH_INVALIDATE},
     fr_min = (if OpCode \<in> {IB_OPCODE_SEND_FIRST, IB_OPCODE_SEND_MIDDLE} then mtu
               else if OpCode \<in> {IB_OPCODE_SEND_LAST, IB_OPCODE_SEND_LAST_WITH_IMMEDIATE,
                                 IB_OPCODE_SEND_LAST_WITH_INVALIDATE} then 1 else 0),
     fr_max = mtu \<rparr>"

text \<open>With a shared receive queue, one of its entries is moved to the queue pair.\<close>

definition move_srq_rwqe :: "pib_dev \<times> pib_qp \<Rightarrow> pib_dev \<times> pib_qp" where
  "move_srq_rwqe = (\<lambda>(d, qp).
    case init_srq (qp_init_attr qp) of
      None \<Rightarrow> (d, qp)
    | Some srq \<Rightarrow>
      (case pib_util_get_srq srq d of
         (None, d) \<Rightarrow> (d, qp)
       | (Some w, d) \<Rightarrow> (d, upd_rsp (\<lambda>r. r \<lparr> rsp_recv_wqe_head := rsp_recv_wqe_head r @ [w],
                              rsp_nr_recv_wqe := rsp_nr_recv_wqe r + 1 \<rparr>) qp)))"

text \<open>The exits of the request handlers; the first component is their return value.\<close>

definition nak_invalid_request :: "u32 \<Rightarrow> pib_dev \<times> pib_qp \<Rightarrow> int \<times> pib_dev \<times> pib_qp" where
  "nak_invalid_request psn s =
    (- 1, insert_async_qp_error IB_EVENT_QP_REQ_ERR (push_acknowledge psn PIB_SYND_NAK_CODE_INV_REQ_ERR s))"

definition nak_access_error :: "u32 \<Rightarrow> u8 \<Rightarrow> pib_dev \<times> pib_qp \<Rightarrow> int \<times> pib_dev \<times> pib_qp" where
  "nak_access_error psn syndrome s =
    (- 1, insert_async_qp_error IB_EVENT_QP_ACCESS_ERR (push_acknowledge psn syndrome s))"

definition resources_not_ready :: "u32 \<Rightarrow> pib_dev \<times> pib_qp \<Rightarrow> int \<times> pib_dev \<times> pib_qp" where
  "resources_not_ready psn s = (- 1, push_acknowledge psn (get_resources_not_ready (snd s)) s)"

definition complete_recv :: "u32 \<Rightarrow> u32 \<Rightarrow> u32 \<Rightarrow> pib_packet_lrh \<Rightarrow> pib_packet_bth \<Rightarrow> pib_dev \<times> pib_qp \<Rightarrow> pib_dev \<times> pib_qp" where
  "complete_recv opcode ex flags lrh bth = (\<lambda>(d, qp).
    drop_active_rwqe (snd (pib_util_insert_wc_success (recv_cq qp) qp
      (zero_wc \<lparr> wc_wr_id := rwqe_wr_id (hd (rsp_recv_wqe_head (responder qp))), wc_opcode := opcode,
         wc_byte_len := rsp_offset (responder qp), wc_qp := qp_ptr qp, wc_ex := ex,
         wc_slid := lrh_slid lrh, wc_flags := flags \<rparr>)
      (pib_packet_bth_get_padcnt bth \<noteq> 0) d), qp))"

text \<open>
  The entry at the head of the receive queue takes the payload.  After a successful copy an
  R_Key that came with the packet is invalidated; if that fails, no acknowledgement is sent.
\<close>

definition send_payload :: "request_frame \<Rightarrow> u32 \<Rightarrow> u32 \<Rightarrow> pib_packet_lrh \<Rightarrow> pib_packet_bth \<Rightarrow> u8 list \<Rightarrow>
   pib_dev \<times> pib_qp \<Rightarrow> int \<times> pib_dev \<times> pib_qp" where
  "send_payload f psn ex lrh bth data = (\<lambda>(d, qp).
    let w = hd (rsp_recv_wqe_head (responder qp));
        (status, _, d) = pib_util_mr_copy_data d (qp_pd qp) (rwqe_sge_array w) data
          (ucast (rsp_offset (responder qp))) (of_nat (length data)) IB_ACCESS_LOCAL_WRITE PIB_MR_COPY_TO;
        (inv_status, d) = (if fr_with_inv f \<and> status = IB_WC_SUCCESS
                           then pib_util_mr_invalidate d (qp_pd qp) ex else (IB_WC_SUCCESS, d));
        fail = (\<lambda>status ack s. (- 1, enter_error (ack (fail_active_rwqe status IB_WC_RECV s))))
    in if inv_status \<noteq> IB_WC_SUCCESS then fail inv_status id (d, qp)
       else if status = IB_WC_LOC_LEN_ERR then fail status (push_acknowledge psn PIB_SYND_NAK_CODE_INV_REQ_ERR) (d, qp)
       else if status \<noteq> IB_WC_SUCCESS then fail status (push_acknowledge psn PIB_SYND_NAK_CODE_REM_OP_ERR) (d, qp)
       else
         let qp = upd_rsp (\<lambda>r. r \<lparr> rsp_offset := rsp_offset r + of_nat (length data) \<rparr>) qp;
             flags = (if fr_with_imm f then IB_WC_WITH_IMM else 0) OR (if fr_with_inv f then IB_WC_WITH_INVALIDATE else 0);
             s = (if fr_finit f then complete_recv IB_WC_RECV ex flags lrh bth (d, qp) else (d, qp))
         in (1, push_acknowledge psn PIB_SYND_ACK_CODE s))"

definition receive_SEND_request :: "u32 \<Rightarrow> u8 \<Rightarrow> pib_packet_lrh \<Rightarrow> pib_packet_bth \<Rightarrow> u8 list \<Rightarrow>
   pib_dev \<times> pib_qp \<Rightarrow> int \<times> pib_dev \<times> pib_qp" where
  "receive_SEND_request psn OpCode lrh bth data = (\<lambda>(d, qp).
    let f = send_frame OpCode (unat (pmtu qp));
        (d, qp) = (if fr_init f then move_srq_rwqe (d, upd_rsp (rsp_offset_update (\<lambda>_. 0)) qp) else (d, qp));
        with_ex = (fr_with_imm f \<or> fr_with_inv f);
        ex = (if with_ex then word_be (take 4 data) else 0);
        payload = (if with_ex then drop 4 data else data)
    in if rsp_recv_wqe_head (responder qp) = [] then resources_not_ready psn (d, qp)
       else if with_ex \<and> length data < 4 then nak_invalid_request psn (d, qp)
       else if length payload < fr_min f \<or> fr_max f < length payload then nak_invalid_request psn (d, qp)
       else send_payload f psn ex lrh bth payload (d, qp))"

section \<open>Receiving RDMA WRITE requests\<close>

definition write_frame :: "u8 \<Rightarrow> nat \<Rightarrow> request_frame" where
  "write_frame OpCode mtu = \<lparr>
     fr_init = OpCode \<in> {IB_OPCODE_RDMA_WRITE_FIRST, IB_OPCODE_RDMA_WRITE_ONLY,
                 IB_OPCODE_RDMA_WRITE_ONLY_WITH_IMMEDIATE},
     fr_finit = OpCode \<notin> {IB_OPCODE_RDMA_WRITE_FIRST, IB_OPCODE_RDMA_WRITE_MIDDLE},
     fr_with_imm = OpCode \<in> {IB_OPCODE_RDMA_WRITE_LAST_WITH_IMMEDIATE, IB_OPCODE_RDMA_WRITE_ONLY_WITH_IMMEDIATE},
     fr_with_inv = False,
     fr_min = (if OpCode \<in> {IB_OPCODE_RDMA_WRITE_FIRST, IB_OPCODE_RDMA_WRITE_MIDDLE} then mtu
               else if OpCode \<in> {IB_OPCODE_RDMA_WRITE_LAST, IB_OPCODE_RDMA_WRITE_LAST_WITH_IMMEDIATE} then 1 else 0),
     fr_max = mtu \<rparr>"

text \<open>
  An error of the access: a completion error for the receive entry that an immediate value
  would consume, or an asynchronous error.
\<close>

definition write_error :: "bool \<Rightarrow> ib_wc_status \<Rightarrow> u32 \<Rightarrow> pib_dev \<times> pib_qp \<Rightarrow> int \<times> pib_dev \<times> pib_qp" where
  "write_error with_imm status psn s =
    (let s = (if with_imm \<and> \<not> pib_get_behavior (fst s) PIB_BEHAVIOR_RDMA_WRITE_WITH_IMM_ALWAYS_ASYNC_ERR
              then fail_active_rwqe status IB_WC_RECV_RDMA_WITH_IMM s
              else abort_active_rwqe (pib_util_insert_async_qp_error IB_EVENT_QP_ACCESS_ERR s))
     in (- 1, enter_error (push_acknowledge psn
          (if status = IB_WC_LOC_LEN_ERR then PIB_SYND_NAK_CODE_INV_REQ_ERR
           else PIB_SYND_NAK_CODE_REM_ACCESS_ERR) s)))"

definition write_payload :: "request_frame \<Rightarrow> u32 \<Rightarrow> u32 \<Rightarrow> pib_packet_lrh \<Rightarrow> pib_packet_bth \<Rightarrow> u8 list \<Rightarrow>
   pib_dev \<times> pib_qp \<Rightarrow> int \<times> pib_dev \<times> pib_qp" where
  "write_payload f psn imm lrh bth data = (\<lambda>(d, qp).
    let r = responder qp; sz = of_nat (length data) in
    if length data < fr_min f \<or> fr_max f < length data then nak_invalid_request psn (d, qp)
    else if rdma_write_dmalen r < rsp_offset r + sz then nak_invalid_request psn (d, qp)
    else if fr_finit f \<and> rdma_write_dmalen r \<noteq> rsp_offset r + sz then nak_invalid_request psn (d, qp)
    else if PIB_MAX_PAYLOAD_LEN < ucast (rdma_write_dmalen r)
    then write_error (fr_with_imm f) IB_WC_LOC_LEN_ERR psn (d, qp)
    else
      let (status, _, d) = pib_util_mr_copy_data_with_rkey d (qp_pd qp) (rdma_write_rkey r) data
            (rdma_write_vaddr r + ucast (rsp_offset r)) (ucast sz)
            (IB_ACCESS_LOCAL_WRITE OR IB_ACCESS_REMOTE_WRITE) PIB_MR_COPY_TO
      in if status \<noteq> IB_WC_SUCCESS then write_error (fr_with_imm f) status psn (d, qp)
         else
           let qp = upd_rsp (\<lambda>r. r \<lparr> rsp_offset := rsp_offset r + sz \<rparr>) qp;
               s = (if fr_finit f \<and> fr_with_imm f
                    then complete_recv IB_WC_RECV_RDMA_WITH_IMM imm IB_WC_WITH_IMM lrh bth (d, qp) else (d, qp))
           in (1, push_acknowledge psn PIB_SYND_ACK_CODE s))"

definition receive_RDMA_WRITE_request :: "u32 \<Rightarrow> u8 \<Rightarrow> pib_packet_lrh \<Rightarrow> pib_packet_bth \<Rightarrow> u8 list \<Rightarrow>
   pib_dev \<times> pib_qp \<Rightarrow> int \<times> pib_dev \<times> pib_qp" where
  "receive_RDMA_WRITE_request psn OpCode lrh bth data = (\<lambda>(d, qp).
    let f = write_frame OpCode (unat (pmtu qp)) in
    if fr_init f \<and> length data < sizeof_reth then nak_invalid_request psn (d, qp)
    else
      let reth = reth_of_bytes data;
          qp = (if fr_init f
                then upd_rsp (\<lambda>r. r \<lparr> rsp_offset := 0, rdma_write_vaddr := reth_vaddr reth,
                       rdma_write_rkey := reth_rkey reth, rdma_write_dmalen := reth_dmalen reth \<rparr>) qp
                else qp);
          data = (if fr_init f then drop sizeof_reth data else data)
      in if \<not> fr_with_imm f then write_payload f psn 0 lrh bth data (d, qp)
         else
           let (d, qp) = move_srq_rwqe (d, qp) in
           if rsp_recv_wqe_head (responder qp) = [] then resources_not_ready psn (d, qp)
           else if length data < 4 then nak_invalid_request psn (d, qp)
           else write_payload f psn (word_be (take 4 data)) lrh bth (drop 4 data) (d, qp))"

section \<open>Receiving atomic and RDMA READ requests\<close>

definition push_slot :: "pib_rd_atom_slot \<Rightarrow> pib_qp \<Rightarrow> pib_qp" where
  "push_slot slot = upd_rsp (\<lambda>r. r \<lparr> slots := (slots r)[slot_index r mod PIB_MAX_RD_ATOM := slot],
     slot_index := slot_index r + 1 \<rparr>)"

abbreviation too_many_rd_atomic :: "pib_qp \<Rightarrow> bool" where
  "too_many_rd_atomic qp \<equiv> int (unat (max_dest_rd_atomic (qp_attr qp))) \<le> rsp_nr_rd_atomic (responder qp)"

text \<open>
  The opcode of the packet is compared with the number of a work request opcode.  A result
  that was never stored (no page of the region holds the word) is taken to be zero.
\<close>

definition receive_Atomic_request :: "u32 \<Rightarrow> u8 \<Rightarrow> u8 list \<Rightarrow> pib_dev \<times> pib_qp \<Rightarrow> int \<times> pib_dev \<times> pib_qp" where
  "receive_Atomic_request psn OpCode data = (\<lambda>(d, qp).
    if length data \<noteq> sizeof_atomiceth then nak_invalid_request psn (d, qp)
    else
      let ae = atomiceth_of_bytes data; vaddr = aeth_vaddr ae in
      if vaddr mod 8 \<noteq> 0 then nak_access_error psn PIB_SYND_NAK_CODE_INV_REQ_ERR (d, qp)
      else if too_many_rd_atomic qp then nak_access_error psn PIB_SYND_NAK_CODE_INV_REQ_ERR (d, qp)
      else
        let (status, res, d) = pib_util_mr_atomic d (qp_pd qp) (aeth_rkey ae) vaddr (aeth_swap_dt ae) (aeth_cmp_dt ae)
              (if ucast OpCode = ib_wr_opcode_num IB_WR_ATOMIC_CMP_AND_SWP then PIB_MR_CAS else PIB_MR_FETCHADD)
        in if status \<noteq> IB_WC_SUCCESS then nak_access_error psn PIB_SYND_NAK_CODE_REM_ACCESS_ERR (d, qp)
           else
             let v = (case res of Some v \<Rightarrow> v | None \<Rightarrow> 0);
                 rpsn = rsp_psn (responder qp);
                 qp = push_slot (zero_slot \<lparr> slot_OpCode := OpCode, slot_psn := rpsn, slot_expected_psn := rpsn + 1,
                        slot_atomic_res := v \<rparr>) qp
             in (1, push_atomic_acknowledge psn v (d, qp)))"

text \<open>The end of \<^verbatim>\<open>receive_RDMA_READ_request\<close>: queue the response, in place of what it overlaps.\<close>

definition queue_rdma_read :: "u32 \<Rightarrow> u32 \<Rightarrow> pib_packet_reth \<Rightarrow> int \<Rightarrow> pib_dev \<times> pib_qp \<Rightarrow> int \<times> pib_dev \<times> pib_qp" where
  "queue_rdma_read psn expected_psn reth ret = (\<lambda>(d, qp).
    let qp = remove_overlapped_rdma_read_acknowledge psn expected_psn qp in
    if too_many_rd_atomic qp then nak_access_error psn PIB_SYND_NAK_CODE_INV_REQ_ERR (d, qp)
    else
      let (d, qp) = push_rdma_read_acknowledge psn expected_psn (reth_vaddr reth) (reth_rkey reth) (reth_dmalen reth) (d, qp)
      in (ret, d, upd_rsp (rsp_nr_contig_read_acks_update (\<lambda>_. 0)) qp))"

definition receive_RDMA_READ_request :: "u32 \<Rightarrow> u8 list \<Rightarrow> nat option \<Rightarrow> pib_dev \<times> pib_qp \<Rightarrow> int \<times> pib_dev \<times> pib_qp" where
  "receive_RDMA_READ_request psn data retried_slot = (\<lambda>(d, qp).
    if length data \<noteq> sizeof_reth then nak_invalid_request psn (d, qp)
    else
      let reth = reth_of_bytes data in
      if PIB_MAX_PAYLOAD_LEN < ucast (reth_dmalen reth) then nak_access_error psn PIB_SYND_NAK_CODE_INV_REQ_ERR (d, qp)
      else if pib_util_mr_verify_rkey_validation d (qp_pd qp) (reth_rkey reth) (reth_vaddr reth)
                (ucast (reth_dmalen reth)) IB_ACCESS_REMOTE_READ \<noteq> IB_WC_SUCCESS
      then nak_access_error psn PIB_SYND_NAK_CODE_REM_ACCESS_ERR (d, qp)
      else (case retried_slot of
          None \<Rightarrow>
            if too_many_rd_atomic qp then nak_access_error psn PIB_SYND_NAK_CODE_INV_REQ_ERR (d, qp)
            else
              let num_packets = pib_get_num_of_packets (qp_type qp) (path_mtu (qp_attr qp)) (reth_dmalen reth);
                  rpsn = rsp_psn (responder qp);
                  qp = push_slot (zero_slot \<lparr> slot_OpCode := IB_OPCODE_RDMA_READ_REQUEST, slot_psn := rpsn,
                         slot_expected_psn := rpsn + num_packets, slot_vaddress := reth_vaddr reth,
                         slot_rkey := reth_rkey reth, slot_dmalen := reth_dmalen reth \<rparr>) qp
              in queue_rdma_read psn (rpsn + num_packets) reth (uint num_packets) (d, qp)
        | Some i \<Rightarrow>
            let slot = slots (responder qp) ! i;
                offset = push_bit (path_mtu (qp_attr qp)) (word_of_int (get_psn_diff psn (slot_psn slot)) * 128) :: u32
            in if slot_rkey slot \<noteq> reth_rkey reth \<or> slot_vaddress slot + ucast offset \<noteq> reth_vaddr reth \<or>
                  slot_dmalen slot - offset \<noteq> reth_dmalen reth
               then nak_invalid_request psn (d, qp)
               else queue_rdma_read psn (slot_expected_psn slot) reth 0 (d, qp)))"

section \<open>Receiving requests\<close>

definition issue_comm_est_event :: "pib_dev \<times> pib_qp \<Rightarrow> pib_dev \<times> pib_qp" where
  "issue_comm_est_event = (\<lambda>(d, qp).
    if qp_state qp \<noteq> IB_QPS_RTR \<or> issue_comm_est qp then (d, qp)
    else let (d, qp) = pib_util_insert_async_qp_event IB_EVENT_COMM_EST (d, qp) in (d, qp \<lparr> issue_comm_est := True \<rparr>))"

text \<open>
  The newest of the remembered requests that a repeated READ or atomic request belongs to.
  \<^verbatim>\<open>slot_index - i\<close> is reduced as an unsigned number, of which the number of slots is a divisor.
\<close>

definition find_slot :: "pib_qp \<Rightarrow> u32 \<Rightarrow> u8 \<Rightarrow> nat option" where
  "find_slot qp psn OpCode =
    List.find (\<lambda>k. let slot = slots (responder qp) ! k in
        slot_OpCode slot = OpCode \<and> \<not> get_psn_diff psn (slot_psn slot) < 0 \<and>
        \<not> get_psn_diff psn (slot_expected_psn slot) \<ge> 0)
      (map (\<lambda>i. nat ((int (slot_index (responder qp)) - int i) mod int PIB_MAX_RD_ATOM))
         [1..<unat (max_dest_rd_atomic (qp_attr qp)) + 1])"

definition receive_duplicate :: "u32 \<Rightarrow> u8 \<Rightarrow> u8 list \<Rightarrow> pib_dev \<times> pib_qp \<Rightarrow> pib_dev \<times> pib_qp" where
  "receive_duplicate psn OpCode data = (\<lambda>(d, qp).
    if OpCode \<in> {IB_OPCODE_RDMA_READ_REQUEST, IB_OPCODE_COMPARE_SWAP, IB_OPCODE_FETCH_ADD}
    then (case find_slot qp psn OpCode of
        None \<Rightarrow> snd (nak_access_error psn PIB_SYND_NAK_CODE_INV_REQ_ERR (d, qp))
      | Some k \<Rightarrow>
          if OpCode = IB_OPCODE_RDMA_READ_REQUEST then snd (receive_RDMA_READ_request psn data (Some k) (d, qp))
          else push_atomic_acknowledge psn (slot_atomic_res (slots (responder qp) ! k)) (d, qp))
    else push_acknowledge psn PIB_SYND_ACK_CODE (d, qp))"

abbreviation (input) "send_opcodes \<equiv> {IB_OPCODE_SEND_FIRST, IB_OPCODE_SEND_MIDDLE, IB_OPCODE_SEND_LAST,
  IB_OPCODE_SEND_ONLY, IB_OPCODE_SEND_LAST_WITH_IMMEDIATE, IB_OPCODE_SEND_ONLY_WITH_IMMEDIATE,
  IB_OPCODE_SEND_LAST_WITH_INVALIDATE, IB_OPCODE_SEND_ONLY_WITH_INVALIDATE}"

abbreviation (input) "write_opcodes \<equiv> {IB_OPCODE_RDMA_WRITE_FIRST, IB_OPCODE_RDMA_WRITE_MIDDLE, IB_OPCODE_RDMA_WRITE_LAST,
  IB_OPCODE_RDMA_WRITE_LAST_WITH_IMMEDIATE, IB_OPCODE_RDMA_WRITE_ONLY, IB_OPCODE_RDMA_WRITE_ONLY_WITH_IMMEDIATE}"

text \<open>The request with the expected number: \<open>None\<close> is the \<^verbatim>\<open>BUG\<close> of an unknown opcode.\<close>

definition execute_request :: "u32 \<Rightarrow> u8 \<Rightarrow> pib_packet_lrh \<Rightarrow> pib_packet_bth \<Rightarrow> u8 list \<Rightarrow>
   pib_dev \<times> pib_qp \<Rightarrow> (int \<times> pib_dev \<times> pib_qp) option" where
  "execute_request psn OpCode lrh bth data s =
    (if OpCode \<in> send_opcodes then Some (receive_SEND_request psn OpCode lrh bth data s)
     else if OpCode \<in> write_opcodes then Some (receive_RDMA_WRITE_request psn OpCode lrh bth data s)
     else if OpCode = IB_OPCODE_RDMA_READ_REQUEST then Some (receive_RDMA_READ_request psn data None s)
     else if OpCode = IB_OPCODE_COMPARE_SWAP \<or> OpCode = IB_OPCODE_FETCH_ADD
     then Some (receive_Atomic_request psn OpCode data s)
     else None)"

definition advance_responder :: "u8 \<Rightarrow> int \<times> pib_dev \<times> pib_qp \<Rightarrow> pib_dev \<times> pib_qp" where
  "advance_responder OpCode = (\<lambda>(ret, d, qp).
    if ret \<ge> 0 then (d, upd_rsp (\<lambda>r. r \<lparr> rsp_psn := rsp_psn r + word_of_int ret, last_OpCode := OpCode \<rparr>) qp)
    else (d, qp))"

definition receive_request :: "pib_packet_lrh \<Rightarrow> pib_packet_bth \<Rightarrow> u8 list \<Rightarrow>
   pib_dev \<times> pib_qp \<Rightarrow> (pib_dev \<times> pib_qp) option" where
  "receive_request lrh bth data s =
    (let OpCode = bth_OpCode bth; psn = bth_psn bth AND PIB_PSN_MASK;
         s = issue_comm_est_event s; d = fst s; qp = snd s;
         psn_diff = get_psn_diff psn (rsp_psn (responder qp))
     in if 0 < psn_diff then Some (push_acknowledge psn PIB_SYND_NAK_CODE_PSN_SEQ_ERR s)
        else if psn_diff < 0 then Some (receive_duplicate psn OpCode data s)
        else if \<not> pib_opcode_is_in_order_sequence (attr_oob (module d)) OpCode (last_OpCode (responder qp))
        then Some (snd (nak_invalid_request psn s))
        else map_option (advance_responder OpCode) (execute_request psn OpCode lrh bth data s))"

section \<open>Generating acknowledgements\<close>

definition aeth_bytes :: "u8 \<Rightarrow> u8 list" where
  "aeth_bytes syndrome = bytes_be 4 (push_bit 24 (ucast syndrome) :: u32)"

definition atomicacketh_bytes :: "u64 \<Rightarrow> u8 list" where
  "atomicacketh_bytes res = bytes_be 8 res"

text \<open>The syndrome and the atomic result are given where the packet has the header for them.\<close>

definition pack_acknowledge_packet :: "pib_dev \<Rightarrow> pib_qp \<Rightarrow> u8 \<Rightarrow> u32 \<Rightarrow> u8 option \<Rightarrow> u64 option \<Rightarrow> packet" where
  "pack_acknowledge_packet d qp OpCode psn aeth atomic =
    (let p = open_packet d (attr_port_num (qp_attr qp)) (ah_attr (qp_attr qp)) (rc_bth d qp OpCode psn);
         p = append_rest (case aeth of None \<Rightarrow> [] | Some syndrome \<Rightarrow> aeth_bytes syndrome) p;
         p = append_rest (case atomic of None \<Rightarrow> [] | Some res \<Rightarrow> atomicacketh_bytes res) p
     in set_packet_length (length (packet_bytes p)) p)"

definition generate_Normal_or_Atomic_acknowledge :: "pib_ack \<Rightarrow> pib_dev \<times> pib_qp \<Rightarrow> pib_dev" where
  "generate_Normal_or_Atomic_acknowledge ack = (\<lambda>(d, qp).
    let p = (if ack_type ack = PIB_ACK_NORMAL
             then pack_acknowledge_packet d qp IB_OPCODE_ACKNOWLEDGE (ack_psn ack) (Some (ack_syndrome ack)) None
             else pack_acknowledge_packet d qp IB_OPCODE_ATOMIC_ACKNOWLEDGE (ack_psn ack) (Some PIB_SYND_ACK_CODE)
                    (Some (ack_atomic_res ack)))
    in ready_packet (attr_port_num (qp_attr qp)) (ah_dlid (ah_attr (qp_attr qp))) qp 0 (write_buffer p d))"

text \<open>Opcode and presence of the AETH of the next packet of a READ response.\<close>

definition read_response_opcode :: "pib_qp \<Rightarrow> pib_ack \<Rightarrow> u8 \<times> bool" where
  "read_response_opcode qp ack =
    (let psn_offset = drop_bit (path_mtu (qp_attr qp)) (ack_offset ack div 128) in
     if get_psn_diff (ack_expected_psn ack) (ack_psn ack) = 1 then (IB_OPCODE_RDMA_READ_RESPONSE_ONLY, True)
     else if psn_offset = 0 then (IB_OPCODE_RDMA_READ_RESPONSE_FIRST, True)
     else if get_psn_diff (ack_expected_psn ack) (ack_psn ack + psn_offset) > 1
     then (IB_OPCODE_RDMA_READ_RESPONSE_MIDDLE, False)
     else (IB_OPCODE_RDMA_READ_RESPONSE_LAST, True))"

text \<open>
  One packet of a READ response; the new acknowledgement has the offset of the next.  When
  the copy fails the function returns early: nothing is sent and the offset stays.
\<close>

definition generate_RDMA_READ_response :: "pib_ack \<Rightarrow> pib_dev \<times> pib_qp \<Rightarrow> pib_ack \<times> pib_dev \<times> pib_qp" where
  "generate_RDMA_READ_response ack = (\<lambda>(d, qp).
    let psn_offset = drop_bit (path_mtu (qp_attr qp)) (ack_offset ack div 128);
        (OpCode, with_aeth) = read_response_opcode qp ack;
        p = pack_acknowledge_packet d qp OpCode (ack_psn ack + psn_offset)
              (if with_aeth then Some PIB_SYND_ACK_CODE else None) None;
        data_size = (if ack_size ack - ack_offset ack < pmtu qp then ack_size ack - ack_offset ack else pmtu qp);
        payload_size = (data_size + 3) AND NOT 3;
        p = p \<lparr> pkt_lrh := pib_packet_lrh_set_pktlen
                  (of_nat ((length (packet_bytes p) + unat payload_size + 4) div 4)) (pkt_lrh p),
                pkt_bth := pib_packet_bth_set_padcnt (ucast (payload_size - data_size)) (pkt_bth p) \<rparr>;
        (status, out, d) = pib_util_mr_copy_data_with_rkey d (qp_pd qp) (ack_rkey ack) []
          (ack_vaddress ack + ucast (ack_offset ack)) (ucast data_size) IB_ACCESS_REMOTE_READ PIB_MR_COPY_FROM;
        d = write_buffer (append_rest out p) d
    in if status \<noteq> IB_WC_SUCCESS then (ack, d, qp)
       else (ack \<lparr> ack_offset := ack_offset ack + data_size \<rparr>,
             ready_packet (attr_port_num (qp_attr qp)) (ah_dlid (ah_attr (qp_attr qp))) qp 0 d,
             upd_rsp (\<lambda>r. r \<lparr> rsp_nr_contig_read_acks := rsp_nr_contig_read_acks r + 1 \<rparr>) qp))"

definition pib_generate_rc_qp_acknowledge :: "pib_dev \<times> pib_qp \<Rightarrow> bool \<times> pib_dev \<times> pib_qp" where
  "pib_generate_rc_qp_acknowledge = (\<lambda>(d, qp).
    if \<not> pib_is_recv_ok (qp_state qp) then (False, d, qp)
    else (case ack_head (responder qp) of
        [] \<Rightarrow> (False, d, qp)
      | ack # acks \<Rightarrow>
        (case ack_type ack of
           PIB_ACK_ATOMIC \<Rightarrow>
             (True, generate_Normal_or_Atomic_acknowledge ack (d, qp),
              upd_rsp (\<lambda>r. r \<lparr> ack_head := acks, rsp_nr_rd_atomic := rsp_nr_rd_atomic r - 1 \<rparr>) qp)
         | PIB_ACK_NORMAL \<Rightarrow>
             (True, generate_Normal_or_Atomic_acknowledge ack (d, qp), upd_rsp (ack_head_update (\<lambda>_. acks)) qp)
         | PIB_ACK_RMDA_READ \<Rightarrow>
             if PIB_MAX_CONTIG_READ_ACKS < rsp_nr_contig_read_acks (responder qp) then (False, d, qp)
             else
               let (ack, d, qp) = generate_RDMA_READ_response ack (d, qp) in
               if ack_offset ack < ack_size ack then (True, d, upd_rsp (ack_head_update (\<lambda>_. ack # acks)) qp)
               else (True, d, upd_rsp (\<lambda>r. r \<lparr> ack_head := acks, rsp_nr_rd_atomic := rsp_nr_rd_atomic r - 1 \<rparr>) qp))))"

definition receive_cnp_notify :: "pib_dev \<times> pib_qp \<Rightarrow> pib_dev \<times> pib_qp" where
  "receive_cnp_notify = (\<lambda>(d, qp). (d, upd_rsp (rsp_nr_contig_read_acks_update (\<lambda>_. 0)) qp))"

end
