(* ===== verification/Pib_RC_Req.thy ===== *)
theory Pib_RC_Req
  imports Pib_RC_Rsp
begin

text \<open>
  The requester of the reliable connection service, \<^verbatim>\<open>driver/pib_rc.c\<close>: generating the packets
  of send requests, and processing the responses; and the dispatch of an incoming packet to
  requester or responder.  The properties are in \<open>Pib_QP_Wf\<close>, \<open>Pib_QP_Run\<close>
  and \<open>Pib_RC_Write\<close>.

  A send request that is being processed is passed by value and returned; the caller puts it
  back into its list.
\<close>

section \<open>Generating requests\<close>

text \<open>The opcode of the next packet, and whether it has a RETH, an immediate value, an R_Key.\<close>

fun segment_opcode :: "ib_wr_opcode \<Rightarrow> u32 \<Rightarrow> u32 \<Rightarrow> (u8 \<times> bool \<times> bool \<times> bool) option" where
  "segment_opcode IB_WR_SEND all sent = Some
    (if all = 1 then IB_OPCODE_SEND_ONLY else if sent = 0 then IB_OPCODE_SEND_FIRST
     else if all = sent + 1 then IB_OPCODE_SEND_LAST else IB_OPCODE_SEND_MIDDLE, False, False, False)"
| "segment_opcode IB_WR_SEND_WITH_IMM all sent = Some
    (if all = 1 then (IB_OPCODE_SEND_ONLY_WITH_IMMEDIATE, False, True, False)
     else if sent = 0 then (IB_OPCODE_SEND_FIRST, False, False, False)
     else if all = sent + 1 then (IB_OPCODE_SEND_LAST_WITH_IMMEDIATE, False, True, False)
     else (IB_OPCODE_SEND_MIDDLE, False, False, False))"
| "segment_opcode IB_WR_SEND_WITH_INV all sent = Some
    (if all = 1 then (IB_OPCODE_SEND_ONLY_WITH_INVALIDATE, False, False, True)
     else if sent = 0 then (IB_OPCODE_SEND_FIRST, False, False, False)
     else if all = sent + 1 then (IB_OPCODE_SEND_LAST_WITH_INVALIDATE, False, False, True)
     else (IB_OPCODE_SEND_MIDDLE, False, False, False))"
| "segment_opcode IB_WR_RDMA_WRITE all sent = Some
    (if all = 1 then (IB_OPCODE_RDMA_WRITE_ONLY, True, False, False)
     else if sent = 0 then (IB_OPCODE_RDMA_WRITE_FIRST, True, False, False)
     else if all = sent + 1 then (IB_OPCODE_RDMA_WRITE_LAST, False, False, False)
     else (IB_OPCODE_RDMA_WRITE_MIDDLE, False, False, False))"
| "segment_opcode IB_WR_RDMA_WRITE_WITH_IMM all sent = Some
    (if all = 1 then (IB_OPCODE_RDMA_WRITE_ONLY_WITH_IMMEDIATE, True, True, False)
     else if sent = 0 then (IB_OPCODE_RDMA_WRITE_FIRST, True, False, False)
     else if all = sent + 1 then (IB_OPCODE_RDMA_WRITE_LAST_WITH_IMMEDIATE, False, True, False)
     else (IB_OPCODE_RDMA_WRITE_MIDDLE, False, False, False))"
| "segment_opcode _ all sent = None"

text \<open>\<^verbatim>\<open>memcpy\<close> from the inline area of the entry; what lies behind its data is not known.\<close>

definition read_inline :: "pib_dev \<Rightarrow> pib_send_wqe \<Rightarrow> nat \<Rightarrow> nat \<Rightarrow> u8 list" where
  "read_inline d w offset n = map (\<lambda>i. if i < length (swqe_inline_data w) then swqe_inline_data w ! i
     else inline_oob (module d) i) [offset..<offset + n]"

definition segment_offset :: "pib_qp \<Rightarrow> u32 \<Rightarrow> u32" where
  "segment_offset qp n = push_bit (path_mtu (qp_attr qp)) (n * 128)"

definition segment_size :: "pib_qp \<Rightarrow> pib_send_wqe \<Rightarrow> u32" where
  "segment_size qp w =
    (if all_packets (processing w) - sent_packets (processing w) = 1
     then swqe_total_length w - segment_offset qp (sent_packets (processing w)) else pmtu qp)"

abbreviation set_solicited :: "pib_send_wqe \<Rightarrow> packet \<Rightarrow> packet" where
  "set_solicited w p \<equiv> p \<lparr> pkt_bth := pib_packet_bth_set_solicited (flag_set (swqe_send_flags w) IB_SEND_SOLICITED) (pkt_bth p) \<rparr>"

definition process_SEND_or_RDMA_WRITE_request ::
  "bool \<Rightarrow> bool \<Rightarrow> bool \<Rightarrow> pib_send_wqe \<Rightarrow> packet \<Rightarrow> pib_dev \<times> pib_qp \<Rightarrow> ib_wc_status \<times> pib_dev \<times> pib_qp" where
  "process_SEND_or_RDMA_WRITE_request with_reth with_imm with_inv w p = (\<lambda>(d, qp).
    if PIB_MAX_PAYLOAD_LEN < ucast (swqe_total_length w) then (IB_WC_LOC_LEN_ERR, d, qp)
    else
      let qp = (if with_reth then upd_req (nr_contig_requests_update (\<lambda>_. 0)) qp else qp);
          p = append_rest (if with_reth then reth_bytes \<lparr> reth_vaddr = rdma_remote_addr w, reth_rkey = rdma_rkey w,
                 reth_dmalen = swqe_total_length w \<rparr> else []) p;
          p = append_rest (if with_imm then bytes_be 4 (swqe_ex w) else []) p;
          p = append_rest (if with_inv then bytes_be 4 (swqe_ex w) else []) p;
          mr_offset = segment_offset qp (sent_packets (processing w));
          payload_size = segment_size qp w;
          (status, out, d) = (if payload_size = 0 then (IB_WC_SUCCESS, [], d)
            else if flag_set (swqe_send_flags w) IB_SEND_INLINE
            then (IB_WC_SUCCESS, read_inline d w (unat mr_offset) (unat payload_size), d)
            else pib_util_mr_copy_data d (qp_pd qp) (swqe_sge_array w) [] (ucast mr_offset) (ucast payload_size) 0
                   PIB_MR_COPY_FROM)
      in if status \<noteq> IB_WC_SUCCESS then (status, d, qp)
         else (IB_WC_SUCCESS,
           write_buffer (set_solicited w (set_packet_length (length (packet_bytes p) + unat payload_size)
             (append_rest out p))) d, qp))"

definition process_RDMA_READ_request :: "pib_send_wqe \<Rightarrow> packet \<Rightarrow> pib_dev \<times> pib_qp \<Rightarrow> ib_wc_status \<times> pib_dev \<times> pib_qp" where
  "process_RDMA_READ_request w p = (\<lambda>(d, qp).
    if PIB_MAX_PAYLOAD_LEN < ucast (swqe_total_length w) then (IB_WC_LOC_LEN_ERR, d, qp)
    else
      let offset = pmtu qp * sent_packets (processing w);
          p = append_rest (reth_bytes \<lparr> reth_vaddr = rdma_remote_addr w + ucast offset, reth_rkey = rdma_rkey w,
                 reth_dmalen = swqe_total_length w - offset \<rparr>) p
      in (IB_WC_SUCCESS, write_buffer (set_solicited w (set_packet_length (length (packet_bytes p)) p)) d, qp))"

definition process_Atomic_request :: "pib_send_wqe \<Rightarrow> packet \<Rightarrow> pib_dev \<times> pib_qp \<Rightarrow> ib_wc_status \<times> pib_dev \<times> pib_qp" where
  "process_Atomic_request w p = (\<lambda>(d, qp).
    let p = append_rest (atomiceth_bytes \<lparr> aeth_vaddr = atomic_remote_addr w, aeth_rkey = atomic_rkey w,
              aeth_swap_dt = atomic_swap w, aeth_cmp_dt = atomic_compare_add w \<rparr>) p
    in (IB_WC_SUCCESS, write_buffer (set_solicited w (set_packet_length (length (packet_bytes p)) p)) d, qp))"

text \<open>The switch over the opcode: the packet it writes, or the status of the failure.\<close>

definition build_request :: "pib_send_wqe \<Rightarrow> pib_dev \<times> pib_qp \<Rightarrow> ib_wc_status \<times> pib_dev \<times> pib_qp" where
  "build_request w = (\<lambda>(d, qp).
    let pr = processing w;
        pkt = (\<lambda>OpCode. open_packet d (attr_port_num (qp_attr qp)) (ah_attr (qp_attr qp))
                 (rc_bth d qp OpCode (based_psn pr + sent_packets pr)))
    in case segment_opcode (swqe_opcode w) (all_packets pr) (sent_packets pr) of
         Some (OpCode, with_reth, with_imm, with_inv) \<Rightarrow>
           process_SEND_or_RDMA_WRITE_request with_reth with_imm with_inv w (pkt OpCode) (d, qp)
       | None \<Rightarrow>
           if swqe_opcode w = IB_WR_RDMA_READ then process_RDMA_READ_request w (pkt IB_OPCODE_RDMA_READ_REQUEST) (d, qp)
           else if swqe_opcode w = IB_WR_ATOMIC_CMP_AND_SWP then process_Atomic_request w (pkt IB_OPCODE_COMPARE_SWAP) (d, qp)
           else if swqe_opcode w = IB_WR_ATOMIC_FETCH_AND_ADD then process_Atomic_request w (pkt IB_OPCODE_FETCH_ADD) (d, qp)
           else (IB_WC_LOC_QP_OP_ERR, d, qp))"

section \<open>Local operations\<close>

abbreviation upd_pr :: "(pib_swqe_processing \<Rightarrow> pib_swqe_processing) \<Rightarrow> pib_send_wqe \<Rightarrow> pib_send_wqe" where
  "upd_pr f w \<equiv> w \<lparr> processing := f (processing w) \<rparr>"

text \<open>The flag is whether the status is a success; \<open>None\<close> is the \<^verbatim>\<open>BUG\<close> of any other opcode.\<close>

definition pib_process_local_only_request :: "pib_send_wqe \<Rightarrow> pib_dev \<times> pib_qp \<Rightarrow>
   (bool \<times> pib_send_wqe \<times> pib_dev \<times> pib_qp) option" where
  "pib_process_local_only_request w = (\<lambda>(d, qp).
    if pr_done (processing w) then Some (pr_status (processing w) = IB_WC_SUCCESS, w, d, qp)
    else map_option (\<lambda>(status, d). (status = IB_WC_SUCCESS, upd_pr (\<lambda>p. p \<lparr> pr_status := status, pr_done := True \<rparr>) w, d, qp))
      (if swqe_opcode w = IB_WR_LOCAL_INV then Some (pib_util_mr_invalidate d (qp_pd qp) (swqe_ex w))
       else if swqe_opcode w = IB_WR_FAST_REG_MR then Some (pib_util_mr_fast_reg_pmr d (qp_pd qp) (swqe_fast_reg w))
       else None))"

definition skip_to_send_packet :: "pib_send_wqe \<Rightarrow> pib_dev \<times> pib_qp \<Rightarrow> bool \<times> pib_send_wqe \<times> pib_dev \<times> pib_qp" where
  "skip_to_send_packet w = (\<lambda>(d, qp).
    (True, upd_pr (\<lambda>p. p \<lparr> list_type := PIB_SWQE_WAITING, local_ack_time := jiffies d + qp_local_ack_timeout qp \<rparr>) w, d, qp))"

definition rc_request_packet :: "pib_send_wqe \<Rightarrow> pib_dev \<times> pib_qp \<Rightarrow> bool \<times> pib_send_wqe \<times> pib_dev \<times> pib_qp" where
  "rc_request_packet w s =
    (let completion_error = (\<lambda>status s. (False, upd_pr (pr_status_update (\<lambda>_. status)) w, s)) in
     if retry_cnt (processing w) < 0 then completion_error IB_WC_RETRY_EXC_ERR s
     else if rnr_retry (processing w) < 0 then completion_error IB_WC_RNR_RETRY_EXC_ERR s
     else
       let (status, d, qp) = build_request w s in
       if status \<noteq> IB_WC_SUCCESS then completion_error status (d, qp)
       else
         let d = ready_packet (attr_port_num (qp_attr qp)) (ah_dlid (ah_attr (qp_attr qp))) qp (swqe_trace_id w) d in
         if swqe_opcode w = IB_WR_RDMA_READ then skip_to_send_packet w (d, qp)
         else
           let w = upd_pr (\<lambda>p. p \<lparr> sent_packets := sent_packets p + 1 \<rparr>) w;
               qp = upd_req (\<lambda>r. r \<lparr> nr_contig_requests := nr_contig_requests r + 1 \<rparr>) qp
           in if sent_packets (processing w) < all_packets (processing w) then (True, w, d, qp)
              else skip_to_send_packet w (d, qp))"

definition pib_process_rc_qp_request :: "pib_send_wqe \<Rightarrow> pib_dev \<times> pib_qp \<Rightarrow>
   (bool \<times> pib_send_wqe \<times> pib_dev \<times> pib_qp) option" where
  "pib_process_rc_qp_request w s =
    (if \<not> local_only_request w then Some (rc_request_packet w s)
     else if pib_get_behavior (fst s) PIB_BEHAVIOR_RELAXED_INVALIDATION_ORDERING
     then map_option (\<lambda>(ok, w, s). if ok then skip_to_send_packet w s else (False, w, s))
            (pib_process_local_only_request w s)
     else Some (skip_to_send_packet w s))"

section \<open>Acknowledged requests\<close>

definition postpone_local_ack_timeout :: "pib_dev \<times> pib_qp \<Rightarrow> pib_dev \<times> pib_qp" where
  "postpone_local_ack_timeout = (\<lambda>(d, qp). (d, upd_req (waiting_swqe_head_update (map (upd_pr (\<lambda>p. p \<lparr>
     retry_cnt := int (unat (attr_retry_cnt (qp_attr qp))),
     local_ack_time := jiffies d + qp_local_ack_timeout qp \<rparr>)))) qp))"

datatype ack_result = RET_ERROR | RET_COMPLETE | RET_CONTINUE | RET_STOP

definition process_acknowledge :: "u32 \<Rightarrow> pib_send_wqe \<Rightarrow> pib_dev \<times> pib_qp \<Rightarrow>
   ack_result \<times> pib_send_wqe \<times> pib_dev \<times> pib_qp" where
  "process_acknowledge psn w = (\<lambda>(d, qp).
    let pr = processing w; psn_diff = get_psn_diff psn (based_psn pr) in
    if pr_status pr \<noteq> IB_WC_SUCCESS then (RET_ERROR, w, d, qp)
    else if psn_diff < 0 then (RET_STOP, w, d, qp)
    else if psn_diff + 1 \<le> uint (ack_packets pr) then (RET_STOP, w, d, qp)
    else if pib_is_wr_opcode_rd_atomic (swqe_opcode w)
    then (RET_ERROR, upd_pr (pr_status_update (\<lambda>_. IB_WC_BAD_RESP_ERR)) w, d, qp)
    else if psn_diff + 1 < uint (all_packets pr)
    then (RET_CONTINUE, upd_pr (ack_packets_update (\<lambda>_. word_of_int (psn_diff + 1))) w, d, qp)
    else
      let (d, qp) = complete_send (pib_convert_wr_opcode_to_wc_opcode (swqe_opcode w)) w (d, qp)
      in (RET_COMPLETE, w, d, upd_req (req_psn_update (\<lambda>_. pr_expected_psn pr AND PIB_PSN_MASK)) qp))"

text \<open>
  The loop over one of the two lists of requests in flight: how it ends, and what is left of
  the list.  The entry that failed is off the list.
\<close>

datatype ack_end = Ack_all | Ack_stopped | Ack_failed pib_send_wqe

fun ack_loop :: "u32 \<Rightarrow> pib_send_wqe list \<Rightarrow> pib_dev \<times> pib_qp \<Rightarrow> ack_end \<times> pib_send_wqe list \<times> pib_dev \<times> pib_qp" where
  "ack_loop psn [] s = (Ack_all, [], s)"
| "ack_loop psn (w # ws) s =
    (case process_acknowledge psn w s of
       (RET_ERROR, w, s) \<Rightarrow> (Ack_failed w, ws, s)
     | (RET_COMPLETE, w, d, qp) \<Rightarrow> ack_loop psn ws (d, pib_util_free_send_wqe w qp)
     | (RET_CONTINUE, w, s) \<Rightarrow> (Ack_stopped, w # ws, s)
     | (RET_STOP, w, s) \<Rightarrow> (Ack_stopped, w # ws, s))"

definition ack_waiting :: "u32 \<Rightarrow> pib_dev \<times> pib_qp \<Rightarrow> ack_end \<times> pib_dev \<times> pib_qp" where
  "ack_waiting psn = (\<lambda>(d, qp).
    let ws = waiting_swqe_head (requester qp); (e, rest, d, qp) = ack_loop psn ws (d, qp)
    in (e, d, upd_req (\<lambda>r. r \<lparr> waiting_swqe_head := rest,
         nr_waiting_swqe := nr_waiting_swqe r - int (length ws - length rest) \<rparr>) qp))"

definition ack_sending :: "u32 \<Rightarrow> pib_dev \<times> pib_qp \<Rightarrow> ack_end \<times> pib_dev \<times> pib_qp" where
  "ack_sending psn = (\<lambda>(d, qp).
    let ws = sending_swqe_head (requester qp); (e, rest, d, qp) = ack_loop psn ws (d, qp)
    in (e, d, upd_req (\<lambda>r. r \<lparr> sending_swqe_head := rest,
         nr_sending_swqe := nr_sending_swqe r - int (length ws - length rest) \<rparr>) qp))"

definition fail_send :: "pib_send_wqe \<Rightarrow> pib_dev \<times> pib_qp \<Rightarrow> pib_dev \<times> pib_qp" where
  "fail_send w = (\<lambda>(d, qp).
    enter_error (snd (pib_util_insert_wc_error (send_cq qp) qp (swqe_wr_id w) (pr_status (processing w))
      (ib_wr_opcode_num (swqe_opcode w)) d), pib_util_free_send_wqe w qp))"

definition receive_ACK_response :: "u32 \<Rightarrow> pib_dev \<times> pib_qp \<Rightarrow> pib_dev \<times> pib_qp" where
  "receive_ACK_response psn s =
    (case ack_waiting psn s of
       (Ack_failed w, s) \<Rightarrow> fail_send w s
     | (Ack_stopped, s) \<Rightarrow> postpone_local_ack_timeout s
     | (Ack_all, s) \<Rightarrow>
       (case ack_sending psn s of
          (Ack_failed w, s) \<Rightarrow> fail_send w s
        | (_, s) \<Rightarrow> postpone_local_ack_timeout s))"

section \<open>Responses with data\<close>

definition psn_in_request :: "u32 \<Rightarrow> pib_send_wqe \<Rightarrow> bool" where
  "psn_in_request psn w \<longleftrightarrow> get_psn_diff psn (based_psn (processing w)) \<ge> 0 \<and>
     get_psn_diff psn (pr_expected_psn (processing w)) < 0"

fun find_index :: "('a \<Rightarrow> bool) \<Rightarrow> 'a list \<Rightarrow> nat option" where
  "find_index P [] = None"
| "find_index P (x # xs) = (if P x then Some 0 else map_option Suc (find_index P xs))"

text \<open>
  \<^verbatim>\<open>match_send_wqe\<close>: whether the request is in the waiting list (or else the sending list), and
  its position there.  It is the first request in flight when nothing is in front of it.
\<close>

definition match_send_wqe :: "pib_qp \<Rightarrow> u32 \<Rightarrow> (bool \<times> nat) option" where
  "match_send_wqe qp psn =
    (case find_index (psn_in_request psn) (waiting_swqe_head (requester qp)) of
       Some i \<Rightarrow> Some (True, i)
     | None \<Rightarrow> map_option (Pair False) (find_index (psn_in_request psn) (sending_swqe_head (requester qp))))"

definition matched :: "bool \<times> nat \<Rightarrow> pib_qp \<Rightarrow> pib_send_wqe" where
  "matched = (\<lambda>(waiting, i) qp.
    if waiting then waiting_swqe_head (requester qp) ! i else sending_swqe_head (requester qp) ! i)"

definition first_send_wqe :: "bool \<times> nat \<Rightarrow> pib_qp \<Rightarrow> bool" where
  "first_send_wqe = (\<lambda>(waiting, i) qp. i = 0 \<and> (waiting \<or> waiting_swqe_head (requester qp) = []))"

definition upd_matched :: "bool \<times> nat \<Rightarrow> (pib_swqe_processing \<Rightarrow> pib_swqe_processing) \<Rightarrow> pib_qp \<Rightarrow> pib_qp" where
  "upd_matched = (\<lambda>(waiting, i) f. upd_req (\<lambda>r.
    if waiting then r \<lparr> waiting_swqe_head := (waiting_swqe_head r)[i := upd_pr f (waiting_swqe_head r ! i)] \<rparr>
    else r \<lparr> sending_swqe_head := (sending_swqe_head r)[i := upd_pr f (sending_swqe_head r ! i)] \<rparr>))"

definition remove_matched :: "bool \<times> nat \<Rightarrow> pib_qp \<Rightarrow> pib_qp" where
  "remove_matched = (\<lambda>(waiting, i). upd_req (\<lambda>r.
    if waiting then r \<lparr> waiting_swqe_head := take i (waiting_swqe_head r) @ drop (Suc i) (waiting_swqe_head r),
                        nr_waiting_swqe := nr_waiting_swqe r - 1 \<rparr>
    else r \<lparr> sending_swqe_head := take i (sending_swqe_head r) @ drop (Suc i) (sending_swqe_head r),
             nr_sending_swqe := nr_sending_swqe r - 1 \<rparr>))"

text \<open>The end of a READ or an atomic operation; \<open>None\<close> is the \<^verbatim>\<open>BUG_ON\<close> of the counter.\<close>

definition finish_rd_atomic :: "u32 \<Rightarrow> bool \<times> nat \<Rightarrow> pib_dev \<times> pib_qp \<Rightarrow> (pib_dev \<times> pib_qp) option" where
  "finish_rd_atomic opcode m = (\<lambda>(d, qp).
    let w = matched m qp;
        (d, qp) = complete_send opcode w (d, qp);
        qp = upd_req (\<lambda>r. r \<lparr> req_nr_rd_atomic := req_nr_rd_atomic r - 1 \<rparr>) qp
    in if req_nr_rd_atomic (requester qp) < 0 then None
       else
         let qp = upd_req (req_psn_update (\<lambda>_. pr_expected_psn (processing w) AND PIB_PSN_MASK)) qp
         in Some (postpone_local_ack_timeout (d, pib_util_free_send_wqe w (remove_matched m qp))))"

definition process_cnp_notify_request :: "pib_send_wqe \<Rightarrow> pib_dev \<times> pib_qp \<Rightarrow> pib_dev" where
  "process_cnp_notify_request w = (\<lambda>(d, qp).
    let p = open_packet d (attr_port_num (qp_attr qp)) (ah_attr (qp_attr qp))
              (rc_bth d qp PIB_OPCODE_CNP_SEND_NOTIFY (rsp_psn (responder qp)));
        p = p \<lparr> pkt_lrh := pib_packet_lrh_set_pktlen (of_nat ((length (packet_bytes p) + 4) div 4)) (pkt_lrh p) \<rparr>
    in ready_packet (attr_port_num (qp_attr qp)) (ah_dlid (ah_attr (qp_attr qp))) qp (swqe_trace_id w) (write_buffer p d))"

definition read_response_taken :: "bool \<times> nat \<Rightarrow> pib_dev \<times> pib_qp \<Rightarrow> (pib_dev \<times> pib_qp) option" where
  "read_response_taken m = (\<lambda>(d, qp).
    let qp = upd_matched m (\<lambda>p. p \<lparr> local_ack_time := jiffies d + qp_local_ack_timeout qp,
               sent_packets := sent_packets p + 1, ack_packets := ack_packets p + 1 \<rparr>) qp;
        n = req_nr_contig_read_acks (requester qp) + 1;
        cnp = (PIB_MAX_CONTIG_READ_ACKS div 3 < n);
        qp = upd_req (req_nr_contig_read_acks_update (\<lambda>_. if cnp then 0 else n)) qp;
        d = (if cnp then process_cnp_notify_request (matched m qp) (d, qp) else d);
        pr = processing (matched m qp)
    in if sent_packets pr < all_packets pr then Some (d, qp) else finish_rd_atomic IB_WC_RDMA_READ m (d, qp))"

definition receive_RDMA_READ_response :: "u32 \<Rightarrow> u8 list \<Rightarrow> pib_dev \<times> pib_qp \<Rightarrow> (pib_dev \<times> pib_qp) option" where
  "receive_RDMA_READ_response psn data = (\<lambda>(d, qp).
    case match_send_wqe qp psn of
      None \<Rightarrow> Some (d, qp)
    | Some m \<Rightarrow>
      (let w = matched m qp; pr = processing w in
       if swqe_opcode w \<noteq> IB_WR_RDMA_READ then Some (d, upd_matched m (pr_status_update (\<lambda>_. IB_WC_BAD_RESP_ERR)) qp)
       else if \<not> first_send_wqe m qp \<or> get_psn_diff (based_psn pr + sent_packets pr) psn \<noteq> 0 then Some (d, qp)
       else if get_psn_diff (based_psn pr + ack_packets pr) psn \<noteq> 0 then Some (d, qp)
       else
         let offset = segment_offset qp (ack_packets pr);
             sz = min (of_nat (length data)) (swqe_total_length w - offset);
             (status, _, d) = pib_util_mr_copy_data d (qp_pd qp) (swqe_sge_array w) data (ucast offset) (ucast sz)
               IB_ACCESS_LOCAL_WRITE PIB_MR_COPY_TO
         in if status \<noteq> IB_WC_SUCCESS then Some (d, upd_matched m (pr_status_update (\<lambda>_. status)) qp)
            else read_response_taken m (d, qp)))"

definition receive_Atomic_response :: "u32 \<Rightarrow> u8 list \<Rightarrow> pib_dev \<times> pib_qp \<Rightarrow> (pib_dev \<times> pib_qp) option" where
  "receive_Atomic_response psn data = (\<lambda>(d, qp).
    if length data \<noteq> sizeof_atomicacketh then Some (d, qp)
    else (case match_send_wqe qp psn of
      None \<Rightarrow> Some (d, qp)
    | Some m \<Rightarrow>
      (let w = matched m qp; res = word_be data :: u64 in
       if swqe_opcode w \<noteq> IB_WR_ATOMIC_CMP_AND_SWP \<and> swqe_opcode w \<noteq> IB_WR_ATOMIC_FETCH_AND_ADD
       then Some (d, upd_matched m (pr_status_update (\<lambda>_. IB_WC_BAD_RESP_ERR)) qp)
       else if \<not> first_send_wqe m qp \<or> get_psn_diff (based_psn (processing w)) psn \<noteq> 0 then Some (d, qp)
       else
         let (status, _, d) = pib_util_mr_copy_data d (qp_pd qp) (swqe_sge_array w) (bytes_le res) 0 8
               IB_ACCESS_LOCAL_WRITE PIB_MR_COPY_TO
         in if status \<noteq> IB_WC_SUCCESS then Some (d, upd_matched m (pr_status_update (\<lambda>_. status)) qp)
            else finish_rd_atomic (pib_convert_wr_opcode_to_wc_opcode (swqe_opcode w)) m (d, qp))))"

section \<open>Receiving responses\<close>

definition set_send_wqe_to_error :: "u32 \<Rightarrow> ib_wc_status \<Rightarrow> pib_qp \<Rightarrow> pib_qp" where
  "set_send_wqe_to_error psn status qp =
    (case match_send_wqe qp psn of
       None \<Rightarrow> qp
     | Some m \<Rightarrow> upd_matched m (pr_status_update (\<lambda>_. status)) qp)"

text \<open>All requests in flight go back to the sending list, to continue behind what was acknowledged.\<close>

definition back_to_sending :: "pib_qp \<Rightarrow> pib_qp" where
  "back_to_sending = upd_req (\<lambda>r. r \<lparr>
     sending_swqe_head := map (upd_pr (\<lambda>p. p \<lparr> sent_packets := ack_packets p \<rparr>))
       (map (upd_pr (list_type_update (\<lambda>_. PIB_SWQE_SENDING))) (waiting_swqe_head r) @ sending_swqe_head r),
     nr_sending_swqe := nr_sending_swqe r + int (length (waiting_swqe_head r)),
     nr_waiting_swqe := nr_waiting_swqe r - int (length (waiting_swqe_head r)),
     waiting_swqe_head := [] \<rparr>)"

definition retry_send :: "u64 \<Rightarrow> pib_qp \<Rightarrow> pib_qp" where
  "retry_send rnr_timeout qp =
    (let qp = back_to_sending qp in
     case sending_swqe_head (requester qp) of
       [] \<Rightarrow> qp
     | w # ws \<Rightarrow>
       if rnr_timeout \<noteq> 0 \<and> swqe_opcode w \<in> {IB_WR_SEND, IB_WR_SEND_WITH_IMM, IB_WR_RDMA_WRITE_WITH_IMM}
       then upd_req (sending_swqe_head_update (\<lambda>_. upd_pr (\<lambda>p. p \<lparr> schedule_time := rnr_timeout,
              rnr_retry := (if attr_rnr_retry (qp_attr qp) < 7 then rnr_retry p - 1 else rnr_retry p) \<rparr>) w # ws)) qp
       else qp)"

fun nak_status :: "u8 \<Rightarrow> ib_wc_status option" where
  "nak_status syndrome =
    (if syndrome = PIB_SYND_NAK_CODE_INV_REQ_ERR then Some IB_WC_REM_INV_REQ_ERR
     else if syndrome = PIB_SYND_NAK_CODE_REM_ACCESS_ERR then Some IB_WC_REM_ACCESS_ERR
     else if syndrome = PIB_SYND_NAK_CODE_REM_OP_ERR then Some IB_WC_REM_OP_ERR
     else if syndrome = PIB_SYND_NAK_CODE_INV_RD_REQ_ERR then Some IB_WC_REM_INV_RD_REQ_ERR
     else None)"

definition check_sq_drained :: "pib_dev \<times> pib_qp \<Rightarrow> pib_dev \<times> pib_qp" where
  "check_sq_drained = (\<lambda>(d, qp).
    if qp_state qp = IB_QPS_SQD \<and> \<not> issue_sq_drained qp \<and>
       sending_swqe_head (requester qp) = [] \<and> waiting_swqe_head (requester qp) = []
    then let (d, qp) = (if en_sqd_async_notify (qp_attr qp)
                        then pib_util_insert_async_qp_event IB_EVENT_SQ_DRAINED (d, qp) else (d, qp))
         in (d, qp \<lparr> issue_sq_drained := True \<rparr>)
    else (d, qp))"

definition response_by_opcode :: "u8 \<Rightarrow> u32 \<Rightarrow> u8 list \<Rightarrow> pib_dev \<times> pib_qp \<Rightarrow> (pib_dev \<times> pib_qp) option" where
  "response_by_opcode OpCode psn data s =
    map_option check_sq_drained
      (if OpCode = IB_OPCODE_ACKNOWLEDGE then Some (receive_ACK_response psn s)
       else if OpCode \<in> {IB_OPCODE_RDMA_READ_RESPONSE_FIRST, IB_OPCODE_RDMA_READ_RESPONSE_LAST,
                         IB_OPCODE_RDMA_READ_RESPONSE_ONLY, IB_OPCODE_RDMA_READ_RESPONSE_MIDDLE}
       then receive_RDMA_READ_response psn data s
       else if OpCode = IB_OPCODE_ATOMIC_ACKNOWLEDGE then receive_Atomic_response psn data s
       else None)"

text \<open>The first four bytes are taken for an AETH, whatever the opcode.\<close>

definition receive_response :: "pib_packet_bth \<Rightarrow> u8 list \<Rightarrow> pib_dev \<times> pib_qp \<Rightarrow> (pib_dev \<times> pib_qp) option" where
  "receive_response bth data = (\<lambda>(d, qp).
    if length data < sizeof_aeth then Some (d, qp)
    else
      let qp = upd_req (nr_contig_requests_update (\<lambda>_. 0)) qp;
          psn = bth_psn bth AND PIB_PSN_MASK;
          syndrome = data ! 0; data = drop sizeof_aeth data;
          code = syndrome AND PIB_SYND_CODE_MASK
      in if bth_OpCode bth = IB_OPCODE_RDMA_READ_RESPONSE_MIDDLE \<or> code = PIB_SYND_ACK_CODE
         then response_by_opcode (bth_OpCode bth) psn data (d, qp)
         else if code = PIB_SYND_RNR_NAK_CODE
         then Some (d, retry_send (ucast (pib_get_rnr_nak_time (kernel_HZ (module d)) (unat (syndrome AND 0x1F)))) qp)
         else if code = PIB_SYND_NAK_CODE
         then if syndrome = PIB_SYND_NAK_CODE_PSN_SEQ_ERR then Some (d, retry_send 0 qp)
              else response_by_opcode (bth_OpCode bth) psn data (d, case nak_status syndrome of
                     None \<Rightarrow> qp | Some status \<Rightarrow> set_send_wqe_to_error psn status qp)
         else Some (d, qp))"

section \<open>Incoming packets\<close>

definition pib_receive_rc_qp_incoming_message :: "u8 \<Rightarrow> pib_packet_lrh \<Rightarrow> pib_packet_bth \<Rightarrow> u8 list \<Rightarrow>
   pib_dev \<times> pib_qp \<Rightarrow> (pib_dev \<times> pib_qp) option" where
  "pib_receive_rc_qp_incoming_message port_num lrh bth data s =
    (if \<not> pib_is_recv_ok (qp_state (snd s)) then Some s
     else if attr_port_num (qp_attr (snd s)) \<noteq> port_num then Some s
     else if bth_OpCode bth = PIB_OPCODE_CNP_SEND_NOTIFY then Some (receive_cnp_notify s)
     else if pib_opcode_is_acknowledge (attr_oob (module (fst s))) (bth_OpCode bth) then receive_response bth data s
     else receive_request lrh bth data s)"

end
