(* ===== verification/Pib_UD.thy ===== *)
theory Pib_UD
  imports Pib_RC_Req
begin

text \<open>
  Unreliable datagrams, \<^verbatim>\<open>driver/pib_ud.c\<close>: sending one, for the queue pairs of type UD and for
  the special ones, and receiving one. That both keep the queue pair
  well-formed is shown in \<open>Pib_QP_Wf\<close> and \<open>Pib_QP_Run\<close>.
\<close>

section \<open>Sending\<close>

abbreviation (input) "IB_QP1_QKEY \<equiv> (0x80010000 :: u32)"
abbreviation (input) "IB_MGMT_CLASS_SUBN_DIRECTED_ROUTE \<equiv> (0x81 :: u8)"

text \<open>
  The correction for directed routes looks at the place of the payload before the payload is
  there.  Without a global route header that place has just been cleared; with one it holds
  what the buffer held before, \<open>stale\<close>.
\<close>

definition correct_directed_route :: "(nat \<Rightarrow> u8) \<Rightarrow> pib_send_wqe \<Rightarrow> packet \<Rightarrow> packet" where
  "correct_directed_route stale w p =
    (if ud_remote_qpn w = of_nat PIB_QP0 \<and> pkt_grh p \<noteq> None \<and> stale 1 = IB_MGMT_CLASS_SUBN_DIRECTED_ROUTE
     then p \<lparr> pkt_lrh := (pkt_lrh p) \<lparr>
            lrh_slid := (if stale 32 = 0xFF \<and> stale 33 = 0xFF then PIB_LID_PERMISSIVE else lrh_slid (pkt_lrh p)),
            lrh_dlid := (if stale 34 = 0xFF \<and> stale 35 = 0xFF then PIB_LID_PERMISSIVE else lrh_dlid (pkt_lrh p)) \<rparr> \<rparr>
     else p)"

text \<open>The headers in front of the payload.\<close>

definition ud_headers :: "(nat \<Rightarrow> u8) \<Rightarrow> pib_send_wqe \<Rightarrow> ib_ah_attr \<Rightarrow> pib_dev \<Rightarrow> pib_qp \<Rightarrow> packet" where
  "ud_headers stale w ah d qp =
    (let with_imm = (swqe_opcode w = IB_WR_SEND_WITH_IMM);
         port_num = ah_port_num ah;
         p = open_packet d port_num ah \<lparr> bth_OpCode = (if with_imm then IB_OPCODE_UD_SEND_ONLY_WITH_IMMEDIATE
                 else IB_OPCODE_UD_SEND_ONLY),
               bth_se_m_padcnt_tver = 0,
               bth_pkey = port_pkey_table (port_of d port_num) ! unat (ud_pkey_index w),
               bth_destQP = ud_remote_qpn w, bth_psn = sq_psn (qp_attr qp) AND PIB_PSN_MASK \<rparr>;
         p = append_rest (deth_bytes \<lparr> deth_qkey = (if sint (ud_remote_qkey w) < 0 then attr_qkey (qp_attr qp)
                 else ud_remote_qkey w), deth_srcQP = qp_num qp \<rparr>) p;
         p = append_rest (if with_imm then bytes_be 4 (swqe_ex w) else []) p
     in correct_directed_route stale w p)"

text \<open>The checks in front of it; the result is the address handle's attributes.\<close>

definition ud_address :: "pib_send_wqe \<Rightarrow> pib_dev \<Rightarrow> pib_qp \<Rightarrow> ib_ah_attr option" where
  "ud_address w d qp =
    (if swqe_opcode w \<noteq> IB_WR_SEND \<and> swqe_opcode w \<noteq> IB_WR_SEND_WITH_IMM then None
     else (case ud_ah w of
         None \<Rightarrow> None
       | Some p \<Rightarrow>
         (let ah = ahs d p; port_num = ah_port_num (ib_ah_attr ah) in
          if PIB_PKEY_TABLE_LEN \<le> unat (ud_pkey_index w) then None
          else if qp_pd qp \<noteq> ah_pd ah then None
          else if port_num < 1 \<or> phys_port_cnt d < unat port_num then None
          else if qp_type qp = IB_QPT_UD \<and> attr_port_num (qp_attr qp) \<noteq> port_num then None
          else Some (ib_ah_attr ah))))"

definition ud_payload :: "pib_send_wqe \<Rightarrow> pib_dev \<times> pib_qp \<Rightarrow> ib_wc_status \<times> u8 list \<times> pib_dev" where
  "ud_payload w = (\<lambda>(d, qp).
    if all_packets (processing w) \<noteq> 1 then (IB_WC_LOC_LEN_ERR, [], d)
    else if swqe_total_length w = 0 then (IB_WC_SUCCESS, [], d)
    else if flag_set (swqe_send_flags w) IB_SEND_INLINE
    then (IB_WC_SUCCESS, read_inline d w 0 (unat (swqe_total_length w)), d)
    else pib_util_mr_copy_data d (qp_pd qp) (swqe_sge_array w) [] 0 (ucast (swqe_total_length w)) 0 PIB_MR_COPY_FROM)"

text \<open>The request leaves the sending list, of which it is the first, and is free.\<close>

definition leave_sending :: "pib_send_wqe \<Rightarrow> pib_qp \<Rightarrow> pib_send_wqe \<times> pib_qp" where
  "leave_sending w qp = (upd_pr (list_type_update (\<lambda>_. PIB_SWQE_FREE)) w,
    upd_req (\<lambda>r. r \<lparr> sending_swqe_head := tl (sending_swqe_head r), nr_sending_swqe := nr_sending_swqe r - 1 \<rparr>) qp)"

text \<open>\<open>None\<close> is the \<^verbatim>\<open>BUG_ON\<close> of a request that is not on the sending list.\<close>

definition ud_completion_error :: "ib_wc_status \<Rightarrow> pib_send_wqe \<Rightarrow> pib_dev \<times> pib_qp \<Rightarrow>
   (bool \<times> pib_send_wqe \<times> pib_dev \<times> pib_qp) option" where
  "ud_completion_error status w = (\<lambda>(d, qp).
    let qp = qp \<lparr> qp_state := IB_QPS_SQE \<rparr>;
        d = snd (pib_util_insert_wc_error (send_cq qp) qp (swqe_wr_id w) status (ib_wr_opcode_num (swqe_opcode w)) d)
    in if list_type (processing w) \<noteq> PIB_SWQE_SENDING then None
       else let (w, qp) = leave_sending w qp in Some (False, w, pib_util_flush_qp True (d, qp)))"

definition pib_process_ud_qp_request :: "(nat \<Rightarrow> u8) \<Rightarrow> pib_send_wqe \<Rightarrow> pib_dev \<times> pib_qp \<Rightarrow>
   (bool \<times> pib_send_wqe \<times> pib_dev \<times> pib_qp) option" where
  "pib_process_ud_qp_request stale w = (\<lambda>(d, qp).
    case ud_address w d qp of
      None \<Rightarrow> ud_completion_error IB_WC_LOC_QP_OP_ERR w (d, qp)
    | Some ah \<Rightarrow>
      (let p = ud_headers stale w ah d qp; (status, out, d) = ud_payload w (d, qp) in
       if status \<noteq> IB_WC_SUCCESS then ud_completion_error status w (d, qp)
       else
         let p = set_solicited w (set_packet_length (length (packet_bytes p) + unat (swqe_total_length w)) (append_rest out p));
             d = ready_packet (ah_port_num ah) (ah_dlid ah) qp (swqe_trace_id w) (write_buffer p d);
             qp = upd_attr (\<lambda>a. a \<lparr> sq_psn := sq_psn a + 1 \<rparr>) qp;
             (w, qp) = leave_sending w qp
         in Some (True, w, complete_send (pib_convert_wr_opcode_to_wc_opcode (swqe_opcode w)) w (d, qp))))"

section \<open>Receiving\<close>

definition ud_accepts :: "u8 \<Rightarrow> pib_packet_bth \<Rightarrow> u8 list \<Rightarrow> pib_qp \<Rightarrow> bool" where
  "ud_accepts port_num bth data qp \<longleftrightarrow>
    pib_is_recv_ok (qp_state qp) \<and>
    (bth_OpCode bth = IB_OPCODE_UD_SEND_ONLY \<or> bth_OpCode bth = IB_OPCODE_UD_SEND_ONLY_WITH_IMMEDIATE) \<and>
    \<not> flag_set (bth_psn bth) 0x80000000 \<and> \<not> length data < sizeof_deth \<and>
    \<not> (qp_type qp = IB_QPT_UD \<and> attr_port_num (qp_attr qp) \<noteq> port_num) \<and>
    (let qkey = deth_qkey (deth_of_bytes data) in
     qp_type qp = IB_QPT_SMI \<or>
     qkey = (if qp_type qp = IB_QPT_GSI then IB_QP1_QKEY else attr_qkey (qp_attr qp))) \<and>
    \<not> (bth_OpCode bth = IB_OPCODE_UD_SEND_ONLY_WITH_IMMEDIATE \<and> length (drop sizeof_deth data) < 4)"

text \<open>The receive entry for a datagram, off its list.\<close>

definition take_rwqe :: "pib_dev \<times> pib_qp \<Rightarrow> pib_recv_wqe option \<times> pib_dev \<times> pib_qp" where
  "take_rwqe = (\<lambda>(d, qp).
    case init_srq (qp_init_attr qp) of
      Some srq \<Rightarrow> (case pib_util_get_srq srq d of (w, d) \<Rightarrow> (w, d, qp))
    | None \<Rightarrow>
      (case rsp_recv_wqe_head (responder qp) of
         [] \<Rightarrow> (None, d, qp)
       | w # ws \<Rightarrow> (Some w, d, upd_rsp (\<lambda>r. r \<lparr> rsp_recv_wqe_head := ws, rsp_nr_recv_wqe := rsp_nr_recv_wqe r - 1 \<rparr>) qp)))"

text \<open>The copies: the global route header, if there is one, and the payload behind its room.\<close>

definition ud_copy :: "pib_recv_wqe \<Rightarrow> ib_grh option \<Rightarrow> u8 list \<Rightarrow> nat \<Rightarrow> pib_dev \<Rightarrow> ib_wc_status \<times> pib_dev" where
  "ud_copy w grh data pd d =
    (let (status, d) = (case grh of
           None \<Rightarrow> (IB_WC_SUCCESS, d)
         | Some g \<Rightarrow> (case pib_util_mr_copy_data d pd (rwqe_sge_array w) (grh_bytes g) 0 (of_nat sizeof_grh)
                        IB_ACCESS_LOCAL_WRITE PIB_MR_COPY_TO of (status, _, d) \<Rightarrow> (status, d)))
     in if status \<noteq> IB_WC_SUCCESS then (status, d)
        else (case pib_util_mr_copy_data d pd (rwqe_sge_array w) data (of_nat sizeof_grh) (of_nat (length data))
                IB_ACCESS_LOCAL_WRITE PIB_MR_COPY_TO of (status, _, d) \<Rightarrow> (status, d)))"

definition ud_receive_error :: "ib_wc_status \<Rightarrow> pib_recv_wqe \<Rightarrow> pib_dev \<times> pib_qp \<Rightarrow> pib_dev \<times> pib_qp" where
  "ud_receive_error status w = (\<lambda>(d, qp).
    if status = IB_WC_LOC_LEN_ERR
    then if init_srq (qp_init_attr qp) \<noteq> None
         then pib_util_free_recv_wqe w (snd (pib_util_insert_wc_error (send_cq qp) qp (rwqe_wr_id w)
                IB_WC_REM_ABORT_ERR IB_WC_RECV d), qp \<lparr> push_rcqe := True \<rparr>)
         else pib_util_free_recv_wqe w (d, qp)
    else
      let qp = qp \<lparr> qp_state := IB_QPS_ERR \<rparr>;
          d = snd (pib_util_insert_wc_error (send_cq qp) qp (rwqe_wr_id w) status IB_WC_RECV d);
          (d, qp) = pib_util_flush_qp False (d, qp)
      in pib_util_free_recv_wqe w (d, qp \<lparr> push_rcqe := True \<rparr>))"

definition pib_receive_ud_qp_incoming_message ::
  "u8 \<Rightarrow> pib_packet_lrh \<Rightarrow> ib_grh option \<Rightarrow> pib_packet_bth \<Rightarrow> u8 list \<Rightarrow> pib_dev \<times> pib_qp \<Rightarrow> pib_dev \<times> pib_qp" where
  "pib_receive_ud_qp_incoming_message port_num lrh grh bth data s =
    (if \<not> ud_accepts port_num bth data (snd s) then s
     else
       let deth = deth_of_bytes data; data = drop sizeof_deth data;
           with_imm = (bth_OpCode bth = IB_OPCODE_UD_SEND_ONLY_WITH_IMMEDIATE);
           imm = (if with_imm then word_be (take 4 data) else 0);
           data = (if with_imm then drop 4 data else data)
       in case take_rwqe s of
            (None, s) \<Rightarrow> s
          | (Some w, d, qp) \<Rightarrow>
            (if unat (rwqe_total_length w) < length data then pib_util_free_recv_wqe w (d, qp)
             else (case ud_copy w grh data (qp_pd qp) d of (status, d) \<Rightarrow>
               if status \<noteq> IB_WC_SUCCESS then ud_receive_error status w (d, qp)
               else
                 let d = snd (pib_util_insert_wc_success (recv_cq qp) qp
                       (zero_wc \<lparr> wc_wr_id := rwqe_wr_id w, wc_opcode := IB_WC_RECV,
                          wc_byte_len := of_nat (length data) + 40, wc_qp := qp_ptr qp, wc_ex := imm,
                          wc_src_qp := deth_srcQP deth AND PIB_QPN_MASK, wc_slid := lrh_slid lrh,
                          wc_flags := (if grh \<noteq> None then IB_WC_GRH else 0) OR (if with_imm then IB_WC_WITH_IMM else 0) \<rparr>)
                       (pib_packet_bth_get_padcnt bth \<noteq> 0) d);
                     qp = upd_attr (\<lambda>a. a \<lparr> rq_psn := rq_psn a + 1 \<rparr>) (qp \<lparr> push_rcqe := True \<rparr>)
                 in pib_util_free_recv_wqe w (d, qp))))"

end
