(* ===== verification/Pib_Thread.thy ===== *)
theory Pib_Thread
  imports Pib_UD
begin

text \<open>
  The kernel thread of a device, \<^verbatim>\<open>driver/pib_thread.c\<close>: what it does for the queue pair that is
  due first, for a packet from the socket, for the queued work, and with the packet in the
  send buffer.  The queue pair a handler works on is taken from the device and put back.

  The socket is an oracle: \<open>sendmsg_ok\<close> says for each call of \<^verbatim>\<open>kernel_sendmsg\<close> in turn whether
  it succeeds (behind its end every call does), and the packets that went out are in \<open>wire\<close>,
  each with the address it went to.

  The device lock is modelled as far as the thread uses it: \<open>held\<close> says that the thread still
  holds it.  Taking it again never ends.  So the handlers can stop for two reasons.
\<close>

datatype stop = Bug | Deadlock | Out_of_fuel

type_synonym thread_state = "bool \<times> pib_dev"

fun bug :: "'a option \<Rightarrow> stop + 'a" where
  "bug None = Inl Bug"
| "bug (Some x) = Inr x"

fun and_then :: "stop + 'a \<Rightarrow> ('a \<Rightarrow> stop + 'b) \<Rightarrow> stop + 'b" where
  "and_then (Inl e) f = Inl e"
| "and_then (Inr x) f = f x"

abbreviation put_qp :: "pib_qp \<Rightarrow> pib_dev \<Rightarrow> pib_dev" where
  "put_qp qp d \<equiv> d \<lparr> qps := (qps d)(qp_ptr qp := qp) \<rparr>"

abbreviation upd_port :: "u8 \<Rightarrow> (pib_port \<Rightarrow> pib_port) \<Rightarrow> pib_dev \<Rightarrow> pib_dev" where
  "upd_port port_num f d \<equiv> d \<lparr> ports := (ports d)[unat port_num - 1 := f (port_of d port_num)] \<rparr>"

section \<open>The packet in the send buffer\<close>

abbreviation (input) "PIB_PACKET_BUFFER \<equiv> (8192 :: nat)"
abbreviation (input) "sizeof_footer \<equiv> (8 :: nat)"

definition get_sockaddr_from_dlid :: "pib_dev \<Rightarrow> u8 \<Rightarrow> u32 \<Rightarrow> u16 \<Rightarrow> nat option" where
  "get_sockaddr_from_dlid d port_num src_qp_num dlid =
    (if multi_host_mode (module d) then Some (netd_sockaddr (module d))
     else
       let port = port_of d port_num;
           sockaddr = (if src_qp_num \<noteq> of_nat PIB_QP0
             then if dlid = 0 then Some (port_sockaddr port)
                  else if dlid = port_lid port then Some (port_sockaddr port)
                  else if dlid < PIB_MCAST_LID_BASE then lid_table d dlid else None
             else None)
       in if sockaddr \<noteq> None then sockaddr else easy_sw_sockaddr d)"

definition kernel_sendmsg :: "nat \<Rightarrow> packet \<Rightarrow> pib_dev \<Rightarrow> bool \<times> pib_dev" where
  "kernel_sendmsg sockaddr p d =
    (let (ok, d) = (case sendmsg_ok d of [] \<Rightarrow> (True, d) | b # bs \<Rightarrow> (b, d \<lparr> sendmsg_ok := bs \<rparr>))
     in (ok, if ok then d \<lparr> wire := wire d @ [(sockaddr, p)] \<rparr> else d))"

text \<open>Whether the port transmits for the source, by its state.\<close>

definition may_transmit :: "u8 \<Rightarrow> u32 \<Rightarrow> bool" where
  "may_transmit state src_qp_num =
    (if state = IB_PORT_DOWN then src_qp_num = of_nat PIB_LINK_QP
     else if state = IB_PORT_INIT \<or> state = IB_PORT_ARMED
     then src_qp_num = of_nat PIB_QP0 \<or> src_qp_num = of_nat PIB_LINK_QP
     else state = IB_PORT_ACTIVE)"

definition sent :: "pib_dev \<Rightarrow> pib_dev" where
  "sent d = d \<lparr> thread := (thread d) \<lparr> thread_trace_id := 0, ready_to_send := False \<rparr> \<rparr>"

definition count_xmit :: "u8 \<Rightarrow> nat \<Rightarrow> pib_dev \<Rightarrow> pib_dev" where
  "count_xmit port_num msg_size = upd_port port_num (\<lambda>p. p \<lparr> port_perf := (port_perf p) \<lparr>
     xmit_packets := xmit_packets (port_perf p) + 1, xmit_data := xmit_data (port_perf p) + of_nat msg_size \<rparr> \<rparr>)"

text \<open>A send buffer nothing was ever written to is zero, and so is its length.\<close>

definition transmit :: "packet \<Rightarrow> pib_dev \<Rightarrow> pib_dev" where
  "transmit p d =
    (let th = thread d; port_num = thread_port_num th; dlid = thread_dlid th;
         msg_size = unat (pib_packet_lrh_get_pktlen (pkt_lrh p)) * 4
     in if msg_size = 0 \<or> PIB_PACKET_BUFFER < msg_size then d
        else (case get_sockaddr_from_dlid d port_num (thread_src_qp_num th) dlid of
            None \<Rightarrow> sent d
          | Some sockaddr \<Rightarrow>
            (case kernel_sendmsg sockaddr p d of
               (False, d) \<Rightarrow> sent d
             | (True, d) \<Rightarrow>
               (let d = count_xmit port_num (msg_size + sizeof_footer) d in
                if pib_is_unicast_lid dlid then sent d
                else sent (snd (kernel_sendmsg (port_sockaddr (port_of d port_num)) p d))))))"

definition process_sendmsg :: "pib_dev \<Rightarrow> pib_dev" where
  "process_sendmsg d =
    (let th = thread d; src = thread_src_qp_num th in
     if src \<noteq> of_nat PIB_QP0 \<and> src \<noteq> of_nat PIB_LINK_QP \<and> (thread_slid th = 0 \<or> thread_dlid th = 0) then sent d
     else if \<not> may_transmit (port_state (port_of d (thread_port_num th))) src then d
     else (case send_buffer th of None \<Rightarrow> d | Some p \<Rightarrow> transmit p d))"

definition flush_send_buffer :: "pib_dev \<Rightarrow> pib_dev" where
  "flush_send_buffer d = (if ready_to_send (thread d) then process_sendmsg d else d)"

section \<open>The requester of the queue pair that is due\<close>

text \<open>\<open>None\<close> when no submitted request may start.\<close>

definition start_request :: "u64 \<Rightarrow> pib_qp \<Rightarrow> pib_send_wqe \<Rightarrow> pib_send_wqe" where
  "start_request now qp w =
    (let n = pib_get_num_of_packets (qp_type qp) (path_mtu (qp_attr qp)) (swqe_total_length w);
         psn = req_expected_psn (requester qp)
     in upd_pr (\<lambda>p. p \<lparr> list_type := PIB_SWQE_SENDING, based_psn := psn, pr_expected_psn := psn + n,
          all_packets := n, ack_packets := 0, sent_packets := 0, schedule_time := now,
          local_ack_time := now + PIB_SCHED_TIMEOUT,
          retry_cnt := int (unat (attr_retry_cnt (qp_attr qp))),
          rnr_retry := int (unat (attr_rnr_retry (qp_attr qp))) \<rparr>) w)"

definition blocked_by_fence :: "pib_qp \<Rightarrow> pib_send_wqe \<Rightarrow> bool" where
  "blocked_by_fence qp w \<longleftrightarrow> flag_set (swqe_send_flags w) IB_SEND_FENCE \<and>
     (0 < req_nr_rd_atomic (requester qp) \<or>
      swqe_opcode w = IB_WR_LOCAL_INV \<and>
        (0 < nr_sending_swqe (requester qp) \<or> 0 < nr_waiting_swqe (requester qp)))"

definition process_new_send_wr :: "u64 \<Rightarrow> pib_qp \<Rightarrow> pib_qp option" where
  "process_new_send_wr now qp =
    (if qp_state qp \<noteq> IB_QPS_RTS then None
     else (case submitted_swqe_head (requester qp) of
         [] \<Rightarrow> None
       | w # ws \<Rightarrow>
         if blocked_by_fence qp w then None
         else
           let rd = pib_is_wr_opcode_rd_atomic (swqe_opcode w) in
           if rd \<and> int (unat (req_max_rd_atomic (requester qp))) \<le> req_nr_rd_atomic (requester qp) then None
           else
             let started = start_request now qp w in
             Some (upd_req (\<lambda>r. r \<lparr>
               req_nr_rd_atomic := (if rd then req_nr_rd_atomic r + 1 else req_nr_rd_atomic r),
               submitted_swqe_head := ws, nr_submitted_swqe := nr_submitted_swqe r - 1,
               sending_swqe_head := sending_swqe_head r @ [started], nr_sending_swqe := nr_sending_swqe r + 1,
               req_expected_psn := req_expected_psn r + all_packets (processing started) \<rparr>) qp)))"

text \<open>A request whose failure had to wait for the requests in front of it.\<close>

definition send_wr_error :: "pib_send_wqe \<Rightarrow> pib_dev \<times> pib_qp \<Rightarrow> (bool \<times> pib_send_wqe \<times> pib_dev \<times> pib_qp) option" where
  "send_wr_error w = (\<lambda>(d, qp).
    let d = snd (pib_util_insert_wc_error (send_cq qp) qp (swqe_wr_id w) (pr_status (processing w))
              (ib_wr_opcode_num (swqe_opcode w)) d);
        (w, qp) = leave_sending w qp
    in if qp_type qp = IB_QPT_RC then Some (False, w, pib_util_flush_qp False (d, qp \<lparr> qp_state := IB_QPS_ERR \<rparr>))
       else if qp_type qp \<in> {IB_QPT_UD, IB_QPT_GSI, IB_QPT_SMI}
       then Some (False, w, pib_util_flush_qp True (d, qp \<lparr> qp_state := IB_QPS_SQE \<rparr>))
       else None)"

definition process_send_wr :: "(nat \<Rightarrow> u8) \<Rightarrow> pib_send_wqe \<Rightarrow> pib_dev \<times> pib_qp \<Rightarrow>
   (bool \<times> pib_send_wqe \<times> pib_dev \<times> pib_qp) option" where
  "process_send_wr stale w s =
    (if list_type (processing w) \<noteq> PIB_SWQE_SENDING then None
     else if pr_status (processing w) \<noteq> IB_WC_SUCCESS then send_wr_error w s
     else if qp_type (snd s) = IB_QPT_RC then pib_process_rc_qp_request w s
     else if qp_type (snd s) \<in> {IB_QPT_UD, IB_QPT_GSI, IB_QPT_SMI} then pib_process_ud_qp_request stale w s
     else None)"

text \<open>Where the entry goes afterwards.  One that is free is off its list already.\<close>

definition place_send_wqe :: "pib_send_wqe \<Rightarrow> pib_qp \<Rightarrow> pib_qp option" where
  "place_send_wqe w qp =
    (case list_type (processing w) of
       PIB_SWQE_FREE \<Rightarrow> Some (pib_util_free_send_wqe w qp)
     | PIB_SWQE_SENDING \<Rightarrow> Some (upd_req (sending_swqe_head_update (\<lambda>ws. w # tl ws)) qp)
     | PIB_SWQE_WAITING \<Rightarrow> Some (upd_req (\<lambda>r. r \<lparr> sending_swqe_head := tl (sending_swqe_head r),
         waiting_swqe_head := waiting_swqe_head r @ [w],
         nr_sending_swqe := nr_sending_swqe r - 1, nr_waiting_swqe := nr_waiting_swqe r + 1 \<rparr>) qp)
     | PIB_SWQE_SUBMITTED \<Rightarrow> None)"

definition send_first :: "(nat \<Rightarrow> u8) \<Rightarrow> u64 \<Rightarrow> pib_dev \<times> pib_qp \<Rightarrow> (pib_dev \<times> pib_qp) option" where
  "send_first stale now = (\<lambda>(d, qp).
    case sending_swqe_head (requester qp) of
      [] \<Rightarrow> Some (d, qp)
    | w # ws \<Rightarrow>
      if pr_status (processing w) \<noteq> IB_WC_SUCCESS \<and> waiting_swqe_head (requester qp) \<noteq> [] then Some (d, qp)
      else if PIB_MAX_CONTIG_REQUESTS < nr_contig_requests (requester qp) then Some (d, qp)
      else if time_after (schedule_time (processing w)) now then Some (d, qp)
      else (case process_send_wr stale (upd_pr (schedule_time_update (\<lambda>_. now)) w) (d, qp) of
          None \<Rightarrow> None
        | Some (_, w, d, qp) \<Rightarrow> map_option (Pair d) (place_send_wqe w qp)))"

text \<open>The label \<^verbatim>\<open>first_sending_wsqe\<close>.\<close>

definition first_sending :: "(nat \<Rightarrow> u8) \<Rightarrow> u64 \<Rightarrow> pib_dev \<times> pib_qp \<Rightarrow> (pib_dev \<times> pib_qp) option" where
  "first_sending stale now = (\<lambda>(d, qp).
    if sending_swqe_head (requester qp) \<noteq> [] then send_first stale now (d, qp)
    else (case process_new_send_wr (jiffies d) qp of
        None \<Rightarrow> Some (d, qp)
      | Some qp \<Rightarrow> send_first stale now (d, qp)))"

text \<open>
  A local operation at the head of the waiting list.  When it fails, the flush has already
  moved the entry to the free list, to the place behind the entries that were free before;
  unlinking and freeing it again moves it to the end.
\<close>

definition free_local_only :: "pib_send_wqe \<Rightarrow> pib_qp \<Rightarrow> pib_qp" where
  "free_local_only w = upd_req (\<lambda>r. r \<lparr> nr_waiting_swqe := nr_waiting_swqe r - 1,
     free_swqe_head := free_swqe_head r @ [upd_pr (list_type_update (\<lambda>_. PIB_SWQE_FREE)) w] \<rparr>)"

definition run_local_only :: "pib_send_wqe \<Rightarrow> pib_dev \<times> pib_qp \<Rightarrow> (pib_dev \<times> pib_qp) option" where
  "run_local_only w s =
    (case (if pib_get_behavior (fst s) PIB_BEHAVIOR_RELAXED_INVALIDATION_ORDERING then Some (True, w, s)
           else pib_process_local_only_request w s) of
       None \<Rightarrow> None
     | Some (ok, w, d, qp) \<Rightarrow>
       let qp = upd_req (waiting_swqe_head_update (\<lambda>ws. w # tl ws)) qp in
       if ok then Some (d, free_local_only w (upd_req (waiting_swqe_head_update tl) qp))
       else
         let d = snd (pib_util_insert_wc_error (send_cq qp) qp (swqe_wr_id w) (pr_status (processing w))
                   (ib_wr_opcode_num (swqe_opcode w)) d)
         in if qp_type qp \<noteq> IB_QPT_RC then None
            else
              let n = length (free_swqe_head (requester qp)); (d, qp) = enter_error (d, qp)
              in Some (d, free_local_only w (upd_req (free_swqe_head_update (\<lambda>ws. take n ws @ drop (Suc n) ws)) qp)))"

definition retry_waiting :: "u64 \<Rightarrow> pib_dev \<times> pib_qp \<Rightarrow> pib_dev \<times> pib_qp" where
  "retry_waiting now = (\<lambda>(d, qp).
    (d \<lparr> perf_local_ack_timeout := perf_local_ack_timeout d + 1 \<rparr>,
     back_to_sending (upd_req (waiting_swqe_head_update (\<lambda>ws.
       upd_pr (\<lambda>p. p \<lparr> retry_cnt := retry_cnt p - 1, local_ack_time := now + PIB_SCHED_TIMEOUT \<rparr>) (hd ws) # tl ws)) qp)))"

definition run_requester :: "(nat \<Rightarrow> u8) \<Rightarrow> u64 \<Rightarrow> pib_dev \<times> pib_qp \<Rightarrow> (pib_dev \<times> pib_qp) option" where
  "run_requester stale now = (\<lambda>(d, qp).
    if qp_state qp \<noteq> IB_QPS_RTS \<and> qp_state qp \<noteq> IB_QPS_SQD then Some (d, qp)
    else (case waiting_swqe_head (requester qp) of
        [] \<Rightarrow> first_sending stale now (d, qp)
      | w # _ \<Rightarrow>
        if local_only_request w then run_local_only w (d, qp)
        else if time_after (local_ack_time (processing w)) now then first_sending stale now (d, qp)
        else first_sending stale now (retry_waiting now (d, qp))))"

section \<open>One pass of the queue pair scheduler\<close>

text \<open>
  \<^verbatim>\<open>process_on_qp_scheduler\<close> from \<^verbatim>\<open>restart\<close> to the jump back to it: the flag is whether it jumps.
  \<open>stale\<close> is what the send buffer held before.
\<close>

definition run_qp :: "(nat \<Rightarrow> u8) \<Rightarrow> pib_dev \<times> pib_qp \<Rightarrow> (pib_dev \<times> pib_qp) option" where
  "run_qp stale s =
    (case (if qp_type (snd s) = IB_QPT_RC then pib_generate_rc_qp_acknowledge s else (False, s)) of
       (True, s) \<Rightarrow> Some s
     | (False, s) \<Rightarrow> run_requester stale (jiffies (fst s)) s)"

definition more_to_do :: "pib_dev \<Rightarrow> bool" where
  "more_to_do d \<longleftrightarrow> \<not> (thread_stop (thread d) \<or> thread_wq_schedule (thread d) \<or> thread_ready_to_recv (thread d)) \<and>
     \<not> time_after (wakeup_time d) (jiffies d)"

definition qp_scheduler_pass :: "(nat \<Rightarrow> u8) \<Rightarrow> thread_state \<Rightarrow> stop + (bool \<times> thread_state)" where
  "qp_scheduler_pass stale = (\<lambda>(held, d).
    if held then Inl Deadlock
    else (case pib_util_get_first_scheduling_qp d of
        None \<Rightarrow> Inr (False, False, d)
      | Some p \<Rightarrow>
        and_then (bug (run_qp stale (d, qps d p)))
          (\<lambda>s. let (d, qp) = pib_util_reschedule_qp s; d = flush_send_buffer (put_qp qp d)
               in Inr (more_to_do d, False, d))))"

section \<open>Incoming packets\<close>

text \<open>
  The checks on the destination.  A wrong partition key leaves the handler without giving the
  device lock back.
\<close>

definition lid_ok :: "pib_port \<Rightarrow> u16 \<Rightarrow> u32 \<Rightarrow> bool" where
  "lid_ok port dlid dest \<longleftrightarrow> dest = of_nat PIB_QP0 \<and> pib_is_permissive_lid dlid \<or> \<not> pib_is_unicast_lid dlid \<or>
     dlid = port_lid port"


definition pkey_ok :: "pib_port \<Rightarrow> pib_qp \<Rightarrow> u32 \<Rightarrow> u16 \<Rightarrow> bool" where
  "pkey_ok port qp dest pkey \<longleftrightarrow>
    (if dest = of_nat PIB_QP0 then True
     else if dest = of_nat PIB_QP1 then pkey \<in> set (take PIB_PKEY_TABLE_LEN (port_pkey_table port))
     else port_pkey_table port ! unat (attr_pkey_index (qp_attr qp)) = pkey)"

definition receive_on_qp :: "u8 \<Rightarrow> pib_packet_lrh \<Rightarrow> ib_grh option \<Rightarrow> pib_packet_bth \<Rightarrow> u8 list \<Rightarrow>
   pib_dev \<times> pib_qp \<Rightarrow> (pib_dev \<times> pib_qp) option" where
  "receive_on_qp port_num lrh grh bth data s =
    (if qp_type (snd s) = IB_QPT_RC then pib_receive_rc_qp_incoming_message port_num lrh bth data s
     else if qp_type (snd s) \<in> {IB_QPT_UD, IB_QPT_GSI, IB_QPT_SMI}
     then Some (pib_receive_ud_qp_incoming_message port_num lrh grh bth data s)
     else None)"

definition find_dest_qp :: "pib_dev \<Rightarrow> u8 \<Rightarrow> u32 \<Rightarrow> nat option" where
  "find_dest_qp d port_num dest =
    (if dest = of_nat PIB_QP0 \<or> dest = of_nat PIB_QP1 then port_qp_info (port_of d port_num) (unat dest)
     else pib_util_find_qp d dest)"

definition process_incoming_message_per_qp ::
  "u8 \<Rightarrow> u16 \<Rightarrow> u32 \<Rightarrow> pib_packet_lrh \<Rightarrow> ib_grh option \<Rightarrow> pib_packet_bth \<Rightarrow> u8 list \<Rightarrow> thread_state \<Rightarrow> stop + thread_state" where
  "process_incoming_message_per_qp port_num dlid dest lrh grh bth data = (\<lambda>(held, d).
    if held then Inl Deadlock
    else if dest = of_nat IB_MULTICAST_QPN then Inl Bug
    else (case find_dest_qp d port_num dest of
        None \<Rightarrow> Inr (False, upd_port port_num (\<lambda>p. p \<lparr> port_qkey_viol_cntr := port_qkey_viol_cntr p + 1 \<rparr>) d)
      | Some p \<Rightarrow>
        if \<not> lid_ok (port_of d port_num) dlid dest then Inr (False, d)
        else if \<not> pkey_ok (port_of d port_num) (qps d p) dest (bth_pkey bth)
        then Inr (True, upd_port port_num (\<lambda>p. p \<lparr> port_bad_pkey_cntr := port_bad_pkey_cntr p + 1 \<rparr>) d)
        else
          and_then (bug (receive_on_qp port_num lrh grh bth data (d, qps d p)))
            (\<lambda>s. let (d, qp) = pib_util_reschedule_qp s in Inr (False, flush_send_buffer (put_qp qp d)))))"

text \<open>A queue pair does not receive what it sent itself; \<open>own\<close> says that the packet came from this port.\<close>

fun deliver_multicast ::
  "bool \<Rightarrow> u32 list \<Rightarrow> u8 \<Rightarrow> u16 \<Rightarrow> u32 \<Rightarrow> pib_packet_lrh \<Rightarrow> ib_grh option \<Rightarrow> pib_packet_bth \<Rightarrow> u8 list \<Rightarrow>
   thread_state \<Rightarrow> stop + thread_state" where
  "deliver_multicast own [] port_num dlid src lrh grh bth data s = Inr s"
| "deliver_multicast own (n # ns) port_num dlid src lrh grh bth data s =
    (if own \<and> src = n then deliver_multicast own ns port_num dlid src lrh grh bth data s
     else and_then (process_incoming_message_per_qp port_num dlid n lrh grh bth data s)
       (deliver_multicast own ns port_num dlid src lrh grh bth data))"

text \<open>Where a packet goes whose headers and payload have been found.\<close>

definition may_receive :: "u8 \<Rightarrow> u32 \<Rightarrow> bool" where
  "may_receive state dest =
    (if state = IB_PORT_INIT \<or> state = IB_PORT_ARMED then dest = of_nat PIB_QP0
     else state = IB_PORT_ACTIVE)"

definition dispatch_packet :: "u8 \<Rightarrow> pib_packet_lrh \<Rightarrow> ib_grh option \<Rightarrow> pib_packet_bth \<Rightarrow> u8 list \<Rightarrow>
   thread_state \<Rightarrow> stop + thread_state" where
  "dispatch_packet port_num lrh grh bth data = (\<lambda>(held, d).
    let dlid = lrh_dlid lrh; dest = bth_destQP bth AND PIB_QPN_MASK in
    if \<not> may_receive (port_state (port_of d port_num)) dest then Inr (held, d)
    else if dest = of_nat PIB_QP0 \<or> dlid < PIB_MCAST_LID_BASE
    then process_incoming_message_per_qp port_num dlid dest lrh grh bth data (held, d)
    else if bth_OpCode bth \<noteq> IB_OPCODE_UD_SEND_ONLY \<and> bth_OpCode bth \<noteq> IB_OPCODE_UD_SEND_ONLY_WITH_IMMEDIATE
    then Inr (held, d)
    else if length data < sizeof_deth then Inr (held, d)
    else if held then Inl Deadlock
    else deliver_multicast (port_lid (port_of d port_num) = lrh_slid lrh) (map snd (mcast_table d dlid)) port_num dlid
           (deth_srcQP (deth_of_bytes data) AND PIB_QPN_MASK) lrh grh bth data (held, d))"

abbreviation (input) "PIB_LINK_CMD_CONNECT \<equiv> (1 :: u32)"
abbreviation (input) "PIB_LINK_CMD_DISCONNECT \<equiv> (3 :: u32)"
abbreviation (input) "PIB_LINK_CMD_CONNECT_ACK \<equiv> (2 :: u32)"
abbreviation (input) "PIB_LINK_CMD_DISCONNECT_ACK \<equiv> (4 :: u32)"
abbreviation (input) "PIB_LINK_SHUTDOWN \<equiv> (5 :: u32)"
abbreviation (input) "PIB_PHYS_PORT_POLLING \<equiv> (2 :: u8)"
abbreviation (input) "PIB_PHYS_PORT_LINK_UP \<equiv> (5 :: u8)"

definition process_raw_packet :: "u8 \<Rightarrow> u8 list \<Rightarrow> pib_dev \<Rightarrow> pib_dev" where
  "process_raw_packet port_num data d =
    (if length data \<noteq> 4 then d
     else
       let cmd = word_be data :: u32 in
       if cmd = PIB_LINK_CMD_CONNECT_ACK
       then upd_port port_num (\<lambda>p. p \<lparr> port_is_connected := True, port_phys_state := PIB_PHYS_PORT_LINK_UP,
              port_state := IB_PORT_INIT \<rparr>) d
       else if cmd = PIB_LINK_CMD_DISCONNECT_ACK \<or> cmd = PIB_LINK_SHUTDOWN
       then upd_port port_num (\<lambda>p. p \<lparr> port_is_connected := False, port_phys_state := PIB_PHYS_PORT_POLLING,
              port_state := IB_PORT_DOWN \<rparr>) d
       else d)"

text \<open>
  The packets to \<^verbatim>\<open>pibnetd\<close> that open and close the link of a port: a local header without a next one, and a command.
  They have no base transport header; the one of the model is not sent.  The link is tried again after a minute
  as long as the port is down.
\<close>

definition raw_link_packet :: "u32 \<Rightarrow> packet" where
  "raw_link_packet cmd =
    \<lparr> pkt_lrh = pib_packet_lrh_set_pktlen 3 \<lparr> lrh_dlid = PIB_LID_PERMISSIVE, lrh_vl_lver = 0, lrh_sl_rsv_lnh = 0,
         lrh_slid = PIB_LID_PERMISSIVE, lrh_pktlen = 0 \<rparr>,
       pkt_grh = None, pkt_bth = \<lparr> bth_OpCode = 0, bth_se_m_padcnt_tver = 0, bth_pkey = 0, bth_destQP = 0, bth_psn = 0 \<rparr>,
       pkt_rest = bytes_be 4 cmd \<rparr>"

definition send_raw_packet_to_pibnetd :: "u8 \<Rightarrow> bool \<Rightarrow> pib_dev \<Rightarrow> pib_dev" where
  "send_raw_packet_to_pibnetd port_num disconnect d = process_sendmsg (d \<lparr> thread := (thread d) \<lparr>
     send_buffer := Some (raw_link_packet (if disconnect then PIB_LINK_CMD_DISCONNECT else PIB_LINK_CMD_CONNECT)),
     thread_port_num := port_num, thread_src_qp_num := of_nat PIB_LINK_QP, thread_slid := PIB_LID_PERMISSIVE,
     thread_dlid := PIB_LID_PERMISSIVE, ready_to_send := True \<rparr> \<rparr>)"

definition connect_pibnetd :: "u8 \<Rightarrow> pib_dev \<Rightarrow> pib_dev" where
  "connect_pibnetd port_num d =
    (let d = send_raw_packet_to_pibnetd port_num False d
     in pib_queue_delayed_work (Netd_comm_work port_num) (of_nat (60 * kernel_HZ (module d))) d)"

definition disconnect_pibnetd :: "u8 \<Rightarrow> pib_dev \<Rightarrow> pib_dev" where
  "disconnect_pibnetd port_num d =
     upd_port port_num (\<lambda>p. p \<lparr> port_is_connected := False, port_phys_state := PIB_PHYS_PORT_POLLING,
       port_state := IB_PORT_DOWN \<rparr>) (send_raw_packet_to_pibnetd port_num True d)"

definition pib_netd_comm_handler :: "u8 \<Rightarrow> pib_dev \<Rightarrow> pib_dev" where
  "pib_netd_comm_handler port_num d =
    (if port_state (port_of d port_num) = IB_PORT_DOWN then connect_pibnetd port_num d else d)"

definition count_rcv :: "u8 \<Rightarrow> nat \<Rightarrow> pib_dev \<Rightarrow> pib_dev" where
  "count_rcv port_num packet_size = upd_port port_num (\<lambda>p. p \<lparr> port_perf := (port_perf p) \<lparr>
     rcv_packets := rcv_packets (port_perf p) + 1, rcv_data := rcv_data (port_perf p) + of_nat packet_size \<rparr> \<rparr>)"

definition process_incoming_message :: "u8 \<Rightarrow> u8 list \<Rightarrow> thread_state \<Rightarrow> stop + thread_state" where
  "process_incoming_message port_num buffer = (\<lambda>(held, d).
    if length buffer < sizeof_footer then Inr (held, d)
    else
      let size0 = length buffer - sizeof_footer; d = count_rcv port_num (length buffer) d in
      case pib_parse_packet_header buffer size0 of
        Inl _ \<Rightarrow> Inr (held, d)
      | Inr (header_size, lrh, grh, None) \<Rightarrow>
          Inr (held, process_raw_packet port_num (drop header_size (take size0 buffer)) d)
      | Inr (header_size, lrh, grh, Some bth) \<Rightarrow>
          (let tail = unat (pib_packet_bth_get_padcnt bth) + 4; payload = drop header_size (take size0 buffer) in
           if length payload < tail then Inr (held, d)
           else dispatch_packet port_num lrh grh bth (take (length payload - tail) payload) (held, d)))"

section \<open>The thread\<close>

text \<open>
  The queued work.  A handler can queue more, so the loop of \<^verbatim>\<open>process_on_wq_scheduler\<close> is over
  the device: \<open>n\<close> bounds its rounds, and \<open>None\<close> is that they did not suffice.
\<close>

fun run_work :: "pib_work \<Rightarrow> pib_dev \<Rightarrow> pib_dev" where
  "run_work (Cq_overflow_work cq) d = cq_overflow_handler cq d"
| "run_work (Srq_error_work srq) d = srq_error_handler srq d"
| "run_work (Netd_comm_work port_num) d = pib_netd_comm_handler port_num d"

fun process_on_wq_scheduler :: "nat \<Rightarrow> pib_dev \<Rightarrow> pib_dev option" where
  "process_on_wq_scheduler n d =
    (case wq_head d of
       [] \<Rightarrow> Some d
     | w # ws \<Rightarrow> (case n of 0 \<Rightarrow> None | Suc m \<Rightarrow> process_on_wq_scheduler m (run_work w (d \<lparr> wq_head := ws \<rparr>))))"

text \<open>
  The loop over the queue pairs that are due, with a bound on its rounds, and what the flags of the thread call for:
  to stop, the queued work, the packets of every port, the scheduler.  What the sockets return is an argument, a list for each port;
  the end of a list is an empty socket.
\<close>

fun process_on_qp_scheduler :: "nat \<Rightarrow> (nat \<Rightarrow> u8) \<Rightarrow> thread_state \<Rightarrow> stop + thread_state" where
  "process_on_qp_scheduler 0 stale s = Inl Out_of_fuel"
| "process_on_qp_scheduler (Suc n) stale s =
    and_then (qp_scheduler_pass stale s) (\<lambda>(again, s). if again then process_on_qp_scheduler n stale s else Inr s)"

datatype recv_result = Recv_bytes "u8 list" | Recv_intr | Recv_fail

abbreviation set_ready_to_recv :: "bool \<Rightarrow> pib_dev \<Rightarrow> pib_dev" where
  "set_ready_to_recv b d \<equiv> d \<lparr> thread := (thread d) \<lparr> thread_ready_to_recv := b \<rparr> \<rparr>"

fun receive_packets :: "u8 \<Rightarrow> recv_result list \<Rightarrow> thread_state \<Rightarrow> stop + recv_result list \<times> thread_state" where
  "receive_packets port_num [] s = Inr ([], s)"
| "receive_packets port_num (Recv_fail # rs) s = Inr (rs, s)"
| "receive_packets port_num (Recv_intr # rs) (held, d) = Inr (rs, held, set_ready_to_recv True d)"
| "receive_packets port_num (Recv_bytes b # rs) s =
    (if b = [] then Inr (rs, s)
     else and_then (process_incoming_message port_num (take PIB_PACKET_BUFFER b) s) (receive_packets port_num rs))"

fun receive_ports :: "u8 \<Rightarrow> recv_result list list \<Rightarrow> thread_state \<Rightarrow> stop + recv_result list list \<times> thread_state" where
  "receive_ports port_num [] s = Inr ([], s)"
| "receive_ports port_num (rs # rss) s =
    and_then (receive_packets port_num rs s)
      (\<lambda>(rs, s). and_then (receive_ports (port_num + 1) rss s) (\<lambda>(rss, s). Inr (rs # rss, s)))"

definition kthread_routine_iteration ::
    "nat \<Rightarrow> (nat \<Rightarrow> u8) \<Rightarrow> recv_result list list \<Rightarrow> thread_state \<Rightarrow> stop + recv_result list list \<times> thread_state" where
  "kthread_routine_iteration n stale rss = (\<lambda>(held, d).
    let th = thread d in
    if thread_stop th then Inr (rss, held, d \<lparr> thread := th \<lparr> thread_stop := False \<rparr> \<rparr>)
    else if thread_wq_schedule th
    then if held then Inl Deadlock
         else (case process_on_wq_scheduler n (d \<lparr> thread := th \<lparr> thread_wq_schedule := False \<rparr> \<rparr>) of
                 None \<Rightarrow> Inl Out_of_fuel
               | Some d \<Rightarrow> Inr (rss, held, d))
    else if thread_ready_to_recv th then receive_ports 1 rss (held, set_ready_to_recv False d)
    else if thread_qp_schedule th
    then and_then (process_on_qp_scheduler n stale (held, d \<lparr> thread := th \<lparr> thread_qp_schedule := False \<rparr> \<rparr>)) (\<lambda>s. Inr (rss, s))
    else Inr (rss, held, d))"

fun kthread_flags :: "nat \<Rightarrow> (nat \<Rightarrow> u8) \<Rightarrow> recv_result list list \<Rightarrow> thread_state \<Rightarrow> stop + recv_result list list \<times> thread_state" where
  "kthread_flags 0 stale rss s = Inl Out_of_fuel"
| "kthread_flags (Suc n) stale rss s =
    (let th = thread (snd s) in
     if \<not> (thread_stop th \<or> thread_wq_schedule th \<or> thread_ready_to_recv th \<or> thread_qp_schedule th) then Inr (rss, s)
     else and_then (kthread_routine_iteration n stale rss s) (\<lambda>(rss, s). kthread_flags n stale rss s))"

text \<open>How long the thread waits for its flags: until the next queue pair is due, a second at most.\<close>

definition kthread_wait :: "pib_dev \<Rightarrow> u64 \<times> pib_dev" where
  "kthread_wait d =
    (let HZ = of_nat (kernel_HZ (module d)) :: u64 in
     if time_after (wakeup_time d) (jiffies d) then (min HZ (wakeup_time d - jiffies d), d)
     else (HZ, d \<lparr> wakeup_time := jiffies d \<rparr>))"

definition kthread_round :: "nat \<Rightarrow> (nat \<Rightarrow> u8) \<Rightarrow> recv_result list list \<Rightarrow> thread_state \<Rightarrow> stop + recv_result list list \<times> thread_state" where
  "kthread_round n stale rss s =
    and_then (kthread_flags n stale rss s) (\<lambda>(rss, s). and_then (process_on_qp_scheduler n stale s) (\<lambda>s. Inr (rss, s)))"

text \<open>Where there is a \<^verbatim>\<open>pibnetd\<close>, the thread opens the links of all ports when it starts and closes them when it ends.\<close>

definition kthread_start :: "pib_dev \<Rightarrow> pib_dev" where
  "kthread_start d = (if multi_host_mode (module d) then fold (connect_pibnetd \<circ> of_nat) [1..<phys_port_cnt d + 1] d else d)"

definition kthread_end :: "pib_dev \<Rightarrow> pib_dev" where
  "kthread_end d = (if multi_host_mode (module d) then fold (disconnect_pibnetd \<circ> of_nat) [1..<phys_port_cnt d + 1] d else d)"

end
