(* ===== verification/Pib_Switch.thy ===== *)
theory Pib_Switch
  imports Pib_PMA Pib_Thread
begin

text \<open>
  The easy switch of single host mode, \<^verbatim>\<open>driver/pib_easy_sw.c\<close>: it has port 0 for management and one port per port of
  every adapter, answers the management packets for itself, passes directed routes on, and relays the rest
  by its forwarding tables.  Shown here: what is set in a forwarding table decides where a packet goes; a
  multicast packet goes once to every member but never back; an answer returns on the route the
  request came; and which packets stop the kernel.

  The adapters and the outcome of the socket's send are arguments.  \<open>Inl\<close> is a failed assertion of the code, an access
  outside an array, or a call that does not return.  The answers to management packets are built as in \<^verbatim>\<open>driver/pib_mad.c\<close>.
\<close>

section \<open>State\<close>

datatype sw_fault = Sw_bug | Sw_out_of_bounds | Sw_no_return

text \<open>The easy switch and \<^verbatim>\<open>pibnetd\<close> have the same tables; their ports differ in what they know of the other end.\<close>

record 'a switch_tables =
  sw_port_cnt :: u8
  sw_ports :: "'a mgmt_port_scheme list"
  sw_linear_fdb_top :: u16
  sw_default_port :: u8
  sw_default_mcast_primary_port :: u8
  sw_default_mcast_not_primary_port :: u8
  sw_life_time_value :: u8
  sw_port_state_change :: u8
  sw_ucast_fwd_table :: "u16 \<Rightarrow> u8"
  sw_mcast_fwd_table :: "nat \<Rightarrow> nat \<Rightarrow> u16"

record pib_easy_sw = "unit pib_port_ext switch_tables" +
  sw_ready_to_recv :: bool

abbreviation (input) "PIB_PORT_CAP_FLAGS \<equiv> (0x02010808 :: u32)"
abbreviation (input) "PIB_GID_PER_PORT \<equiv> (16 :: nat)"
abbreviation (input) "IB_DEFAULT_PKEY_FULL \<equiv> (0xFFFF :: u16)"

definition sw_port :: "u64 \<Rightarrow> u8 \<Rightarrow> pib_port" where
  "sw_port guid port_num = zero_port \<lparr> port_port_num := port_num, port_state := IB_PORT_INIT,
     port_max_mtu := IB_MTU_4096, port_active_mtu := IB_MTU_256, port_gid_tbl_len := PIB_GID_PER_PORT,
     port_port_cap_flags := PIB_PORT_CAP_FLAGS, port_max_msg_sz := ucast PIB_MAX_PAYLOAD_LEN, port_pkey_tbl_len := of_nat PIB_PKEY_TABLE_LEN,
     port_max_vl_num := 4, port_active_width := IB_WIDTH_12X, port_active_speed := IB_SPEED_QDR,
     port_phys_state := PIB_PHYS_PORT_LINK_UP,
     port_gid := (0xFE80000000000000, guid OR 0x0100) # replicate (PIB_GID_PER_PORT - 1) (0, 0),
     port_link_width_enabled := PIB_LINK_WIDTH_SUPPORTED, port_link_speed_enabled := PIB_LINK_SPEED_SUPPORTED,
     port_pkey_table := replicate PIB_PKEY_TABLE_LEN IB_DEFAULT_PKEY_FULL \<rparr>"

text \<open>
  Creation, when memory, the socket and the thread are available.  Without memory nothing is created, but the
  result is zero all the same.
\<close>

datatype sw_creation = No_ports | No_buffer | No_ucast_table | No_mcast_table | No_socket int | No_task int | All_available

definition pib_create_switch :: "u64 \<Rightarrow> nat \<Rightarrow> nat \<Rightarrow> sw_creation \<Rightarrow> int \<times> pib_easy_sw option" where
  "pib_create_switch guid num_hca ports_per_hca available =
    (case available of
       No_ports \<Rightarrow> (0, None) | No_buffer \<Rightarrow> (0, None) | No_ucast_table \<Rightarrow> (0, None) | No_mcast_table \<Rightarrow> (0, None)
     | No_socket ret \<Rightarrow> (ret, None) | No_task ret \<Rightarrow> (ret, None)
     | All_available \<Rightarrow>
         let cnt = of_nat (num_hca * ports_per_hca + 1)
         in (0, Some \<lparr> sw_port_cnt = cnt,
               sw_ports = map (\<lambda>n. sw_port guid (of_nat n)) [0..<unat cnt], sw_linear_fdb_top = 0, sw_default_port = 0,
               sw_default_mcast_primary_port = 0, sw_default_mcast_not_primary_port = 0, sw_life_time_value = 0,
               sw_port_state_change = 0, sw_ucast_fwd_table = (\<lambda>_. 0), sw_mcast_fwd_table = (\<lambda>_ _. 0),
               sw_ready_to_recv = False \<rparr>))"

section \<open>Management of the switch\<close>

type_synonym ('a, 'b) sw_answer = "(u32 \<times> ib_smp) \<times> ('a, 'b) switch_tables_scheme"

definition PIB_EASYSW_DESCRIPTION :: "u8 list" where
  "PIB_EASYSW_DESCRIPTION = map of_char ''Pseudo InfiniBand HCA easy switch''"

abbreviation (input) "RDMA_NODE_IB_SWITCH \<equiv> (2 :: u8)"

definition sw_get_nodedescription :: "ib_smp \<Rightarrow> u32 \<times> ib_smp" where
  "sw_get_nodedescription smp =
    (let smp = (if smp_attr_mod smp \<noteq> 0 then add_status PIB_SMP_INVALID_FIELD smp else smp)
     in reply (put_data (strncpy 64 PIB_EASYSW_DESCRIPTION) smp))"

definition sw_get_nodeinfo :: "u64 \<Rightarrow> ib_smp \<Rightarrow> ('a, 'b) switch_tables_scheme \<Rightarrow> u8 \<Rightarrow> u32 \<times> ib_smp" where
  "sw_get_nodeinfo guid smp sw in_port_num = reply (put_data (node_info_bytes \<lparr>
     ni_base_version = IB_MGMT_BASE_VERSION, ni_class_version = PIB_MGMT_CLASS_VERSION, ni_node_type = RDMA_NODE_IB_SWITCH,
     ni_node_ports = sw_port_cnt sw - 1, ni_sys_image_guid = guid OR 0x0200, ni_node_guid = guid OR 0x0100,
     ni_port_guid = guid OR 0x0100, ni_partition_cap = 1, ni_device_id = PIB_DRIVER_DEVICE_ID,
     ni_revision = PIB_DRIVER_REVISION, ni_local_port_num = in_port_num, ni_vendor_id = [0, 0, 0] \<rparr>) smp)"

definition sw_get_switchinfo :: "ib_smp \<Rightarrow> ('a, 'b) switch_tables_scheme \<Rightarrow> u32 \<times> ib_smp" where
  "sw_get_switchinfo smp sw = reply (put_data (switch_info_bytes \<lparr>
     si_linear_fdb_cap = 768, si_random_fdb_cap = 3072, si_multicast_fdb_cap = 256, si_linear_fdb_top = sw_linear_fdb_top sw,
     si_default_port = sw_default_port sw, si_default_mcast_primary_port = sw_default_mcast_primary_port sw,
     si_default_mcast_not_primary_port = sw_default_mcast_not_primary_port sw,
     si_various1 = push_bit 3 (sw_life_time_value sw) OR push_bit 2 (sw_port_state_change sw), si_lids_per_port = 1,
     si_partition_enforcement_cap = 0, si_various2 = 0 \<rparr>) smp)"

definition sw_set_switchinfo :: "ib_smp \<Rightarrow> ('a, 'b) switch_tables_scheme \<Rightarrow> ('a, 'b) sw_answer" where
  "sw_set_switchinfo smp sw =
    (let i = switch_info_of_bytes (smp_data smp)
     in (reply smp, sw \<lparr> sw_linear_fdb_top := si_linear_fdb_top i, sw_default_port := si_default_port i,
           sw_default_mcast_primary_port := si_default_mcast_primary_port i,
           sw_default_mcast_not_primary_port := si_default_mcast_not_primary_port i,
           sw_life_time_value := drop_bit 3 (si_various1 i) AND 0x1F,
           sw_port_state_change := (if drop_bit 2 (si_various1 i) AND 0x01 \<noteq> 0 then 0 else sw_port_state_change sw) \<rparr>))"

abbreviation sw_port_type :: "u32 \<Rightarrow> pib_port_type" where
  "sw_port_type port_num \<equiv> (if port_num \<noteq> 0 then PIB_PORT_SW_EXT else PIB_PORT_BASE_SP0)"

text \<open>The number of the port is taken from the packet as it is.\<close>

definition sw_get_portinfo :: "ib_smp \<Rightarrow> ('a, 'b) switch_tables_scheme \<Rightarrow> sw_fault + u32 \<times> ib_smp" where
  "sw_get_portinfo smp sw =
    (let port_num = smp_attr_mod smp in
     if length (sw_ports sw) \<le> unat port_num then Inl Sw_out_of_bounds
     else Inr (reply (pib_subn_get_portinfo smp (sw_ports sw ! unat port_num) (sw_port_type port_num))))"

definition sw_set_portinfo :: "ib_smp \<Rightarrow> ('a, 'b) switch_tables_scheme \<Rightarrow> sw_fault + ('a, 'b) sw_answer" where
  "sw_set_portinfo smp sw =
    (let port_num = smp_attr_mod smp; k = unat port_num in
     if length (sw_ports sw) \<le> k then Inl Sw_out_of_bounds
     else
       let port = pib_subn_set_portinfo smp (sw_ports sw ! k) (sw_port_type port_num);
           port = port \<lparr> port_phys_state := PIB_PHYS_PORT_LINK_UP \<rparr>;
           low = port_state port < IB_PORT_INIT;
           sw = (if low then sw \<lparr> sw_port_state_change := 1 \<rparr> else sw);
           port = (if low then port \<lparr> port_state := IB_PORT_INIT \<rparr> else port)
       in Inr (reply smp, sw \<lparr> sw_ports := (sw_ports sw)[k := port] \<rparr>))"

definition sw_pkey_index_ok :: "ib_smp \<Rightarrow> ('a, 'b) switch_tables_scheme \<Rightarrow> bool" where
  "sw_pkey_index_ok smp sw \<longleftrightarrow> smp_attr_mod smp AND 0xFFFF = 0 \<and> drop_bit 16 (smp_attr_mod smp) < ucast (sw_port_cnt sw)"

definition sw_get_pkey_table :: "ib_smp \<Rightarrow> ('a, 'b) switch_tables_scheme \<Rightarrow> u32 \<times> ib_smp" where
  "sw_get_pkey_table smp sw =
    (if \<not> sw_pkey_index_ok smp sw then reply (add_status PIB_SMP_INVALID_FIELD smp)
     else reply (put_data (pkeys_bytes (take PIB_PKEY_PER_BLOCK
       (port_pkey_table (sw_ports sw ! unat (drop_bit 16 (smp_attr_mod smp)))))) smp))"

definition sw_set_pkey_table :: "ib_smp \<Rightarrow> ('a, 'b) switch_tables_scheme \<Rightarrow> ('a, 'b) sw_answer" where
  "sw_set_pkey_table smp sw =
    (if \<not> sw_pkey_index_ok smp sw then (reply (add_status PIB_SMP_INVALID_FIELD smp), sw)
     else
       let k = unat (drop_bit 16 (smp_attr_mod smp)); port = sw_ports sw ! k;
           keys = pkeys_of_bytes (smp_data smp) @ drop PIB_PKEY_PER_BLOCK (port_pkey_table port)
       in (reply smp, sw \<lparr> sw_ports := (sw_ports sw)[k := port \<lparr> port_pkey_table := keys \<rparr>] \<rparr>))"

text \<open>The forwarding tables: 64 entries of the linear table, 16 of the random one, 32 masks of 16 ports of the multicast one.\<close>

definition sw_get_linear_forward_table :: "ib_smp \<Rightarrow> ('a, 'b) switch_tables_scheme \<Rightarrow> u32 \<times> ib_smp" where
  "sw_get_linear_forward_table smp sw =
    (let block = smp_attr_mod smp in
     if 767 < block then reply (add_status PIB_SMP_INVALID_FIELD smp)
     else reply (smp \<lparr> smp_data := map (\<lambda>i. if unat block * 64 + i \<le> unat (sw_linear_fdb_top sw)
            then sw_ucast_fwd_table sw (of_nat (unat block * 64 + i)) else smp_data smp ! i) [0..<64] \<rparr>))"

definition sw_set_linear_forward_table :: "ib_smp \<Rightarrow> ('a, 'b) switch_tables_scheme \<Rightarrow> ('a, 'b) sw_answer" where
  "sw_set_linear_forward_table smp sw =
    (let block = smp_attr_mod smp in
     if 767 < block then (reply (add_status PIB_SMP_INVALID_FIELD smp), sw)
     else (reply smp, sw \<lparr> sw_ucast_fwd_table := (\<lambda>lid. if unat lid div 64 = unat block then smp_data smp ! (unat lid mod 64)
             else sw_ucast_fwd_table sw lid) \<rparr>))"

fun sw_random_entries :: "u32 list \<Rightarrow> ('a, 'b) switch_tables_scheme \<Rightarrow> sw_fault + ('a, 'b) switch_tables_scheme" where
  "sw_random_entries [] sw = Inr sw"
| "sw_random_entries (v # vs) sw =
    (let dlid = ucast (drop_bit 16 v) :: u16;
         v = (if v AND 0xFF = 0xFF then v AND NOT 0x8000 else v)
     in if PIB_MCAST_LID_BASE \<le> dlid then Inl Sw_out_of_bounds
        else sw_random_entries vs (sw \<lparr> sw_ucast_fwd_table := (sw_ucast_fwd_table sw)
               (dlid := if flag_set v 0x8000 then ucast (v AND 0xFF) else sw_default_port sw) \<rparr>))"

definition sw_set_random_forward_table :: "ib_smp \<Rightarrow> ('a, 'b) switch_tables_scheme \<Rightarrow> sw_fault + ('a, 'b) sw_answer" where
  "sw_set_random_forward_table smp sw =
    (if 3071 < smp_attr_mod smp then Inr (reply (add_status PIB_SMP_INVALID_FIELD smp), sw)
     else map_sum id (\<lambda>sw. (reply smp, sw))
            (sw_random_entries (map (\<lambda>i. word_be (field_at (4 * i) 4 (smp_data smp))) [0..<16]) sw))"

definition sw_get_mcast_forward_table :: "ib_smp \<Rightarrow> ('a, 'b) switch_tables_scheme \<Rightarrow> u32 \<times> ib_smp" where
  "sw_get_mcast_forward_table smp sw =
    (let offset = unat (smp_attr_mod smp AND 0xFF) * 32; port_index = unat (drop_bit 28 (smp_attr_mod smp))
     in reply (put_data (pkeys_bytes (map (\<lambda>i. sw_mcast_fwd_table sw (offset + i) port_index) [0..<32])) smp))"

definition sw_set_mcast_forward_table :: "ib_smp \<Rightarrow> ('a, 'b) switch_tables_scheme \<Rightarrow> ('a, 'b) sw_answer" where
  "sw_set_mcast_forward_table smp sw =
    (let offset = unat (smp_attr_mod smp AND 0xFF) * 32; port_index = unat (drop_bit 28 (smp_attr_mod smp));
         masks = pkeys_of_bytes (smp_data smp)
     in (reply smp, sw \<lparr> sw_mcast_fwd_table := (\<lambda>l k. if offset \<le> l \<and> l < offset + 32 \<and> k = port_index
           then masks ! (l - offset) else sw_mcast_fwd_table sw l k) \<rparr>))"

definition sw_process_smp_get_method :: "u64 \<Rightarrow> ib_smp \<Rightarrow> ('a, 'b) switch_tables_scheme \<Rightarrow> u8 \<Rightarrow> sw_fault + u32 \<times> ib_smp" where
  "sw_process_smp_get_method guid smp sw in_port_num =
    (let smp = put_data [] smp; a = smp_attr_id smp in
     if a = IB_SMP_ATTR_NODE_DESC then Inr (sw_get_nodedescription smp)
     else if a = IB_SMP_ATTR_NODE_INFO then Inr (sw_get_nodeinfo guid smp sw in_port_num)
     else if a = IB_SMP_ATTR_SWITCH_INFO then Inr (sw_get_switchinfo smp sw)
     else if a = IB_SMP_ATTR_PORT_INFO then sw_get_portinfo smp sw
     else if a = IB_SMP_ATTR_PKEY_TABLE then Inr (sw_get_pkey_table smp sw)
     else if a = IB_SMP_ATTR_LINEAR_FORWARD_TABLE then Inr (sw_get_linear_forward_table smp sw)
     else if a = IB_SMP_ATTR_MCAST_FORWARD_TABLE then Inr (sw_get_mcast_forward_table smp sw)
     else if a \<in> {IB_SMP_ATTR_GUID_INFO, IB_SMP_ATTR_SL_TO_VL_TABLE, IB_SMP_ATTR_VL_ARB_TABLE, IB_SMP_ATTR_RANDOM_FORWARD_TABLE}
     then Inr (reply_failure smp)
     else Inr (reply (add_status PIB_SMP_UNSUP_METH_ATTR smp)))"

definition sw_process_smp_set_method :: "ib_smp \<Rightarrow> ('a, 'b) switch_tables_scheme \<Rightarrow> sw_fault + ('a, 'b) sw_answer" where
  "sw_process_smp_set_method smp sw =
    (let a = smp_attr_id smp in
     if a = IB_SMP_ATTR_SWITCH_INFO then Inr (sw_set_switchinfo smp sw)
     else if a = IB_SMP_ATTR_PORT_INFO then sw_set_portinfo smp sw
     else if a = IB_SMP_ATTR_PKEY_TABLE then Inr (sw_set_pkey_table smp sw)
     else if a = IB_SMP_ATTR_LINEAR_FORWARD_TABLE then Inr (sw_set_linear_forward_table smp sw)
     else if a = IB_SMP_ATTR_RANDOM_FORWARD_TABLE then sw_set_random_forward_table smp sw
     else if a = IB_SMP_ATTR_MCAST_FORWARD_TABLE then Inr (sw_set_mcast_forward_table smp sw)
     else if a \<in> {IB_SMP_ATTR_GUID_INFO, IB_SMP_ATTR_SL_TO_VL_TABLE, IB_SMP_ATTR_VL_ARB_TABLE} then Inr (reply_failure smp, sw)
     else Inr (reply (add_status PIB_SMP_UNSUP_METH_ATTR smp), sw))"

definition sw_process_smp :: "u64 \<Rightarrow> ib_smp \<Rightarrow> ('a, 'b) switch_tables_scheme \<Rightarrow> u8 \<Rightarrow> sw_fault + ('a, 'b) sw_answer" where
  "sw_process_smp guid smp sw in_port_num =
    (if smp_method smp = IB_MGMT_METHOD_GET
     then map_sum id (\<lambda>a. (a, sw)) (sw_process_smp_get_method guid smp sw in_port_num)
     else if smp_method smp = IB_MGMT_METHOD_SET
     then (case sw_process_smp_set_method smp sw of
             Inl f \<Rightarrow> Inl f
           | Inr ((ret, smp), sw) \<Rightarrow>
               if flag_set (smp_status smp) (NOT IB_SMP_DIRECTION) then Inr ((ret, smp), sw)
               else map_sum id (\<lambda>a. (a, sw)) (sw_process_smp_get_method guid smp sw in_port_num))
     else Inr (reply (add_status PIB_SMP_UNSUP_METHOD smp), sw))"

section \<open>Relaying\<close>

text \<open>
  What a received packet leads to: nothing, the packet as it is now out of one port, or relaying by one of the tables.
\<close>

datatype sw_action = Sw_drop | Sw_send u8 "u8 list" | Sw_ucast | Sw_mcast

definition put_at :: "nat \<Rightarrow> u8 list \<Rightarrow> u8 list \<Rightarrow> u8 list" where
  "put_at off bytes buf = take off buf @ bytes @ drop (off + length bytes) buf"

definition put_lids :: "u16 \<Rightarrow> u16 \<Rightarrow> u8 list \<Rightarrow> u8 list" where
  "put_lids dlid slid buf = put_at 0 (lrh_bytes ((lrh_of_bytes buf) \<lparr> lrh_dlid := dlid, lrh_slid := slid \<rparr>)) buf"

text \<open>
  Directed routes.  A request on its way takes the next port from its initial path and notes where it came from;
  at its last hop the switch answers; an answer takes its way back from the return path.
  A result of the agent is never a failure, since the bit for it is zero.
\<close>

definition sw_directed_route :: "u64 \<Rightarrow> nat \<Rightarrow> u8 list \<Rightarrow> u8 \<Rightarrow> pib_easy_sw \<Rightarrow> sw_fault + sw_action \<times> pib_easy_sw" where
  "sw_directed_route guid off buf in_num sw =
    (let smp = smp_of_bytes (drop off buf); hop_ptr = smp_hop_ptr smp; hop_cnt = smp_hop_cnt smp; k = unat hop_ptr in
     if smp_dr_slid smp \<noteq> IB_LID_PERMISSIVE \<or> smp_dr_dlid smp \<noteq> IB_LID_PERMISSIVE then Inr (Sw_drop, sw)
     else if smp_status smp AND IB_SMP_DIRECTION = 0
     then if hop_cnt = 0 \<or> hop_ptr = 0 \<or> hop_cnt < hop_ptr then Inr (Sw_drop, sw)
          else if PIB_SMP_MAX_PATH_HOPS \<le> k then Inl Sw_out_of_bounds
          else
            let smp = smp \<lparr> smp_return_path := (smp_return_path smp)[k := in_num] \<rparr> in
            if hop_ptr < hop_cnt
            then if PIB_SMP_MAX_PATH_HOPS \<le> k + 1 then Inl Sw_out_of_bounds
                 else Inr (Sw_send (smp_initial_path smp ! (k + 1)) (put_at off (smp_bytes (smp \<lparr> smp_hop_ptr := hop_ptr + 1 \<rparr>)) buf), sw)
            else (case sw_process_smp guid smp sw in_num of
                    Inl f \<Rightarrow> Inl f
                  | Inr ((_, smp), sw) \<Rightarrow>
                      Inr (Sw_send in_num (put_lids (lrh_slid (lrh_of_bytes buf)) IB_LID_PERMISSIVE
                             (put_at off (smp_bytes (smp \<lparr> smp_hop_ptr := smp_hop_ptr smp - 1 \<rparr>)) buf)), sw))
     else if hop_ptr = 0 then Inr (Sw_drop, sw)
     else if PIB_SMP_MAX_PATH_HOPS \<le> k - 1 then Inl Sw_out_of_bounds
     else Inr (Sw_send (smp_return_path smp ! (k - 1)) (put_at off (smp_bytes (smp \<lparr> smp_hop_ptr := hop_ptr - 1 \<rparr>)) buf), sw))"

text \<open>
  Packets to the two management queue pairs.  The agents of the switch answer where they should; the source address of
  the answer lacks its conversion to network order.
\<close>

definition sw_process_mad :: "u64 \<Rightarrow> u16 \<Rightarrow> nat \<Rightarrow> u8 list \<Rightarrow> nat \<Rightarrow> u8 \<Rightarrow> pib_easy_sw \<Rightarrow> sw_fault + sw_action \<times> pib_easy_sw" where
  "sw_process_mad guid dlid hdr buf len in_num sw =
    (if len - hdr < sizeof_deth + sizeof_smp then Inr (Sw_drop, sw)
     else
       let off = hdr + sizeof_deth; cls = buf ! (off + 1); slid = lrh_slid (lrh_of_bytes buf) in
       if cls = IB_MGMT_CLASS_SUBN_DIRECTED_ROUTE then sw_directed_route guid off buf in_num sw
       else if cls = IB_MGMT_CLASS_SUBN_LID_ROUTED
       then if dlid \<noteq> port_lid (sw_ports sw ! 0) then Inr (Sw_ucast, sw)
            else (case sw_process_smp guid (smp_of_bytes (drop off buf)) sw in_num of
                    Inl f \<Rightarrow> Inl f
                  | Inr ((_, smp), sw) \<Rightarrow> Inr (Sw_send in_num (put_lids slid (swab16 dlid) (put_at off (smp_bytes smp) buf)), sw))
       else if cls = IB_MGMT_CLASS_PERF_MGMT
       then (case pib_process_pma_mad \<lparr> node_port_count = sw_port_cnt sw, node_port_start = 0, node_ports = sw_ports sw \<rparr> in_num
                    (pma_of_bytes (drop off buf)) of
               None \<Rightarrow> Inl Sw_no_return
             | Some (_, p, node) \<Rightarrow> Inr (Sw_send in_num (put_lids slid (swab16 dlid) (put_at off (pma_bytes p) buf)),
                 sw \<lparr> sw_ports := node_ports node \<rparr>))
       else Inr (Sw_drop, sw))"

text \<open>
  The port of the adapter behind a port of the switch, and sending out of it.  A send that fails changes nothing.
  What was sent is listed with its address.
\<close>

record sw_env =
  env_devs :: "pib_dev list"
  env_phys_port_cnt :: nat
  env_hca_guid_base :: u64
  env_sendmsg :: "nat \<Rightarrow> u8 list \<Rightarrow> int"

definition sw_dest :: "sw_env \<Rightarrow> u8 \<Rightarrow> nat" where
  "sw_dest e out_port =
    (let k = unat out_port - 1
     in port_sockaddr (ports (env_devs e ! (k div env_phys_port_cnt e)) ! (k mod env_phys_port_cnt e)))"

abbreviation upd_sw_perf :: "u8 \<Rightarrow> (pib_port_perf \<Rightarrow> pib_port_perf) \<Rightarrow> pib_easy_sw \<Rightarrow> pib_easy_sw" where
  "upd_sw_perf n f sw \<equiv> sw \<lparr> sw_ports := (sw_ports sw)[unat n := (sw_ports sw ! unat n)
     \<lparr> port_perf := f (port_perf (sw_ports sw ! unat n)) \<rparr>] \<rparr>"

definition sw_transmit :: "sw_env \<Rightarrow> u8 \<Rightarrow> u8 list \<Rightarrow> pib_easy_sw \<Rightarrow> (nat \<times> u8 list) list \<times> pib_easy_sw" where
  "sw_transmit e out_port buf sw =
    (let ret = env_sendmsg e (sw_dest e out_port) buf in
     if 0 < ret then ([(sw_dest e out_port, buf)], upd_sw_perf out_port (\<lambda>p. p \<lparr> xmit_packets := xmit_packets p + 1,
         xmit_data := xmit_data p + of_int ret \<rparr>) sw)
     else ([], sw))"

definition sw_relay_ucast :: "sw_env \<Rightarrow> u16 \<Rightarrow> u8 list \<Rightarrow> pib_easy_sw \<Rightarrow> sw_fault + (nat \<times> u8 list) list \<times> pib_easy_sw" where
  "sw_relay_ucast e dlid buf sw =
    (if PIB_MCAST_LID_BASE \<le> dlid then Inl Sw_out_of_bounds
     else let out_port = sw_ucast_fwd_table sw dlid in
          if out_port = 0 \<or> sw_port_cnt sw \<le> out_port then Inr ([], sw) else Inr (sw_transmit e out_port buf sw))"

definition sw_member :: "pib_easy_sw \<Rightarrow> u16 \<Rightarrow> u8 \<Rightarrow> bool" where
  "sw_member sw dlid p \<longleftrightarrow>
     bit (sw_mcast_fwd_table sw (unat dlid - unat PIB_MCAST_LID_BASE) (unat p div 16)) (unat p mod 16)"

fun sw_relay_ports :: "sw_env \<Rightarrow> u8 \<Rightarrow> u16 \<Rightarrow> u8 list \<Rightarrow> u8 list \<Rightarrow> pib_easy_sw \<Rightarrow> (nat \<times> u8 list) list \<times> pib_easy_sw" where
  "sw_relay_ports e in_num dlid buf [] sw = ([], sw)"
| "sw_relay_ports e in_num dlid buf (p # ps) sw =
    (if in_num = p \<or> \<not> sw_member sw dlid p then sw_relay_ports e in_num dlid buf ps sw
     else let (out, sw) = sw_transmit e p buf sw; (outs, sw) = sw_relay_ports e in_num dlid buf ps sw in (out @ outs, sw))"

definition sw_relay_mcast :: "sw_env \<Rightarrow> u8 \<Rightarrow> u16 \<Rightarrow> u8 list \<Rightarrow> pib_easy_sw \<Rightarrow> sw_fault + (nat \<times> u8 list) list \<times> pib_easy_sw" where
  "sw_relay_mcast e in_num dlid buf sw =
    (if dlid < PIB_MCAST_LID_BASE \<and> 1 < sw_port_cnt sw then Inl Sw_out_of_bounds
     else Inr (sw_relay_ports e in_num dlid buf (map of_nat [1..<unat (sw_port_cnt sw)]) sw))"

definition get_sw_port_num :: "pib_easy_sw \<Rightarrow> u16 \<Rightarrow> u8" where
  "get_sw_port_num sw sin_port =
    (case find (\<lambda>n. port_to_udp_port (sw_ports sw ! n) \<noteq> 0 \<and> port_to_udp_port (sw_ports sw ! n) = sin_port)
       [1..<unat (sw_port_cnt sw)] of
       None \<Rightarrow> 0
     | Some n \<Rightarrow> of_nat n)"

definition sw_classify :: "sw_env \<Rightarrow> u16 \<Rightarrow> u32 \<Rightarrow> nat \<Rightarrow> u8 list \<Rightarrow> nat \<Rightarrow> u8 \<Rightarrow> pib_easy_sw \<Rightarrow> sw_fault + sw_action \<times> pib_easy_sw" where
  "sw_classify e dlid qpn hdr buf len in_num sw =
    (if flag_set qpn (NOT PIB_QPN_MASK) then Inr (Sw_drop, sw)
     else if qpn = of_nat PIB_QP0 \<or> qpn = of_nat PIB_QP1
     then sw_process_mad (env_hca_guid_base e) dlid hdr buf len in_num sw
     else if \<not> pib_is_permissive_lid dlid \<and> dlid \<noteq> port_lid (sw_ports sw ! 0)
     then Inr (if qpn = of_nat IB_MULTICAST_QPN \<or> \<not> pib_is_unicast_lid dlid then Sw_mcast else Sw_ucast, sw)
     else Inr (Sw_drop, sw))"

definition sw_perform :: "sw_env \<Rightarrow> sw_action \<Rightarrow> u16 \<Rightarrow> u8 \<Rightarrow> u8 list \<Rightarrow> pib_easy_sw \<Rightarrow> sw_fault + (nat \<times> u8 list) list \<times> pib_easy_sw" where
  "sw_perform e action dlid in_num buf sw =
    (case action of
       Sw_drop \<Rightarrow> Inr ([], sw)
     | Sw_send out_port buf \<Rightarrow>
         if out_port = 0 \<or> sw_port_cnt sw \<le> out_port then Inl Sw_bug else Inr (sw_transmit e out_port buf sw)
     | Sw_ucast \<Rightarrow> sw_relay_ucast e dlid buf sw
     | Sw_mcast \<Rightarrow> sw_relay_mcast e in_num dlid buf sw)"

text \<open>A message of the socket with the port number of its sender; a raw packet has no base header to read.\<close>

definition sw_process_incoming_message ::
    "sw_env \<Rightarrow> u16 \<Rightarrow> u8 list \<Rightarrow> pib_easy_sw \<Rightarrow> sw_fault + (nat \<times> u8 list) list \<times> pib_easy_sw" where
  "sw_process_incoming_message e sin_port buf sw =
    (if length buf < sizeof_footer then Inr ([], sw)
     else
       let len = length buf - sizeof_footer; in_num = get_sw_port_num sw sin_port in
       if in_num = 0 then Inr ([], sw)
       else
         let sw = upd_sw_perf in_num (\<lambda>p. p \<lparr> rcv_packets := rcv_packets p + 1, rcv_data := rcv_data p + of_nat len \<rparr>) sw
         in case pib_parse_packet_header buf len of
              Inl _ \<Rightarrow> Inr ([], sw)
            | Inr (_, _, _, None) \<Rightarrow> Inl Sw_out_of_bounds
            | Inr (hdr, lrh, _, Some bth) \<Rightarrow>
                (case sw_classify e (lrh_dlid lrh) (bth_destQP bth) hdr buf len in_num sw of
                   Inl f \<Rightarrow> Inl f
                 | Inr (action, sw) \<Rightarrow> sw_perform e action (lrh_dlid lrh) in_num buf sw))"

text \<open>
  The thread takes messages until the socket has none left.  A message without bytes ends a round too, and an
  interrupted call is repeated in the next one.  What does not fit into the buffer is cut off.
\<close>

datatype sw_recv = Recv_message u16 "u8 list" | Recv_interrupted | Recv_error

fun sw_receive_all :: "sw_env \<Rightarrow> sw_recv list \<Rightarrow> pib_easy_sw \<Rightarrow> sw_fault + (nat \<times> u8 list) list \<times> sw_recv list \<times> pib_easy_sw" where
  "sw_receive_all e [] sw = Inr ([], [], sw)"
| "sw_receive_all e (Recv_error # ms) sw = Inr ([], ms, sw)"
| "sw_receive_all e (Recv_interrupted # ms) sw = Inr ([], ms, sw \<lparr> sw_ready_to_recv := True \<rparr>)"
| "sw_receive_all e (Recv_message sin_port buf # ms) sw =
    (if buf = [] then Inr ([], ms, sw)
     else case sw_process_incoming_message e sin_port (take PIB_PACKET_BUFFER buf) sw of
       Inl f \<Rightarrow> Inl f
     | Inr (out, sw) \<Rightarrow> map_sum id (\<lambda>(outs, ms, sw). (out @ outs, ms, sw)) (sw_receive_all e ms sw))"

definition sw_kthread_iteration :: "sw_env \<Rightarrow> sw_recv list \<Rightarrow> pib_easy_sw \<Rightarrow> sw_fault + (nat \<times> u8 list) list \<times> sw_recv list \<times> pib_easy_sw" where
  "sw_kthread_iteration e ms sw =
    (if sw_ready_to_recv sw then sw_receive_all e ms (sw \<lparr> sw_ready_to_recv := False \<rparr>) else Inr ([], ms, sw))"

section \<open>Forwarding\<close>

text \<open>The packets that are read at all: the length of the headers, the destination and the queue pair.\<close>

definition sw_header :: "u8 list \<Rightarrow> (nat \<times> u16 \<times> u32) option" where
  "sw_header buf =
    (if length buf < sizeof_footer then None
     else case pib_parse_packet_header buf (length buf - sizeof_footer) of
       Inr (hdr, lrh, _, Some bth) \<Rightarrow> Some (hdr, lrh_dlid lrh, bth_destQP bth)
     | _ \<Rightarrow> None)"

abbreviation sw_received :: "u8 \<Rightarrow> u8 list \<Rightarrow> pib_easy_sw \<Rightarrow> pib_easy_sw" where
  "sw_received n buf \<equiv> upd_sw_perf n (\<lambda>p. p \<lparr> rcv_packets := rcv_packets p + 1,
     rcv_data := rcv_data p + of_nat (length buf - sizeof_footer) \<rparr>)"

lemma sw_process_incoming_message_header:
  assumes "sw_header buf = Some (hdr, dlid, qpn)" "get_sw_port_num sw sin_port = n" "n \<noteq> 0"
  shows "sw_process_incoming_message e sin_port buf sw =
    (case sw_classify e dlid qpn hdr buf (length buf - sizeof_footer) n (sw_received n buf sw) of
       Inl f \<Rightarrow> Inl f
     | Inr (action, sw) \<Rightarrow> sw_perform e action dlid n buf sw)"
  using assms
  by (auto simp: sw_header_def sw_process_incoming_message_def Let_def split: if_splits sum.splits option.splits prod.splits)

lemma port_lid_counted [simp]: "port_lid (xs[n := (xs ! n) \<lparr> port_perf := x \<rparr>] ! k) = port_lid (xs ! k)"
  by (cases "n < length xs") (simp_all add: nth_list_update list_update_beyond)

lemma set_linear_forward_table:
  assumes "sw_process_smp guid smp sw n = Inr ((ret, answer), sw')"
    and "smp_method smp = IB_MGMT_METHOD_SET" "smp_attr_id smp = IB_SMP_ATTR_LINEAR_FORWARD_TABLE" "smp_attr_mod smp \<le> 767"
    and "smp_status smp AND NOT IB_SMP_DIRECTION = 0"
  shows "sw' = sw \<lparr> sw_ucast_fwd_table := (\<lambda>lid. if unat lid div 64 = unat (smp_attr_mod smp) then smp_data smp ! (unat lid mod 64)
      else sw_ucast_fwd_table sw lid) \<rparr>"
    and "smp_data answer = map (\<lambda>i. if unat (smp_attr_mod smp) * 64 + i \<le> unat (sw_linear_fdb_top sw)
      then smp_data smp ! i else 0) [0..<64]"
proof -
  have st: "(smp_status smp OR IB_SMP_DIRECTION) AND NOT IB_SMP_DIRECTION = 0"
    using assms(5) by (simp add: bit.conj_disj_distrib2)
  have m: "\<not> 767 < smp_attr_mod smp" using assms(4) by (simp add: not_less)
  have i: "unat (of_nat (unat (smp_attr_mod smp) * 64 + i) :: u16) = unat (smp_attr_mod smp) * 64 + i" if "i < 64" for i
  proof -
    have "unat (smp_attr_mod smp) * 64 + i < 2 ^ 16" using assms(4) that by (simp add: word_le_nat_alt)
    then show ?thesis by (simp only: unat_of_nat take_bit_nat_eq_self len_of_numeral_defs) (simp add: take_bit_nat_eq_self)
  qed
  note r = assms(1) [unfolded sw_process_smp_def sw_process_smp_set_method_def sw_set_linear_forward_table_def]
  show "sw' = sw \<lparr> sw_ucast_fwd_table := (\<lambda>lid. if unat lid div 64 = unat (smp_attr_mod smp) then smp_data smp ! (unat lid mod 64)
      else sw_ucast_fwd_table sw lid) \<rparr>"
    using r assms(2,3,5) st m
    by (auto simp: reply_def sw_process_smp_get_method_def sw_get_linear_forward_table_def Let_def split: if_splits)
  show "smp_data answer = map (\<lambda>i. if unat (smp_attr_mod smp) * 64 + i \<le> unat (sw_linear_fdb_top sw)
      then smp_data smp ! i else 0) [0..<64]"
    using r assms(2,3,5) st m i
    by (auto simp: reply_def sw_process_smp_get_method_def sw_get_linear_forward_table_def overlay_def Let_def
        simp del: upt_rec_numeral of_nat_add of_nat_mult split: if_splits)
qed

text \<open>
  C12. The forwarding table.  After a block of the linear forwarding table was set, the answer shows the block up to the top of
  the table, and a packet for an address of the block, received from a known port and not meant for the switch,
  leaves unchanged through exactly the port that the block names.  It is dropped when the switch
  has no such port.
\<close>

theorem forwarding_table_routes:
  assumes "sw_process_smp guid smp sw n = Inr ((ret, answer), sw')"
    and "smp_method smp = IB_MGMT_METHOD_SET" "smp_attr_id smp = IB_SMP_ATTR_LINEAR_FORWARD_TABLE" "smp_attr_mod smp \<le> 767"
    and "smp_status smp AND NOT IB_SMP_DIRECTION = 0"
    and "sw_header buf = Some (hdr, dlid, qpn)" "get_sw_port_num sw sin_port \<noteq> 0"
    and "unat dlid div 64 = unat (smp_attr_mod smp)" "dlid \<noteq> port_lid (sw_ports sw ! 0)"
    and "qpn AND NOT PIB_QPN_MASK = 0" "qpn \<notin> {of_nat PIB_QP0, of_nat PIB_QP1, of_nat IB_MULTICAST_QPN}"
    and "dlid \<noteq> 0" "out = smp_data smp ! (unat dlid mod 64)" "0 < env_sendmsg e (sw_dest e out) buf"
  shows "smp_data answer = map (\<lambda>i. if unat (smp_attr_mod smp) * 64 + i \<le> unat (sw_linear_fdb_top sw)
      then smp_data smp ! i else 0) [0..<64] \<and>
    (\<exists>sw''. sw_process_incoming_message e sin_port buf sw' =
      Inr (if 0 < out \<and> out < sw_port_cnt sw then [(sw_dest e out, buf)] else [], sw''))"
proof
  note s = set_linear_forward_table [OF assms(1-5)]
  show "smp_data answer = map (\<lambda>i. if unat (smp_attr_mod smp) * 64 + i \<le> unat (sw_linear_fdb_top sw)
      then smp_data smp ! i else 0) [0..<64]" by (rule s(2))
  have g: "get_sw_port_num sw' sin_port = get_sw_port_num sw sin_port" by (simp add: s(1) get_sw_port_num_def)
  have "unat dlid div 64 \<le> 767" using assms(4,8) by (simp add: word_le_nat_alt)
  then have u: "\<not> PIB_MCAST_LID_BASE \<le> dlid" "dlid < PIB_MCAST_LID_BASE" by (simp_all add: word_le_nat_alt word_less_nat_alt)
  then have p: "\<not> pib_is_permissive_lid dlid" "pib_is_unicast_lid dlid"
    using assms(12) by (auto simp: pib_is_unicast_lid_def pib_is_permissive_lid_def)
  show "\<exists>sw''. sw_process_incoming_message e sin_port buf sw' =
      Inr (if 0 < out \<and> out < sw_port_cnt sw then [(sw_dest e out, buf)] else [], sw'')"
    using assms(7-14) u p
    by (simp add: sw_process_incoming_message_header [OF assms(6) g assms(7)] sw_classify_def)
      (auto simp: s(1) sw_perform_def sw_relay_ucast_def sw_transmit_def Let_def word_gt_0 not_le)
qed

section \<open>Multicast\<close>

lemma sw_transmit_ok:
  "0 < env_sendmsg e (sw_dest e p) buf \<Longrightarrow> \<exists>ps. sw_transmit e p buf sw = ([(sw_dest e p, buf)], sw \<lparr> sw_ports := ps \<rparr>)"
  by (auto simp: sw_transmit_def Let_def)

lemma sw_member_ports [simp]: "sw_member (sw \<lparr> sw_ports := ps \<rparr>) = sw_member sw"
  by (intro ext) (simp add: sw_member_def)

lemma sw_relay_ports_filter:
  assumes "\<forall>a. 0 < env_sendmsg e a buf"
  shows "\<exists>qs. sw_relay_ports e n dlid buf ps sw =
    (map (\<lambda>p. (sw_dest e p, buf)) [p \<leftarrow> ps. p \<noteq> n \<and> sw_member sw dlid p], sw \<lparr> sw_ports := qs \<rparr>)"
proof (induction ps arbitrary: sw)
  case Nil
  show ?case by (rule exI [of _ "sw_ports sw"]) simp
next
  case (Cons p ps)
  obtain rs where t: "sw_transmit e p buf sw = ([(sw_dest e p, buf)], sw \<lparr> sw_ports := rs \<rparr>)"
    using sw_transmit_ok assms by blast
  obtain qs where "sw_relay_ports e n dlid buf ps (sw \<lparr> sw_ports := rs \<rparr>) =
      (map (\<lambda>p. (sw_dest e p, buf)) [p \<leftarrow> ps. p \<noteq> n \<and> sw_member sw dlid p], sw \<lparr> sw_ports := qs \<rparr>)"
    using Cons.IH [of "sw \<lparr> sw_ports := rs \<rparr>"] by auto
  with Cons.IH [of sw] t show ?case by auto
qed

text \<open>
  C13. Multicast.  A packet for a multicast address, received from a known port, is sent unchanged to every port that the
  multicast table has for the address, once and in the order of the ports, except to the port it came from;
  the tables do not change.
\<close>

theorem multicast_reaches_members:
  assumes "sw_header buf = Some (hdr, dlid, qpn)" "get_sw_port_num sw sin_port = n" "n \<noteq> 0"
    and "PIB_MCAST_LID_BASE \<le> dlid" "dlid \<noteq> PIB_LID_PERMISSIVE" "dlid \<noteq> port_lid (sw_ports sw ! 0)"
    and "qpn AND NOT PIB_QPN_MASK = 0" "qpn \<noteq> of_nat PIB_QP0" "qpn \<noteq> of_nat PIB_QP1"
    and "\<forall>a. 0 < env_sendmsg e a buf"
  shows "\<exists>ps. sw_process_incoming_message e sin_port buf sw =
    Inr (map (\<lambda>p. (sw_dest e p, buf)) [p \<leftarrow> map of_nat [1..<unat (sw_port_cnt sw)]. p \<noteq> n \<and> sw_member sw dlid p],
      sw \<lparr> sw_ports := ps \<rparr>)"
proof -
  have d: "\<not> pib_is_permissive_lid dlid" "\<not> pib_is_unicast_lid dlid" "\<not> dlid < PIB_MCAST_LID_BASE"
    using assms(4,5) by (auto simp: pib_is_permissive_lid_def pib_is_unicast_lid_def)
  obtain qs where "sw_relay_ports e n dlid buf (map of_nat [1..<unat (sw_port_cnt sw)]) (sw_received n buf sw) =
      (map (\<lambda>p. (sw_dest e p, buf)) [p \<leftarrow> map of_nat [1..<unat (sw_port_cnt sw)]. p \<noteq> n \<and> sw_member (sw_received n buf sw) dlid p],
       sw_received n buf sw \<lparr> sw_ports := qs \<rparr>)"
    using sw_relay_ports_filter [OF assms(10)] by blast
  then show ?thesis
    using assms d
    by (simp add: sw_process_incoming_message_header [OF assms(1-3)] sw_classify_def sw_perform_def sw_relay_mcast_def) blast
qed

section \<open>Directed routes\<close>

text \<open>An answer of the agent of an adapter keeps the route, and on a directed route it is marked as an answer.\<close>

definition answers :: "ib_smp \<Rightarrow> u32 \<times> ib_smp \<Rightarrow> bool" where
  "answers smp r \<longleftrightarrow> smp_mgmt_class (snd r) = smp_mgmt_class smp \<and> smp_dr_slid (snd r) = smp_dr_slid smp \<and>
     smp_dr_dlid (snd r) = smp_dr_dlid smp \<and> smp_return_path (snd r) = smp_return_path smp \<and> smp_hop_ptr (snd r) = smp_hop_ptr smp \<and>
     (flag_set (fst r) IB_MAD_RESULT_REPLY \<longrightarrow> smp_mgmt_class smp = IB_MGMT_CLASS_SUBN_DIRECTED_ROUTE \<longrightarrow>
        flag_set (smp_status (snd r)) IB_SMP_DIRECTION)"

lemma direction_or [simp]: "flag_set (s OR IB_SMP_DIRECTION) IB_SMP_DIRECTION"
proof -
  have "bit ((s OR 0x8000) AND 0x8000) 15" by (simp add: bit_simps)
  then show ?thesis by (metis bit_0_eq bot_apply bot_bool_def)
qed

lemma answers_reply [simp]:
  "answers smp (reply smp')" "answers smp (reply_failure smp')"
  if "smp_mgmt_class smp' = smp_mgmt_class smp" "smp_dr_slid smp' = smp_dr_slid smp" "smp_dr_dlid smp' = smp_dr_dlid smp"
    "smp_return_path smp' = smp_return_path smp" "smp_hop_ptr smp' = smp_hop_ptr smp"
  using that by (simp_all add: answers_def reply_def reply_failure_def)

lemma answers_sm_info: "answers smp (subn_sm_info smp d n)"
  unfolding subn_sm_info_def Let_def by (auto simp: answers_def reply_def)

lemma answers_get: "answers smp (process_subn_get_method smp d n)"
  by (simp add: process_subn_get_method_def answers_sm_info subn_get_nodedescription_def subn_get_nodeinfo_def
      subn_get_guidinfo_def subn_get_portinfo_def pib_subn_get_portinfo_def subn_get_pkey_table_def Let_def)

lemma answers_set: "answers smp (fst (process_subn_set_method smp d n))"
  by (simp add: process_subn_set_method_def answers_sm_info subn_set_portinfo_def subn_set_pkey_table_def Let_def)

lemma answers_trans:
  "answers smp (ret, smp') \<Longrightarrow> answers smp' r \<Longrightarrow> answers smp r"
  by (simp add: answers_def)

lemma process_subn_answers:
  assumes "process_subn n smp d = Some (ret, smp', d')" "smp_base_version smp = IB_MGMT_BASE_VERSION"
  shows "\<exists>smp0. answers smp (ret, smp0) \<and>
    smp' = smp0 \<lparr> smp_return_path := (smp_return_path smp)[unat (smp_hop_ptr smp) + 1 := n] \<rparr>"
proof -
  obtain r s e where set: "process_subn_set_method smp d n = ((r, s), e)" by (metis prod.exhaust)
  have a: "answers smp (r, s)" using answers_set [of smp d n] by (simp add: set)
  obtain r2 s2 where get2: "process_subn_get_method s e n = (r2, s2)" by (rule prod.exhaust)
  have b: "answers smp (r2, s2)" using answers_trans [OF a answers_get [of s e n]] by (simp add: get2)
  obtain r1 s1 where get: "process_subn_get_method smp d n = (r1, s1)" by (rule prod.exhaust)
  have c: "answers smp (r1, s1)" using answers_get [of smp d n] by (simp add: get)
  obtain r3 s3 where rep: "reply (add_status PIB_SMP_UNSUP_METHOD smp) = (r3, s3)" by (rule prod.exhaust)
  have e: "answers smp (r3, s3)" using answers_reply(1) [of "add_status PIB_SMP_UNSUP_METHOD smp" smp] by (simp add: rep)
  have f: "answers smp (IB_MAD_RESULT_SUCCESS, smp)" by (simp add: answers_def)
  show ?thesis
    using assms a b c e f
    by (auto simp: process_subn_def set get get2 rep Let_def answers_def split: if_splits)
qed

lemma smp_ok_of_bytes: "sizeof_smp \<le> length b \<Longrightarrow> smp_ok (smp_of_bytes b)"
  by (simp add: smp_ok_def smp_of_bytes_def field_at_def sizeof_smp_def)

lemma smp_of_bytes_put_at:
  "off \<le> length buf \<Longrightarrow> smp_ok s \<Longrightarrow> smp_of_bytes (drop off (put_at off (smp_bytes s) buf)) = s"
  by (simp add: put_at_def smp_of_bytes_append)

text \<open>
  C14. Directed routes.  A request that the switch passes on leaves through the port that its initial path names
  next.  When the agent of an adapter answers it, the answer reaches the switch with the hop that the request left with,
  and is sent to the port that the request came from, one hop back.  The stack of the adapter may
  have counted further hops in between.
\<close>

theorem directed_answer_returns:
  assumes "sw_directed_route guid off buf in_num sw = Inr (Sw_send out buf', sw')" "off + sizeof_smp \<le> length buf"
    and "smp = smp_of_bytes (drop off buf)" "smp_base_version smp = IB_MGMT_BASE_VERSION"
    and "smp_mgmt_class smp = IB_MGMT_CLASS_SUBN_DIRECTED_ROUTE" "smp_status smp AND IB_SMP_DIRECTION = 0"
    and "smp_hop_ptr smp < smp_hop_cnt smp" "request = smp_of_bytes (drop off buf')" "smp_hop_ptr request \<le> h"
    and "process_subn n (request \<lparr> smp_hop_ptr := h \<rparr>) d = Some (ret, answer, d')" "flag_set ret IB_MAD_RESULT_REPLY"
    and "smp_of_bytes (drop off2 buf2) = answer \<lparr> smp_hop_ptr := smp_hop_ptr request \<rparr>" "off2 + sizeof_smp \<le> length buf2"
  shows "out = smp_initial_path smp ! (unat (smp_hop_ptr smp) + 1) \<and>
    (\<exists>buf3. sw_directed_route guid off2 buf2 out2 sw2 = Inr (Sw_send in_num buf3, sw2) \<and>
       smp_hop_ptr (smp_of_bytes (drop off2 buf3)) = smp_hop_ptr smp)"
proof -
  let ?k = "unat (smp_hop_ptr smp)" and ?r = "smp_return_path smp"
  let ?req = "smp \<lparr> smp_return_path := ?r[?k := in_num], smp_hop_ptr := smp_hop_ptr smp + 1 \<rparr>"
  have ok: "smp_ok smp" using assms(2,3) smp_ok_of_bytes [of "drop off buf"] by simp
  have f: "smp_dr_slid smp = IB_LID_PERMISSIVE" "smp_dr_dlid smp = IB_LID_PERMISSIVE" "?k + 1 < PIB_SMP_MAX_PATH_HOPS"
      "out = smp_initial_path smp ! (?k + 1)" "buf' = put_at off (smp_bytes ?req) buf"
    using assms(1,3,6,7) by (auto simp: sw_directed_route_def Let_def split: if_splits sum.splits prod.splits)
  have req: "request = ?req"
    unfolding assms(8) f(5) using assms(2) ok by (intro smp_of_bytes_put_at) (auto simp: smp_ok_def)
  have k: "unat (smp_hop_ptr smp + 1) = ?k + 1" using f(3) by (simp add: unat_word_ariths)
  then have h: "?k + 1 \<le> unat h" using assms(9) by (simp add: req word_le_nat_alt)
  obtain a where a: "answers (?req \<lparr> smp_hop_ptr := h \<rparr>) (ret, a)"
      "answer = a \<lparr> smp_return_path := (?r[?k := in_num])[unat h + 1 := n] \<rparr>"
    using process_subn_answers [OF assms(10)] assms(4) by (auto simp: req)
  have ans: "smp_dr_slid answer = IB_LID_PERMISSIVE" "smp_dr_dlid answer = IB_LID_PERMISSIVE"
      "flag_set (smp_status answer) IB_SMP_DIRECTION" "smp_return_path answer ! ?k = in_num"
    using a assms(5,11) f(1-3) h ok by (auto simp: answers_def smp_ok_def)
  let ?b = "put_at off2 (smp_bytes (answer \<lparr> smp_hop_ptr := smp_hop_ptr smp \<rparr>)) buf2"
  have "smp_hop_ptr smp + 1 \<noteq> 0" using k by (metis add_eq_0_iff_both_eq_0 unsigned_0 zero_neq_one)
  then have s: "sw_directed_route guid off2 buf2 out2 sw2 = Inr (Sw_send in_num ?b, sw2)"
    using ans f(3) k by (simp add: sw_directed_route_def assms(12) req Let_def)
  have "smp_ok (answer \<lparr> smp_hop_ptr := smp_hop_ptr smp \<rparr>)"
    using smp_ok_of_bytes [of "drop off2 buf2"] assms(12,13) by (simp add: smp_ok_def)
  then show ?thesis
    using f(4) s assms(13) by (intro conjI exI [of _ ?b]) (simp_all add: smp_of_bytes_put_at)
qed

text \<open>
  C27. A path that leads nowhere.  A directed request that names, as its next port, port 0 or a port the switch does not have
  fails an assertion, which stops the kernel; the path is data of the packet.
\<close>

theorem bad_path_stops_the_switch:
  assumes "sw_header buf = Some (hdr, dlid, of_nat PIB_QP0)" "get_sw_port_num sw sin_port = n" "n \<noteq> 0"
    and "hdr + sizeof_deth + sizeof_smp \<le> length buf - sizeof_footer" "smp = smp_of_bytes (drop (hdr + sizeof_deth) buf)"
    and "smp_mgmt_class smp = IB_MGMT_CLASS_SUBN_DIRECTED_ROUTE" "smp_status smp AND IB_SMP_DIRECTION = 0"
    and "smp_dr_slid smp = IB_LID_PERMISSIVE" "smp_dr_dlid smp = IB_LID_PERMISSIVE"
    and "0 < smp_hop_ptr smp" "smp_hop_ptr smp < smp_hop_cnt smp" "unat (smp_hop_ptr smp) + 1 < PIB_SMP_MAX_PATH_HOPS"
    and "out = smp_initial_path smp ! (unat (smp_hop_ptr smp) + 1)" "out = 0 \<or> sw_port_cnt sw \<le> out"
  shows "sw_process_incoming_message e sin_port buf sw = Inl Sw_bug"
proof -
  let ?off = "hdr + sizeof_deth" and ?sw = "sw_received n buf sw"
  have "buf ! (?off + 1) = IB_MGMT_CLASS_SUBN_DIRECTED_ROUTE"
    using assms(4-6) by (simp add: smp_of_bytes_def)
  moreover have "\<not> length buf - sizeof_footer - hdr < sizeof_deth + sizeof_smp" using assms(4) by simp
  moreover have "smp_hop_cnt smp \<noteq> 0" "smp_hop_ptr smp \<noteq> 0" "\<not> smp_hop_cnt smp < smp_hop_ptr smp"
    using assms(10,11) by auto
  then have "\<exists>buf'. sw_directed_route guid ?off buf n sw' = Inr (Sw_send out buf', sw')" for guid sw'
    using assms(7-13) by (simp add: sw_directed_route_def assms(5) [symmetric] Let_def)
  then obtain buf' where "sw_directed_route (env_hca_guid_base e) ?off buf n ?sw = Inr (Sw_send out buf', ?sw)" by blast
  ultimately show ?thesis
    using assms(14)
    by (auto simp: sw_process_incoming_message_header [OF assms(1-3)] sw_classify_def sw_process_mad_def sw_perform_def Let_def)
qed

section \<open>Examples\<close>

definition example_env :: sw_env where
  "example_env = \<lparr> env_devs = [example_attr_dev], env_phys_port_cnt = 2, env_hca_guid_base = 0, env_sendmsg = (\<lambda>_ b. int (length b) + 1) \<rparr>"

definition example_sw :: pib_easy_sw where
  "example_sw =
    (let sw = the (snd (pib_create_switch 0 1 2 All_available))
     in sw \<lparr> sw_ports := map (\<lambda>p. p \<lparr> port_to_udp_port := 7000 + ucast (port_port_num p) \<rparr>) (sw_ports sw),
             sw_linear_fdb_top := 63, sw_mcast_fwd_table := (\<lambda>l k. if l = 1 \<and> k = 0 then 6 else 0) \<rparr>)"

text \<open>A packet without a global header, with its footer.\<close>

definition example_msg :: "u16 \<Rightarrow> u32 \<Rightarrow> u8 list \<Rightarrow> u8 list" where
  "example_msg dlid qpn rest =
     lrh_bytes \<lparr> lrh_dlid = dlid, lrh_vl_lver = 0, lrh_sl_rsv_lnh = 2, lrh_slid = 1, lrh_pktlen = of_nat ((20 + length rest) div 4) \<rparr> @
     bth_bytes \<lparr> bth_OpCode = IB_OPCODE_UD_SEND_ONLY, bth_se_m_padcnt_tver = 0, bth_pkey = 0xFFFF, bth_destQP = qpn, bth_psn = 0 \<rparr> @
     rest @ replicate 8 0"

lemma sw_header_example:
  "length rest mod 4 = 0 \<Longrightarrow> length rest < 2048 \<Longrightarrow> sw_header (example_msg dlid qpn rest) = Some (20, dlid, qpn)"
proof -
  assume r: "length rest mod 4 = 0" "length rest < 2048"
  let ?n = "(20 + length rest) div 4"
  have "(of_nat ?n :: u16) AND 0x7FF = take_bit 11 (of_nat ?n)" by (simp add: take_bit_eq_mask mask_eq_exp_minus_1)
  moreover have "unat (take_bit 11 (of_nat ?n :: u16)) = ?n"
    using r by (simp only: unsigned_take_bit_eq unat_of_nat) (simp add: take_bit_nat_eq_self)
  ultimately have "unat ((of_nat ?n :: u16) AND 0x7FF) * 4 = 20 + length rest" using r by presburger
  then show "sw_header (example_msg dlid qpn rest) = Some (20, dlid, qpn)"
    by (simp add: sw_header_def example_msg_def pib_parse_packet_header_def pib_packet_lrh_get_pktlen_def Let_def)
qed

lemma example_port_num: "get_sw_port_num example_sw 7001 = 1" "port_lid (sw_ports example_sw ! 0) = 0" "sw_port_cnt example_sw = 3"
  by (simp_all add: get_sw_port_num_def example_sw_def pib_create_switch_def sw_port_def zero_port_def mgmt_port.defs
      zero_mgmt_port_def Let_def upt_rec)

definition example_directed :: "u8 list \<Rightarrow> ib_smp" where
  "example_directed path = example_smp \<lparr> smp_mgmt_class := IB_MGMT_CLASS_SUBN_DIRECTED_ROUTE, smp_method := IB_MGMT_METHOD_GET,
     smp_attr_id := IB_SMP_ATTR_NODE_DESC, smp_attr_mod := 0, smp_hop_ptr := 1, smp_hop_cnt := 2, smp_dr_slid := 0xFFFF, smp_dr_dlid := 0xFFFF,
     smp_initial_path := overlay 64 path \<rparr>"

definition example_lft :: ib_smp where
  "example_lft = example_smp \<lparr> smp_attr_id := IB_SMP_ATTR_LINEAR_FORWARD_TABLE, smp_attr_mod := 0,
     smp_data := overlay 64 [0, 1, 1, 1, 1, 2] \<rparr>"

theorem forwarding_table_routes_witness:
  "\<exists>ret answer sw' sw''. sw_process_smp 0 example_lft example_sw 1 = Inr ((ret, answer), sw') \<and>
    sw_process_incoming_message example_env 7001 (example_msg 5 9 []) sw' =
      Inr ([(sw_dest example_env 2, example_msg 5 9 [])], sw'')"
proof -
  have f: "smp_method example_lft = IB_MGMT_METHOD_SET" "smp_attr_id example_lft = IB_SMP_ATTR_LINEAR_FORWARD_TABLE"
      "smp_attr_mod example_lft \<le> 767" "smp_status example_lft AND NOT IB_SMP_DIRECTION = 0"
      "unat (5 :: u16) div 64 = unat (smp_attr_mod example_lft)"
    by (simp_all add: example_lft_def example_smp_def)
  have o: "2 = smp_data example_lft ! (unat (5 :: u16) mod 64)" by (simp add: example_lft_def overlay_def)
  have "\<exists>x. sw_process_smp 0 example_lft example_sw 1 = Inr x"
    using f(1,2) by (simp add: sw_process_smp_def sw_process_smp_set_method_def sw_process_smp_get_method_def Let_def reply_def
        sw_set_linear_forward_table_def)
  then obtain ret answer sw' where s: "sw_process_smp 0 example_lft example_sw 1 = Inr ((ret, answer), sw')"
    by (metis prod.exhaust)
  have g: "get_sw_port_num example_sw 7001 \<noteq> 0" "(5 :: u16) \<noteq> port_lid (sw_ports example_sw ! 0)"
    by (simp_all add: example_port_num)
  have h: "sw_header (example_msg 5 9 []) = Some (20, 5, 9)" by (rule sw_header_example) simp_all
  have q: "(9 :: u32) AND NOT PIB_QPN_MASK = 0" "(9 :: u32) \<notin> {of_nat PIB_QP0, of_nat PIB_QP1, of_nat IB_MULTICAST_QPN}"
      "(5 :: u16) \<noteq> 0" "0 < env_sendmsg example_env (sw_dest example_env 2) (example_msg 5 9 [])"
    by (simp_all add: example_env_def)
  show ?thesis
    using forwarding_table_routes [OF s f(1-4) h g(1) f(5) g(2) q(1,2,3) o q(4)] s by (simp add: example_port_num)
qed

theorem multicast_reaches_members_witness:
  "\<exists>ps. sw_process_incoming_message example_env 7001 (example_msg 0xC001 0xFFFFFF []) example_sw =
    Inr ([(sw_dest example_env 2, example_msg 0xC001 0xFFFFFF [])], example_sw \<lparr> sw_ports := ps \<rparr>)"
proof -
  have h: "sw_header (example_msg 0xC001 0xFFFFFF []) = Some (20, 0xC001, 0xFFFFFF)" by (rule sw_header_example) simp_all
  have m: "[p \<leftarrow> map of_nat [1..<unat (sw_port_cnt example_sw)]. p \<noteq> 1 \<and> sw_member example_sw 0xC001 p] = [2]"
    by (simp add: example_port_num upt_rec sw_member_def) (simp add: example_sw_def Let_def bit_numeral_rec)
  have "\<forall>a. 0 < env_sendmsg example_env a (example_msg 0xC001 0xFFFFFF [])" by (simp add: example_env_def)
  from multicast_reaches_members [OF h example_port_num(1) _ _ _ _ _ _ _ this]
  show ?thesis unfolding m by (simp add: example_port_num)
qed

theorem bad_path_stops_the_switch_witness:
  "sw_process_incoming_message example_env 7001 (example_msg 0xFFFF 0 (replicate 8 0 @ smp_bytes (example_directed []))) example_sw = Inl Sw_bug"
proof -
  have l: "smp_ok (example_directed [])" by (simp add: smp_ok_def example_directed_def example_smp_def)
  note len = length_smp_bytes [OF l]
  have h: "sw_header (example_msg 0xFFFF 0 (replicate 8 0 @ smp_bytes (example_directed []))) = Some (20, 0xFFFF, of_nat PIB_QP0)"
    using len by (simp add: sw_header_example sizeof_smp_def)
  have s: "smp_of_bytes (drop (20 + sizeof_deth) (example_msg 0xFFFF 0 (replicate 8 0 @ smp_bytes (example_directed [])))) = example_directed []"
    by (simp add: example_msg_def smp_of_bytes_append [OF l])
  have n: "20 + sizeof_deth + sizeof_smp \<le>
      length (example_msg 0xFFFF 0 (replicate 8 0 @ smp_bytes (example_directed []))) - sizeof_footer"
    using len by (simp add: example_msg_def sizeof_smp_def)
  show ?thesis
    by (rule bad_path_stops_the_switch [OF h example_port_num(1) _ n s [symmetric] _ _ _ _ _ _ _ refl])
      (simp_all add: example_directed_def example_smp_def example_port_num overlay_def)
qed

theorem directed_answer_returns_witness:
  "\<exists>buf' sw' request ret answer d' buf3.
    sw_directed_route 0 0 (smp_bytes (example_directed [0, 1, 2])) 1 example_sw = Inr (Sw_send 2 buf', sw') \<and>
    request = smp_of_bytes buf' \<and> process_subn 1 request example_attr_dev = Some (ret, answer, d') \<and>
    sw_directed_route 0 0 (smp_bytes (answer \<lparr> smp_hop_ptr := smp_hop_ptr request \<rparr>)) 2 sw' = Inr (Sw_send 1 buf3, sw') \<and>
    smp_hop_ptr (smp_of_bytes buf3) = 1"
proof -
  let ?smp = "example_directed [0, 1, 2]" and ?b = "smp_bytes (example_directed [0, 1, 2])"
  have l: "smp_ok ?smp" by (simp add: smp_ok_def example_directed_def example_smp_def)
  have s: "smp_of_bytes ?b = ?smp" using smp_of_bytes_append [OF l, of "[]"] by simp
  let ?req = "?smp \<lparr> smp_return_path := (smp_return_path ?smp)[1 := 1], smp_hop_ptr := 2 \<rparr>"
  have r: "sw_directed_route 0 0 ?b 1 example_sw = Inr (Sw_send 2 (put_at 0 (smp_bytes ?req) ?b), example_sw)"
    by (simp add: sw_directed_route_def s Let_def) (simp add: example_directed_def example_smp_def overlay_def)
  have q: "smp_of_bytes (drop 0 (put_at 0 (smp_bytes ?req) ?b)) = ?req"
    using l by (intro smp_of_bytes_put_at) (auto simp: smp_ok_def)
  obtain answer where a: "process_subn 1 ?req example_attr_dev = Some (3, answer, example_attr_dev)" "smp_ok answer"
    by (simp add: process_subn_def process_subn_get_method_def subn_get_nodedescription_def reply_def Let_def example_directed_def
        example_smp_def smp_ok_def)
  have o: "smp_of_bytes (drop 0 (smp_bytes (answer \<lparr> smp_hop_ptr := smp_hop_ptr ?req \<rparr>))) = answer \<lparr> smp_hop_ptr := smp_hop_ptr ?req \<rparr>"
    using smp_of_bytes_append [of "answer \<lparr> smp_hop_ptr := smp_hop_ptr ?req \<rparr>" "[]"] a(2) by (simp add: smp_ok_def)
  have n: "length (smp_bytes (answer \<lparr> smp_hop_ptr := smp_hop_ptr ?req \<rparr>)) = sizeof_smp"
    using a(2) by (intro length_smp_bytes) (simp add: smp_ok_def)
  have f: "smp_base_version ?smp = IB_MGMT_BASE_VERSION" "smp_mgmt_class ?smp = IB_MGMT_CLASS_SUBN_DIRECTED_ROUTE"
      "smp_status ?smp AND IB_SMP_DIRECTION = 0" "smp_hop_ptr ?smp < smp_hop_cnt ?smp" "smp_hop_ptr ?smp = 1"
    by (simp_all add: example_directed_def example_smp_def)
  have t: "process_subn 1 (?req \<lparr> smp_hop_ptr := smp_hop_ptr ?req \<rparr>) example_attr_dev = Some (3, answer, example_attr_dev)"
    using a(1) by simp
  have e: "0 + sizeof_smp \<le> length ?b" "?smp = smp_of_bytes (drop 0 ?b)" "flag_set (3 :: u32) IB_MAD_RESULT_REPLY"
      "0 + sizeof_smp \<le> length (smp_bytes (answer \<lparr> smp_hop_ptr := smp_hop_ptr ?req \<rparr>))"
    using length_smp_bytes [OF l] s n by simp_all
  show ?thesis
    using directed_answer_returns [OF r e(1,2) f(1-4) q [symmetric] order_refl t e(3) o e(4)] a(1) q f(5) r by auto
qed

end
