(* ===== verification/Pib_QP_Wf.thy ===== *)
theory Pib_QP_Wf
  imports Pib_Thread Pib_QP_Entries
begin

text \<open>
  The well-formedness of a queue pair under the protocol: its entries are conserved, its
  counters are the lengths of what they count, and its lists hold what they should.  Here,
  that receiving a packet keeps it, whatever the packet, and reaches no \<^verbatim>\<open>BUG\<close> or \<^verbatim>\<open>BUG_ON\<close> as long
  as the opcode is one of the driver's table; the other steps are in \<open>Pib_QP_Run\<close>.

  Local operations (LOCAL_INV, FAST_REG_MR) are left out: when one fails, the counter of the
  waiting list becomes wrong.
\<close>

section \<open>Well-formed queue pairs\<close>

definition rd_atomic_wqe :: "pib_send_wqe \<Rightarrow> bool" where
  "rd_atomic_wqe w \<longleftrightarrow> pib_is_wr_opcode_rd_atomic (swqe_opcode w)"

definition all_swqes :: "pib_requester \<Rightarrow> pib_send_wqe list" where
  "all_swqes r = free_swqe_head r @ submitted_swqe_head r @ sending_swqe_head r @ waiting_swqe_head r"

definition req_wf :: "pib_requester \<Rightarrow> bool" where
  "req_wf r \<longleftrightarrow>
    req_nr_rd_atomic r = int (length (filter rd_atomic_wqe (sending_swqe_head r @ waiting_swqe_head r))) \<and>
    (\<forall>w \<in> set (sending_swqe_head r). list_type (processing w) = PIB_SWQE_SENDING) \<and>
    (\<forall>w \<in> set (waiting_swqe_head r). list_type (processing w) = PIB_SWQE_WAITING) \<and>
    (\<forall>w \<in> set (all_swqes r). \<not> local_only_request w)"

definition rsp_wf :: "pib_responder \<Rightarrow> bool" where
  "rsp_wf r \<longleftrightarrow> rsp_nr_rd_atomic r = int (length (filter is_rd_atomic_ack (ack_head r))) \<and>
     length (slots r) = PIB_MAX_RD_ATOM"

text \<open>\<open>safe q q'\<close>: \<open>q'\<close> has the entries of \<open>q\<close>, and is well-formed.\<close>

definition safe :: "pib_qp \<Rightarrow> pib_qp \<Rightarrow> bool" where
  "safe q q' \<longleftrightarrow> keeps_entries q q' \<and> qp_type q' = qp_type q \<and> req_wf (requester q') \<and> rsp_wf (responder q')"

named_theorems safe_step

lemma safe_trans: "safe a b \<Longrightarrow> safe b c \<Longrightarrow> safe a c"
  by (auto simp: safe_def intro: keeps_entries_trans)

lemma safe_refl: "safe q q' \<Longrightarrow> safe q' q'"
  by (simp add: safe_def keeps_entries_def)

text \<open>The fields that matter.\<close>

lemma safe_cong:
  assumes "safe q qp" "qp_init_attr qp' = qp_init_attr qp" "qp_type qp' = qp_type qp"
    and "all_swqes (requester qp') = all_swqes (requester qp)"
    and "sending_swqe_head (requester qp') = sending_swqe_head (requester qp)"
    and "waiting_swqe_head (requester qp') = waiting_swqe_head (requester qp)"
    and "submitted_swqe_head (requester qp') = submitted_swqe_head (requester qp)"
    and "nr_submitted_swqe (requester qp') = nr_submitted_swqe (requester qp)"
    and "nr_sending_swqe (requester qp') = nr_sending_swqe (requester qp)"
    and "nr_waiting_swqe (requester qp') = nr_waiting_swqe (requester qp)"
    and "req_nr_rd_atomic (requester qp') = req_nr_rd_atomic (requester qp)"
    and "rsp_recv_wqe_head (responder qp') = rsp_recv_wqe_head (responder qp)"
    and "free_rwqe_head (responder qp') = free_rwqe_head (responder qp)"
    and "rsp_nr_recv_wqe (responder qp') = rsp_nr_recv_wqe (responder qp)"
    and "rsp_wf (responder qp')"
  shows "safe q qp'"
  using assms
  by (simp add: safe_def keeps_entries_def qp_inv_def swqe_ids_def rwqe_count_def req_wf_def all_swqes_def)

text \<open>Most steps of the responder leave the requester alone.\<close>

lemma safe_rsp:
  assumes "safe q qp" "rsp_wf (f (responder qp))"
    and "rsp_recv_wqe_head (f (responder qp)) = rsp_recv_wqe_head (responder qp)"
    and "free_rwqe_head (f (responder qp)) = free_rwqe_head (responder qp)"
    and "rsp_nr_recv_wqe (f (responder qp)) = rsp_nr_recv_wqe (responder qp)"
  shows "safe q (upd_rsp f qp)"
  using assms by (intro safe_cong [OF assms(1)]) simp_all

lemma safe_rsp_wf: "safe q qp \<Longrightarrow> rsp_wf (responder qp)"
  by (simp add: safe_def)

section \<open>Errors\<close>

lemma reschedule_safe [safe_step]: "safe q (snd s) \<Longrightarrow> safe q (snd (pib_util_reschedule_qp s))"
  by (frule safe_rsp_wf, erule safe_cong) (simp_all add: pib_frame)

lemma flush_recvs_qp:
  "requester (snd (flush_recvs s)) = requester (snd s)"
  "ack_head (responder (snd (flush_recvs s))) = []" "rsp_nr_rd_atomic (responder (snd (flush_recvs s))) = 0"
  "slots (responder (snd (flush_recvs s))) = slots (responder (snd s))"
proof -
  obtain d qp where s: "s = (d, qp)" by force
  define t where "t = fold flush_recv_wqe (rsp_recv_wqe_head (responder qp)) (d, qp)"
  have "requester (snd t) = requester qp" "slots (responder (snd t)) = slots (responder qp)"
    using fold_flush_recv_wqe_qp [of "rsp_recv_wqe_head (responder qp)" d qp d]
    by (simp_all add: t_def fold_free_recv_wqe_qp)
  then show "requester (snd (flush_recvs s)) = requester (snd s)"
    "ack_head (responder (snd (flush_recvs s))) = []" "rsp_nr_rd_atomic (responder (snd (flush_recvs s))) = 0"
    "slots (responder (snd (flush_recvs s))) = slots (responder (snd s))"
    by (simp_all add: s flush_recvs_def split_beta flip: t_def)
qed

text \<open>A flush needs less, and gives it all.\<close>

definition flushable :: "pib_qp \<Rightarrow> pib_qp \<Rightarrow> bool" where
  "flushable q q' \<longleftrightarrow> keeps_entries q q' \<and> qp_type q' = qp_type q \<and> (\<forall>w \<in> set (all_swqes (requester q')). \<not> local_only_request w) \<and>
     rsp_wf (responder q')"

lemma safe_flushable [safe_step]: "safe q q' \<Longrightarrow> flushable q q'"
  by (simp add: safe_def flushable_def req_wf_def)

lemma flush_qp_type: "qp_type (snd (pib_util_flush_qp send_only s)) = qp_type (snd s)"
proof -
  have "qp_type (snd (flush_recvs (d, qp))) = qp_type qp" for d qp
    using fold_flush_recv_wqe_qp [of "rsp_recv_wqe_head (responder qp)" d qp d]
    by (simp add: flush_recvs_def split_beta fold_free_recv_wqe_qp)
  then have "qp_type (snd (flush_recvs t)) = qp_type (snd t)" for t by (metis prod.collapse)
  moreover have "qp_type (snd (flush_sends s)) = qp_type (snd s)"
    using flush_sends_qp [of "fst s" "snd s"] by simp
  ultimately show ?thesis
    by (simp add: pib_util_flush_qp_def Let_def split_beta pib_frame last_wqe_event_def)
qed

lemma flush_qp_safe [safe_step]:
  assumes "flushable q (snd s)"
  shows "safe q (snd (pib_util_flush_qp send_only s))"
proof -
  have k: "keeps_entries q (snd (pib_util_flush_qp send_only s))"
    using assms keeps_entries_flush_qp [of s send_only]
    by (auto simp: flushable_def keeps_entries_def)
  have ty: "qp_type (snd (pib_util_flush_qp send_only s)) = qp_type q"
    using assms by (simp add: flush_qp_type flushable_def)
  obtain d qp where s: "s = (d, qp)" by force
  have req: "req_wf (requester (snd (flush_sends s)))"
    using assms by (simp add: s flush_sends_qp flushable_def req_wf_def all_swqes_def Un_ac)
  have sl: "length (slots (responder qp)) = PIB_MAX_RD_ATOM"
    using assms by (simp add: s flushable_def rsp_wf_def)
  show ?thesis
  proof (cases send_only)
    case True
    with k ty req assms show ?thesis
      by (simp add: s safe_def flushable_def pib_util_flush_qp_def flush_sends_qp)
  next
    case False
    let ?t = "pib_util_reschedule_qp (last_wqe_event (flush_recvs (flush_sends s)))"
    have f: "pib_util_flush_qp send_only s = (fst ?t, clear_contig (snd ?t))"
      using False by (simp add: pib_util_flush_qp_def split_beta Let_def)
    have "req_wf (requester (clear_contig (snd ?t)))"
      using req by (simp add: clear_contig_def pib_frame flush_recvs_qp req_wf_def all_swqes_def)
    moreover have "rsp_wf (responder (clear_contig (snd ?t)))"
      using sl by (simp add: clear_contig_def rsp_wf_def pib_frame flush_recvs_qp s flush_sends_qp)
    ultimately show ?thesis
      using k ty by (simp add: safe_def f)
  qed
qed

lemma enter_error_safe [safe_step]:
  assumes "flushable q (snd s)"
  shows "safe q (snd (enter_error s))"
proof -
  have "flushable q ((snd s) \<lparr> qp_state := IB_QPS_ERR \<rparr>)"
    using assms by (auto simp: flushable_def elim: keeps_entries_cong)
  then show ?thesis
    by (cases s) (auto simp: enter_error_def intro: flush_qp_safe)
qed

lemma free_recv_wqe_requester [pib_frame]:
  "requester (snd (pib_util_free_recv_wqe w s)) = requester (snd s)"
  by (cases s) (simp add: pib_util_free_recv_wqe_def split: option.split)

lemma drop_active_rwqe_safe [safe_step]:
  assumes "safe q (snd s)" "rsp_recv_wqe_head (responder (snd s)) \<noteq> []"
  shows "safe q (snd (drop_active_rwqe s))"
  using assms
  by (cases s; cases "rsp_recv_wqe_head (responder (snd s))"; cases "init_srq (qp_init_attr (snd s))")
    (auto simp: drop_active_rwqe_def free_recv_wqe_simps safe_def keeps_entries_def qp_inv_def swqe_ids_def
      rwqe_count_def rsp_wf_def)

lemma fail_active_rwqe_safe [safe_step]:
  assumes "safe q (snd s)" "rsp_recv_wqe_head (responder (snd s)) \<noteq> []"
  shows "safe q (snd (fail_active_rwqe status opcode s))"
  using assms by (auto simp: fail_active_rwqe_def split_beta intro!: drop_active_rwqe_safe)

lemma abort_active_rwqe_safe [safe_step]:
  "safe q (snd s) \<Longrightarrow> safe q (snd (abort_active_rwqe s))"
  by (auto simp: abort_active_rwqe_def split_beta intro!: fail_active_rwqe_safe)

lemma insert_async_qp_error_safe [safe_step]:
  "safe q (snd s) \<Longrightarrow> safe q (snd (insert_async_qp_error e s))"
  by (simp add: insert_async_qp_error_def safe_step pib_frame)

lemma complete_send_qp [simp]: "snd (complete_send opcode w s) = snd s"
  by (simp add: complete_send_def split_beta)

section \<open>Acknowledgements\<close>

lemma push_ack_safe [safe_step]:
  assumes "safe q (snd s)"
  shows "safe q (snd (push_ack ack s))"
proof -
  have "rsp_wf (responder (snd s))" using assms by (rule safe_rsp_wf)
  then have "is_rd_atomic_ack ack \<longleftrightarrow> ack_type ack \<noteq> PIB_ACK_NORMAL"
    by (cases "ack_type ack") (simp_all add: is_rd_atomic_ack_def)
  with assms \<open>rsp_wf (responder (snd s))\<close> show ?thesis
    by (auto simp: push_ack_def rsp_wf_def split: prod.splits bool.splits intro!: safe_rsp)
qed

lemma last_has_code_normal: "last_has_code c acks \<Longrightarrow> \<not> is_rd_atomic_ack (last acks) \<and> acks \<noteq> []"
  by (simp add: last_has_code_def is_rd_atomic_ack_def)

lemma push_acknowledge_safe [safe_step]:
  assumes "safe q (snd s)"
  shows "safe q (snd (push_acknowledge psn syndrome s))"
proof -
  let ?acks = "ack_head (responder (snd s))"
  let ?new = "butlast ?acks @ [(last ?acks) \<lparr> ack_psn := psn, ack_expected_psn := psn + 1 \<rparr>]"
  have wf: "rsp_wf (responder (snd s))" using assms by (rule safe_rsp_wf)
  have "safe q (upd_rsp (ack_head_update (\<lambda>_. ?new)) (snd s))" if l: "last_has_code c ?acks" for c
  proof (rule safe_rsp [OF assms])
    from l have "?acks = butlast ?acks @ [last ?acks]" "\<not> is_rd_atomic_ack (last ?acks)"
      using last_has_code_normal by auto
    moreover from this(2) have "filter is_rd_atomic_ack ?new = filter is_rd_atomic_ack (butlast ?acks @ [last ?acks])"
      by (simp add: is_rd_atomic_ack_def)
    ultimately have "length (filter is_rd_atomic_ack ?new) = length (filter is_rd_atomic_ack ?acks)"
      by metis
    with wf show "rsp_wf (responder (snd s) \<lparr> ack_head := ?new \<rparr>)"
      by (simp add: rsp_wf_def)
  qed simp_all
  with assms push_ack_safe [OF assms] show ?thesis
    by (auto simp: push_acknowledge_def Let_def split_beta)
qed

lemma remove_overlapped_safe [safe_step]:
  assumes "safe q qp"
  shows "safe q (remove_overlapped_rdma_read_acknowledge psn expected_psn qp)"
proof -
  let ?o = "overlapped psn expected_psn"
  have "int (length (filter is_rd_atomic_ack acks)) - int (length (filter (\<lambda>a. ?o a \<and> is_rd_atomic_ack a) acks)) =
      int (length (filter is_rd_atomic_ack (filter (\<lambda>a. \<not> ?o a) acks)))" for acks
    by (induction acks) auto
  then show ?thesis
    using safe_rsp_wf [OF assms] unfolding remove_overlapped_rdma_read_acknowledge_def
    by (intro safe_rsp [OF assms]) (simp_all add: rsp_wf_def)
qed

lemma push_rd_atomic_safe [safe_step]:
  "safe q (snd s) \<Longrightarrow> safe q (snd (push_rdma_read_acknowledge psn e v k n s))"
  "safe q (snd s) \<Longrightarrow> safe q (snd (push_atomic_acknowledge psn v s))"
  by (simp_all add: push_rdma_read_acknowledge_def push_atomic_acknowledge_def push_ack_safe)

lemma push_slot_safe [safe_step]: "safe q qp \<Longrightarrow> safe q (push_slot slot qp)"
  unfolding push_slot_def
  by (frule safe_rsp_wf, erule safe_rsp) (simp_all add: rsp_wf_def)

section \<open>Requests\<close>

lemma nak_safe [safe_step]:
  "safe q (snd s) \<Longrightarrow> safe q (snd (snd (nak_invalid_request psn s)))"
  "safe q (snd s) \<Longrightarrow> safe q (snd (snd (nak_access_error psn syn s)))"
  "safe q (snd s) \<Longrightarrow> safe q (snd (snd (resources_not_ready psn s)))"
  by (simp_all add: nak_invalid_request_def nak_access_error_def resources_not_ready_def safe_step)

lemma complete_recv_safe [safe_step]:
  "safe q (snd s) \<Longrightarrow> rsp_recv_wqe_head (responder (snd s)) \<noteq> [] \<Longrightarrow>
    safe q (snd (complete_recv opcode ex flags lrh bth s))"
  by (auto simp: complete_recv_def split_beta intro!: drop_active_rwqe_safe)

lemma safe_rsp_offset [safe_step]: "safe q qp \<Longrightarrow> safe q (upd_rsp (rsp_offset_update f) qp)"
  by (frule safe_rsp_wf, erule safe_rsp) (simp_all add: rsp_wf_def)

lemma move_srq_rwqe_safe [safe_step]:
  assumes "safe q (snd s)"
  shows "safe q (snd (move_srq_rwqe s))"
  using assms
  by (cases s; cases "init_srq (qp_init_attr (snd s))")
    (auto simp: move_srq_rwqe_def safe_def keeps_entries_def qp_inv_def swqe_ids_def rsp_wf_def
      split: prod.splits option.splits)

lemma send_payload_safe [safe_step]:
  assumes "safe q (snd s)" "rsp_recv_wqe_head (responder (snd s)) \<noteq> []"
  shows "safe q (snd (snd (send_payload f psn ex lrh bth data s)))"
  using assms unfolding send_payload_def
  by (auto simp: Let_def split_beta intro!: safe_step)

lemma receive_SEND_request_safe [safe_step]:
  assumes "safe q (snd s)"
  shows "safe q (snd (snd (receive_SEND_request psn OpCode lrh bth data s)))"
  using assms unfolding receive_SEND_request_def
  by (auto simp: Let_def split_beta intro!: safe_step)

lemma write_error_safe [safe_step]:
  assumes "safe q (snd s)" "with_imm \<Longrightarrow> rsp_recv_wqe_head (responder (snd s)) \<noteq> []"
  shows "safe q (snd (snd (write_error with_imm status psn s)))"
  using assms unfolding write_error_def
  by (auto simp: Let_def pib_frame intro!: safe_step)

lemma write_payload_safe [safe_step]:
  assumes "safe q (snd s)" "fr_with_imm f \<Longrightarrow> rsp_recv_wqe_head (responder (snd s)) \<noteq> []"
  shows "safe q (snd (snd (write_payload f psn imm lrh bth data s)))"
  using assms unfolding write_payload_def
  by (auto simp: Let_def split_beta intro!: safe_step)

lemma receive_RDMA_WRITE_request_safe [safe_step]:
  assumes "safe q (snd s)"
  shows "safe q (snd (snd (receive_RDMA_WRITE_request psn OpCode lrh bth data s)))"
proof -
  have "safe q (upd_rsp (\<lambda>r. r \<lparr> rsp_offset := 0, rdma_write_vaddr := a, rdma_write_rkey := b,
      rdma_write_dmalen := c \<rparr>) (snd s))" for a b c
    using safe_rsp_wf [OF assms] by (intro safe_rsp [OF assms]) (simp_all add: rsp_wf_def)
  with assms show ?thesis unfolding receive_RDMA_WRITE_request_def
    by (auto simp: Let_def split_beta intro!: safe_step)
qed

lemma receive_Atomic_request_safe [safe_step]:
  assumes "safe q (snd s)"
  shows "safe q (snd (snd (receive_Atomic_request psn OpCode data s)))"
  using assms unfolding receive_Atomic_request_def
  by (auto simp: Let_def split_beta intro!: safe_step)

lemma safe_contig_read_acks [safe_step]: "safe q qp \<Longrightarrow> safe q (upd_rsp (rsp_nr_contig_read_acks_update f) qp)"
  by (frule safe_rsp_wf, erule safe_rsp) (simp_all add: rsp_wf_def)

lemma queue_rdma_read_safe [safe_step]:
  assumes "safe q (snd s)"
  shows "safe q (snd (snd (queue_rdma_read psn expected_psn reth ret s)))"
  using assms unfolding queue_rdma_read_def
  by (auto simp: Let_def split_beta intro!: safe_step)

lemma receive_RDMA_READ_request_safe [safe_step]:
  assumes "safe q (snd s)"
  shows "safe q (snd (snd (receive_RDMA_READ_request psn data slot s)))"
  using assms unfolding receive_RDMA_READ_request_def
  by (auto simp: Let_def split_beta split: option.split intro!: safe_step)

lemma issue_comm_est_event_safe [safe_step]:
  assumes "safe q (snd s)"
  shows "safe q (snd (issue_comm_est_event s))"
proof -
  have "safe q ((snd s) \<lparr> issue_comm_est := True \<rparr>)"
    by (rule safe_cong [OF assms]) (use safe_rsp_wf [OF assms] in simp_all)
  with assms show ?thesis by (simp add: issue_comm_est_event_def split_beta pib_frame)
qed

lemma receive_duplicate_safe [safe_step]:
  assumes "safe q (snd s)"
  shows "safe q (snd (receive_duplicate psn OpCode data s))"
  using assms unfolding receive_duplicate_def
  by (auto simp: split_beta split: option.split intro!: safe_step)

lemma execute_request_safe:
  assumes "safe q (snd s)" "execute_request psn OpCode lrh bth data s = Some r"
  shows "safe q (snd (snd r))"
  using assms by (auto simp: execute_request_def safe_step split: if_splits)

lemma advance_responder_safe [safe_step]:
  assumes "safe q (snd (snd r))"
  shows "safe q (snd (advance_responder OpCode r))"
proof -
  have "safe q (upd_rsp (\<lambda>r. r \<lparr> rsp_psn := a, last_OpCode := b \<rparr>) (snd (snd r)))" for a b
    using safe_rsp_wf [OF assms] by (intro safe_rsp [OF assms]) (simp_all add: rsp_wf_def)
  with assms show ?thesis by (simp add: advance_responder_def split_beta)
qed

lemma receive_request_safe:
  assumes "safe q (snd s)" "receive_request lrh bth data s = Some s'"
  shows "safe q (snd s')"
proof -
  have "safe q (snd (issue_comm_est_event s))" using assms(1) by (rule safe_step)
  with assms(2) show ?thesis
    by (auto simp: receive_request_def Let_def safe_step dest: execute_request_safe split: if_splits)
qed

section \<open>Generating acknowledgements\<close>

lemma generate_READ_response_frame:
  assumes "generate_RDMA_READ_response ack (d, qp) = (ack', d', qp')"
  shows "(\<exists>n. qp' = upd_rsp (\<lambda>r. r \<lparr> rsp_nr_contig_read_acks := n \<rparr>) qp) \<and> (\<exists>off. ack' = ack \<lparr> ack_offset := off \<rparr>)"
  using assms
  by (auto simp: generate_RDMA_READ_response_def Let_def split: prod.splits if_splits
      intro: exI [of _ "rsp_nr_contig_read_acks (responder qp)"] exI [of _ "ack_offset ack"])

text \<open>The acknowledgement at the head is removed, or its offset moves on.\<close>

lemma is_rd_atomic_ack_offset [simp]: "is_rd_atomic_ack (ack \<lparr> ack_offset := off \<rparr>) = is_rd_atomic_ack ack"
  by (simp add: is_rd_atomic_ack_def)

lemma pop_ack_safe:
  assumes "safe q qp" "ack_head (responder qp) = ack # acks"
  shows "is_rd_atomic_ack ack \<Longrightarrow>
      safe q (upd_rsp (\<lambda>r. r \<lparr> ack_head := acks, rsp_nr_rd_atomic := rsp_nr_rd_atomic r - 1 \<rparr>) qp)"
    and "\<not> is_rd_atomic_ack ack \<Longrightarrow> safe q (upd_rsp (ack_head_update (\<lambda>_. acks)) qp)"
    and "safe q (upd_rsp (ack_head_update (\<lambda>_. ack \<lparr> ack_offset := off \<rparr> # acks)) qp)"
  using safe_rsp_wf [OF assms(1)] assms(2)
  by (auto intro!: safe_rsp [OF assms(1)] simp: rsp_wf_def)

lemma generate_acknowledge_safe:
  assumes "safe q (snd s)"
  shows "safe q (snd (snd (pib_generate_rc_qp_acknowledge s)))"
proof (cases s)
  case (Pair d qp)
  show ?thesis
  proof (cases "ack_head (responder qp)")
    case Nil
    with assms Pair show ?thesis by (simp add: pib_generate_rc_qp_acknowledge_def)
  next
    case (Cons ack acks)
    have safe: "safe q qp" using assms Pair by simp
    obtain ack' d' qp' where g: "generate_RDMA_READ_response ack (d, qp) = (ack', d', qp')" by (metis prod_cases3)
    from generate_READ_response_frame [OF g] obtain n off where
      f: "qp' = upd_rsp (\<lambda>r. r \<lparr> rsp_nr_contig_read_acks := n \<rparr>) qp" "ack' = ack \<lparr> ack_offset := off \<rparr>"
      by blast
    have "safe q qp'" "ack_head (responder qp') = ack # acks"
      unfolding f using Cons by (auto intro!: safe_step safe)
    from pop_ack_safe [OF this] pop_ack_safe [OF safe Cons] safe show ?thesis
      by (cases "ack_type ack") (auto simp: pib_generate_rc_qp_acknowledge_def Pair Cons g f is_rd_atomic_ack_def)
  qed
qed

lemma receive_cnp_notify_safe [safe_step]: "safe q (snd s) \<Longrightarrow> safe q (snd (receive_cnp_notify s))"
  by (simp add: receive_cnp_notify_def split_beta safe_step)

section \<open>Responses\<close>

text \<open>
  The lists of requests in flight.  Requests may be changed where they are, as long as what
  the counters and lists depend on stays; a request may leave for the free list.
\<close>

definition swqe_view :: "pib_send_wqe \<Rightarrow> u32 \<times> bool \<times> pib_swqe_list \<times> bool" where
  "swqe_view w = (swqe_trace_id w, rd_atomic_wqe w, list_type (processing w), local_only_request w)"

lemma swqe_view_eq:
  assumes "map swqe_view ws = map swqe_view ws'"
  shows "map swqe_trace_id ws = map swqe_trace_id ws' \<and> length ws = length ws' \<and>
    length (filter rd_atomic_wqe ws) = length (filter rd_atomic_wqe ws') \<and>
    ((\<forall>w \<in> set ws. list_type (processing w) = t) \<longleftrightarrow> (\<forall>w \<in> set ws'. list_type (processing w) = t)) \<and>
    ((\<forall>w \<in> set ws. \<not> local_only_request w) \<longleftrightarrow> (\<forall>w \<in> set ws'. \<not> local_only_request w))"
proof -
  have "length ws = length ws'" using assms by (metis length_map)
  then show ?thesis using assms
    by (induction ws ws' rule: list_induct2) (auto simp: swqe_view_def)
qed

lemma safe_req:
  assumes "safe q qp"
    and "map swqe_view (sending_swqe_head (f (requester qp))) = map swqe_view (sending_swqe_head (requester qp))"
    and "map swqe_view (waiting_swqe_head (f (requester qp))) = map swqe_view (waiting_swqe_head (requester qp))"
    and "submitted_swqe_head (f (requester qp)) = submitted_swqe_head (requester qp)"
    and "free_swqe_head (f (requester qp)) = free_swqe_head (requester qp)"
    and "nr_submitted_swqe (f (requester qp)) = nr_submitted_swqe (requester qp)"
    and "nr_sending_swqe (f (requester qp)) = nr_sending_swqe (requester qp)"
    and "nr_waiting_swqe (f (requester qp)) = nr_waiting_swqe (requester qp)"
    and "req_nr_rd_atomic (f (requester qp)) = req_nr_rd_atomic (requester qp)"
  shows "safe q (upd_req f qp)"
  using assms swqe_view_eq [OF assms(2)] swqe_view_eq [OF assms(3)]
  unfolding safe_def keeps_entries_def qp_inv_def swqe_ids_def rwqe_count_def req_wf_def all_swqes_def
  by (simp add: ball_Un)

lemma process_acknowledge_frame:
  assumes "process_acknowledge psn w (d, qp) = (ret, w', d', qp')"
  shows "swqe_view w' = swqe_view w \<and> (\<exists>p. qp' = upd_req (req_psn_update (\<lambda>_. p)) qp) \<and>
    (ret = RET_COMPLETE \<longrightarrow> \<not> rd_atomic_wqe w)"
  using assms
  by (auto simp: process_acknowledge_def complete_send_def Let_def swqe_view_def rd_atomic_wqe_def
      split: if_splits intro: exI [of _ "req_psn (requester qp)"])

definition failed_of :: "ack_end \<Rightarrow> pib_send_wqe list" where
  "failed_of e = (case e of Ack_failed w \<Rightarrow> [w] | _ \<Rightarrow> [])"

text \<open>The loop frees a prefix of the list, and changes nothing else of the queue pair but its number.\<close>

lemma ack_loop_frame:
  assumes "ack_loop psn ws (d, qp) = (e, rest, d', qp')"
  shows "\<exists>gone p. map swqe_view ws = map swqe_view (gone @ failed_of e @ rest) \<and>
    (\<forall>w \<in> set gone. \<not> rd_atomic_wqe w) \<and>
    qp' = upd_req (\<lambda>r. r \<lparr> free_swqe_head := free_swqe_head r @ gone, req_psn := p \<rparr>) qp"
  using assms
proof (induction psn ws "(d, qp)" arbitrary: d qp rule: ack_loop.induct)
  case (1 psn)
  then show ?case by (auto simp: failed_of_def intro: exI [of _ "[]"] exI [of _ "req_psn (requester qp)"])
next
  case (2 psn w ws)
  obtain ret w1 d1 qp1 where p: "process_acknowledge psn w (d, qp) = (ret, w1, d1, qp1)" by (metis prod_cases4)
  from process_acknowledge_frame [OF p] obtain n where
    f: "swqe_view w1 = swqe_view w" "qp1 = upd_req (req_psn_update (\<lambda>_. n)) qp" "ret = RET_COMPLETE \<longrightarrow> \<not> rd_atomic_wqe w"
    by blast
  show ?case
  proof (cases ret)
    case RET_COMPLETE
    from "2.hyps" [OF p [symmetric]] RET_COMPLETE "2.prems" p obtain gone m where
      g: "map swqe_view ws = map swqe_view (gone @ failed_of e @ rest)" "\<forall>w \<in> set gone. \<not> rd_atomic_wqe w"
        "qp' = upd_req (\<lambda>r. r \<lparr> free_swqe_head := free_swqe_head r @ gone, req_psn := m \<rparr>) (pib_util_free_send_wqe w1 qp1)"
      by fastforce
    moreover have "\<not> rd_atomic_wqe w1" using f RET_COMPLETE by (simp add: swqe_view_def)
    ultimately show ?thesis using f
      by (intro exI [of _ "w1 # gone"] exI [of _ m]) (simp add: pib_util_free_send_wqe_def)
  qed (use "2.prems" p f in \<open>auto simp: failed_of_def intro: exI [of _ "[]"] exI [of _ n]\<close>)
qed

lemmas safe_defs = safe_def flushable_def keeps_entries_def qp_inv_def swqe_ids_def rwqe_count_def req_wf_def
  all_swqes_def pib_util_free_send_wqe_def ball_Un ac_simps

text \<open>What is left when the freed entries are off the list they were on.\<close>

definition without_failed :: "pib_qp \<Rightarrow> ack_end \<Rightarrow> pib_qp \<Rightarrow> bool" where
  "without_failed q e qp \<longleftrightarrow> (case e of
     Ack_failed w \<Rightarrow> flushable q (pib_util_free_send_wqe w qp) | _ \<Rightarrow> safe q qp)"

lemma ack_waiting_safe:
  assumes "safe q (snd s)"
  shows "without_failed q (fst (ack_waiting psn s)) (snd (snd (ack_waiting psn s)))"
proof (cases s)
  case (Pair d qp)
  let ?ws = "waiting_swqe_head (requester qp)"
  obtain e rest d' qp' where l: "ack_loop psn ?ws (d, qp) = (e, rest, d', qp')" by (metis prod_cases4)
  from ack_loop_frame [OF l] obtain gone p where
    g: "map swqe_view ?ws = map swqe_view (gone @ failed_of e @ rest)" "\<forall>w \<in> set gone. \<not> rd_atomic_wqe w"
      "qp' = upd_req (\<lambda>r. r \<lparr> free_swqe_head := free_swqe_head r @ gone, req_psn := p \<rparr>) qp"
    by blast
  from g(2) have "filter rd_atomic_wqe gone = []" by simp
  with swqe_view_eq [OF g(1)] assms show ?thesis
    by (cases e) (auto simp: Pair ack_waiting_def l g(3) without_failed_def failed_of_def safe_defs)
qed

lemma ack_sending_safe:
  assumes "safe q (snd s)"
  shows "without_failed q (fst (ack_sending psn s)) (snd (snd (ack_sending psn s)))"
proof (cases s)
  case (Pair d qp)
  let ?ws = "sending_swqe_head (requester qp)"
  obtain e rest d' qp' where l: "ack_loop psn ?ws (d, qp) = (e, rest, d', qp')" by (metis prod_cases4)
  from ack_loop_frame [OF l] obtain gone p where
    g: "map swqe_view ?ws = map swqe_view (gone @ failed_of e @ rest)" "\<forall>w \<in> set gone. \<not> rd_atomic_wqe w"
      "qp' = upd_req (\<lambda>r. r \<lparr> free_swqe_head := free_swqe_head r @ gone, req_psn := p \<rparr>) qp"
    by blast
  from g(2) have "filter rd_atomic_wqe gone = []" by simp
  with swqe_view_eq [OF g(1)] assms show ?thesis
    by (cases e) (auto simp: Pair ack_sending_def l g(3) without_failed_def failed_of_def safe_defs)
qed

lemma fail_send_safe: "flushable q (pib_util_free_send_wqe w (snd s)) \<Longrightarrow> safe q (snd (fail_send w s))"
  by (simp add: fail_send_def split_beta safe_step)

lemma map_upd_pr_view:
  assumes "\<And>p. list_type (f p) = list_type p"
  shows "map swqe_view (map (upd_pr f) ws) = map swqe_view ws"
  using assms by (simp add: swqe_view_def rd_atomic_wqe_def)

lemma postpone_safe [safe_step]: "safe q (snd s) \<Longrightarrow> safe q (snd (postpone_local_ack_timeout s))"
  unfolding postpone_local_ack_timeout_def split_beta snd_conv
  by (erule safe_req) (simp_all add: map_upd_pr_view [unfolded map_map o_def] o_def swqe_view_def rd_atomic_wqe_def)

lemma receive_ACK_response_safe [safe_step]:
  assumes "safe q (snd s)"
  shows "safe q (snd (receive_ACK_response psn s))"
proof -
  obtain e t where w: "ack_waiting psn s = (e, t)" by (cases "ack_waiting psn s")
  note sw = ack_waiting_safe [OF assms, of psn, unfolded w without_failed_def, simplified]
  show ?thesis
  proof (cases e)
    case Ack_all
    with sw have t: "safe q (snd t)" by simp
    obtain e' t' where w': "ack_sending psn t = (e', t')" by (cases "ack_sending psn t")
    from ack_sending_safe [OF t, of psn] show ?thesis
      by (cases e') (simp_all add: receive_ACK_response_def w w' Ack_all without_failed_def fail_send_safe postpone_safe)
  qed (use sw in \<open>simp_all add: receive_ACK_response_def w fail_send_safe postpone_safe\<close>)
qed

text \<open>Changing, or completing, the request that a response belongs to.\<close>

lemma find_index_Some: "find_index P xs = Some i \<Longrightarrow> i < length xs \<and> P (xs ! i)"
  by (induction xs arbitrary: i) (auto split: if_splits)

definition valid_match :: "bool \<times> nat \<Rightarrow> pib_qp \<Rightarrow> bool" where
  "valid_match m qp \<longleftrightarrow> snd m < length (if fst m then waiting_swqe_head (requester qp) else sending_swqe_head (requester qp))"

lemma match_send_wqe_valid: "match_send_wqe qp psn = Some m \<Longrightarrow> valid_match m qp"
  by (auto simp: match_send_wqe_def valid_match_def split: option.splits dest!: find_index_Some)

lemma list_update_view:
  assumes "i < length ws" "swqe_view w = swqe_view (ws ! i)"
  shows "map swqe_view (ws[i := w]) = map swqe_view ws"
  using assms by (metis length_map list_update_id map_update nth_map)

lemma upd_matched_safe [safe_step]:
  assumes "safe q qp" "valid_match m qp" "\<And>p. list_type (f p) = list_type p"
  shows "safe q (upd_matched m f qp)"
  using assms(2,3) unfolding upd_matched_def split_beta
  by (intro safe_req [OF assms(1)])
    (auto simp: valid_match_def swqe_view_def rd_atomic_wqe_def intro!: list_update_view)

lemma upd_matched_frame [pib_frame]:
  "valid_match m' (upd_matched m f qp) = valid_match m' qp"
  "qp_attr (upd_matched m f qp) = qp_attr qp"
  "valid_match m qp \<Longrightarrow> matched m (upd_matched m f qp) = upd_pr f (matched m qp)"
  by (auto simp: valid_match_def upd_matched_def matched_def split_beta)

text \<open>A handler that may stop the machine: it does not, and leaves a well-formed queue pair.\<close>

definition runs :: "pib_qp \<Rightarrow> (pib_dev \<times> pib_qp) option \<Rightarrow> bool" where
  "runs q r \<longleftrightarrow> (case r of None \<Rightarrow> False | Some s \<Rightarrow> safe q (snd s))"

lemma runs_simps [simp]: "runs q None = False" "runs q (Some s) = safe q (snd s)"
  by (simp_all add: runs_def)

lemma valid_match_split:
  assumes "valid_match m qp"
  obtains (waiting) xs w ys where "m = (True, length xs)" "waiting_swqe_head (requester qp) = xs @ w # ys" "matched m qp = w"
  | (sending) xs w ys where "m = (False, length xs)" "sending_swqe_head (requester qp) = xs @ w # ys" "matched m qp = w"
proof -
  obtain b i where m: "m = (b, i)" by force
  show thesis
  proof (cases b)
    case True
    then have i: "i < length (waiting_swqe_head (requester qp))" using assms by (simp add: m valid_match_def)
    from True i show thesis
      by (intro waiting [OF _ id_take_nth_drop [OF i]]) (simp_all add: m matched_def)
  next
    case False
    then have i: "i < length (sending_swqe_head (requester qp))" using assms by (simp add: m valid_match_def)
    from False i show thesis
      by (intro sending [OF _ id_take_nth_drop [OF i]]) (simp_all add: m matched_def)
  qed
qed

text \<open>
  \<open>finish_rd_atomic\<close>: the counter was at least one, so the \<^verbatim>\<open>BUG_ON\<close> is not hit.
\<close>

lemma remove_matched_safe:
  assumes "safe q qp" "valid_match m qp" "rd_atomic_wqe (matched m qp)"
  shows "safe q (pib_util_free_send_wqe (matched m qp) (remove_matched m
      (upd_req (\<lambda>r. r \<lparr> req_nr_rd_atomic := req_nr_rd_atomic r - 1, req_psn := p \<rparr>) qp)))"
    and "1 \<le> req_nr_rd_atomic (requester qp)"
proof -
  from assms(2) have "safe q (pib_util_free_send_wqe (matched m qp) (remove_matched m
      (upd_req (\<lambda>r. r \<lparr> req_nr_rd_atomic := req_nr_rd_atomic r - 1, req_psn := p \<rparr>) qp))) \<and>
      1 \<le> req_nr_rd_atomic (requester qp)"
  proof (cases rule: valid_match_split)
    case (waiting xs w ys)
    with assms show ?thesis by (auto simp: remove_matched_def safe_defs)
  next
    case (sending xs w ys)
    with assms show ?thesis by (auto simp: remove_matched_def safe_defs)
  qed
  then show "safe q (pib_util_free_send_wqe (matched m qp) (remove_matched m
      (upd_req (\<lambda>r. r \<lparr> req_nr_rd_atomic := req_nr_rd_atomic r - 1, req_psn := p \<rparr>) qp)))"
    "1 \<le> req_nr_rd_atomic (requester qp)" by simp_all
qed

lemma finish_rd_atomic_safe:
  assumes "safe q (snd s)" "valid_match m (snd s)" "rd_atomic_wqe (matched m (snd s))"
  shows "runs q (finish_rd_atomic opcode m s)"
proof -
  obtain d qp where s: "s = (d, qp)" by force
  obtain d' where c: "complete_send opcode (matched m qp) (d, qp) = (d', qp)"
    by (metis complete_send_qp prod.collapse snd_conv)
  note r = remove_matched_safe [OF assms [unfolded s snd_conv]]
  from r(2) postpone_safe [of q "(d', _)"] r(1) show ?thesis
    by (simp add: s finish_rd_atomic_def c Let_def)
qed

lemma safe_req_counters [safe_step]:
  "safe q qp \<Longrightarrow> safe q (upd_req (req_nr_contig_read_acks_update f) qp)"
  "safe q qp \<Longrightarrow> safe q (upd_req (nr_contig_requests_update f) qp)"
  by (erule safe_req; simp)+

lemma upd_req_matched [simp]:
  "matched m (upd_req (req_nr_contig_read_acks_update f) qp) = matched m qp"
  "valid_match m (upd_req (req_nr_contig_read_acks_update f) qp) = valid_match m qp"
  by (simp_all add: matched_def valid_match_def split_beta)

lemma read_response_taken_safe:
  assumes "safe q (snd s)" "valid_match m (snd s)" "rd_atomic_wqe (matched m (snd s))"
  shows "runs q (read_response_taken m s)"
proof -
  obtain d qp where s: "s = (d, qp)" by force
  let ?f = "\<lambda>p. p \<lparr> local_ack_time := jiffies d + qp_local_ack_timeout qp,
      sent_packets := sent_packets p + 1, ack_packets := ack_packets p + 1 \<rparr>"
  let ?n = "req_nr_contig_read_acks (requester (upd_matched m ?f qp)) + 1"
  let ?qp = "upd_req (req_nr_contig_read_acks_update (\<lambda>_. if PIB_MAX_CONTIG_READ_ACKS div 3 < ?n then 0 else ?n))
      (upd_matched m ?f qp)"
  have u: "safe q ?qp" using assms by (auto simp: s intro!: safe_step)
  have "valid_match m ?qp" "rd_atomic_wqe (matched m ?qp)"
    using assms by (simp_all add: s pib_frame rd_atomic_wqe_def)
  with u have "runs q (finish_rd_atomic IB_WC_RDMA_READ m (d', ?qp))" for d'
    using finish_rd_atomic_safe [of q "(d', ?qp)" m IB_WC_RDMA_READ] by simp
  with u show ?thesis by (auto simp: s read_response_taken_def Let_def)
qed

lemma receive_RDMA_READ_response_safe:
  assumes "safe q (snd s)"
  shows "runs q (receive_RDMA_READ_response psn data s)"
proof -
  obtain d qp where s: "s = (d, qp)" by force
  show ?thesis
  proof (cases "match_send_wqe qp psn")
    case None
    with assms show ?thesis by (simp add: s receive_RDMA_READ_response_def)
  next
    case (Some m)
    then have v: "valid_match m qp" by (rule match_send_wqe_valid)
    have e: "safe q (upd_matched m (pr_status_update f) qp)" for f
      using assms v by (auto simp: s intro!: safe_step)
    have t: "swqe_opcode (matched m qp) = IB_WR_RDMA_READ \<Longrightarrow> runs q (read_response_taken m (d', qp))" for d'
      using read_response_taken_safe [of q "(d', qp)" m] assms v by (simp add: s rd_atomic_wqe_def)
    show ?thesis using assms e t
      by (auto simp: s Some receive_RDMA_READ_response_def Let_def split_beta)
  qed
qed

lemma receive_Atomic_response_safe:
  assumes "safe q (snd s)"
  shows "runs q (receive_Atomic_response psn data s)"
proof -
  obtain d qp where s: "s = (d, qp)" by force
  show ?thesis
  proof (cases "match_send_wqe qp psn")
    case None
    with assms show ?thesis by (simp add: s receive_Atomic_response_def)
  next
    case (Some m)
    then have v: "valid_match m qp" by (rule match_send_wqe_valid)
    have e: "safe q (upd_matched m (pr_status_update f) qp)" for f
      using assms v by (auto simp: s intro!: safe_step)
    have t: "rd_atomic_wqe (matched m qp) \<Longrightarrow> runs q (finish_rd_atomic op m (d', qp))" for op d'
      using finish_rd_atomic_safe [of q "(d', qp)" m op] assms v by (simp add: s)
    then have t': "swqe_opcode (matched m qp) = IB_WR_ATOMIC_CMP_AND_SWP \<or>
        swqe_opcode (matched m qp) = IB_WR_ATOMIC_FETCH_AND_ADD \<Longrightarrow>
        runs q (finish_rd_atomic op m (d', qp))" for op d'
      by (auto simp: rd_atomic_wqe_def)
    show ?thesis using assms e t'
      by (auto simp: s Some receive_Atomic_response_def Let_def split_beta)
  qed
qed

lemma set_send_wqe_to_error_safe [safe_step]: "safe q qp \<Longrightarrow> safe q (set_send_wqe_to_error psn status qp)"
  by (auto simp: set_send_wqe_to_error_def split: option.split intro!: safe_step match_send_wqe_valid)


lemma rd_atomic_upd_pr: "rd_atomic_wqe (w \<lparr> processing := p \<rparr>) = rd_atomic_wqe w"
  by (simp add: rd_atomic_wqe_def)

lemma back_to_sending_safe [safe_step]:
  assumes "safe q qp"
  shows "safe q (back_to_sending qp)"
proof -
  let ?r = "requester qp"
  let ?m = "map (upd_pr (\<lambda>p. p \<lparr> sent_packets := ack_packets p \<rparr>))"
  let ?ws = "?m (map (upd_pr (list_type_update (\<lambda>_. PIB_SWQE_SENDING))) (waiting_swqe_head ?r) @ sending_swqe_head ?r)"
  have ids: "map swqe_trace_id ?ws = map swqe_trace_id (waiting_swqe_head ?r @ sending_swqe_head ?r)"
    and rd: "length (filter rd_atomic_wqe ?ws) = length (filter rd_atomic_wqe (waiting_swqe_head ?r @ sending_swqe_head ?r))"
    and len: "length ?ws = length (waiting_swqe_head ?r) + length (sending_swqe_head ?r)"
    by (simp_all add: filter_map o_def rd_atomic_upd_pr)
  have lt: "\<forall>w \<in> set ?ws. list_type (processing w) = PIB_SWQE_SENDING"
    and lo: "\<forall>w \<in> set ?ws. \<not> local_only_request w"
    using assms by (auto simp: safe_def req_wf_def all_swqes_def)
  have "back_to_sending qp = upd_req (\<lambda>r. r \<lparr> sending_swqe_head := ?ws,
      nr_sending_swqe := nr_sending_swqe r + int (length (waiting_swqe_head r)),
      nr_waiting_swqe := nr_waiting_swqe r - int (length (waiting_swqe_head r)), waiting_swqe_head := [] \<rparr>) qp"
    by (simp add: back_to_sending_def)
  moreover define vs where "vs = ?ws"
  ultimately have b: "back_to_sending qp = upd_req (\<lambda>r. r \<lparr> sending_swqe_head := vs,
      nr_sending_swqe := nr_sending_swqe r + int (length (waiting_swqe_head r)),
      nr_waiting_swqe := nr_waiting_swqe r - int (length (waiting_swqe_head r)), waiting_swqe_head := [] \<rparr>) qp"
    by simp
  note vs = ids [folded vs_def] rd [folded vs_def] len [folded vs_def] lt [folded vs_def] lo [folded vs_def]
  show ?thesis unfolding b using assms vs
    by (simp add: safe_def keeps_entries_def qp_inv_def swqe_ids_def rwqe_count_def req_wf_def all_swqes_def ball_Un
        ac_simps del: mset_map)
qed

lemma retry_send_safe [safe_step]:
  assumes "safe q qp"
  shows "safe q (retry_send t qp)"
proof -
  have b: "safe q (back_to_sending qp)" using assms by (rule safe_step)
  then show ?thesis
    by (auto simp: retry_send_def Let_def swqe_view_def rd_atomic_upd_pr split: list.split intro!: safe_req [OF b])
qed

lemma check_sq_drained_safe [safe_step]:
  assumes "safe q (snd s)"
  shows "safe q (snd (check_sq_drained s))"
proof -
  have "safe q ((snd s) \<lparr> issue_sq_drained := True \<rparr>)"
    by (rule safe_cong [OF assms]) (use safe_rsp_wf [OF assms] in simp_all)
  with assms show ?thesis by (simp add: check_sq_drained_def split_beta Let_def pib_frame)
qed

text \<open>The opcodes that the table marks as acknowledgements are those the switch knows.\<close>

definition response_opcodes :: "u8 set" where
  "response_opcodes = {IB_OPCODE_ACKNOWLEDGE, IB_OPCODE_RDMA_READ_RESPONSE_FIRST, IB_OPCODE_RDMA_READ_RESPONSE_LAST,
     IB_OPCODE_RDMA_READ_RESPONSE_ONLY, IB_OPCODE_RDMA_READ_RESPONSE_MIDDLE, IB_OPCODE_ATOMIC_ACKNOWLEDGE}"

lemma response_by_opcode_safe:
  assumes "safe q (snd s)" "OpCode \<in> response_opcodes"
  shows "runs q (response_by_opcode OpCode psn data s)"
proof -
  have "runs q f \<Longrightarrow> runs q (map_option check_sq_drained f)" for f
    by (cases f) (auto intro: check_sq_drained_safe)
  then show ?thesis unfolding response_by_opcode_def
    using assms receive_ACK_response_safe [OF assms(1)] receive_RDMA_READ_response_safe [OF assms(1)]
      receive_Atomic_response_safe [OF assms(1)]
    by (auto simp: response_opcodes_def check_sq_drained_safe)
qed

lemma receive_response_safe:
  assumes "safe q (snd s)" "bth_OpCode bth \<in> response_opcodes"
  shows "runs q (receive_response bth data s)"
proof -
  obtain d qp where s: "s = (d, qp)" by force
  let ?qp = "upd_req (nr_contig_requests_update (\<lambda>_. 0)) qp"
  have q: "safe q ?qp" using assms(1) by (auto simp: s intro: safe_step)
  have r: "runs q (response_by_opcode (bth_OpCode bth) psn data' (d, qp'))"
    if "safe q qp'" for psn data' qp'
    using response_by_opcode_safe [of q "(d, qp')"] that assms(2) by simp
  have n: "safe q (case nak_status syndrome of None \<Rightarrow> ?qp | Some status \<Rightarrow> set_send_wqe_to_error psn status ?qp)"
    for syndrome psn using q by (auto split: option.split intro: safe_step)
  show ?thesis unfolding receive_response_def s Let_def
    using assms(1) q r [OF q] r [OF n] retry_send_safe [OF q] by (auto simp: s)
qed

lemma known_opcode:
  assumes "unat OpCode < 21"
  shows "pib_opcode_is_acknowledge oob OpCode \<Longrightarrow> OpCode \<in> response_opcodes"
    and "\<not> pib_opcode_is_acknowledge oob OpCode \<Longrightarrow> OpCode \<in> send_opcodes \<union> write_opcodes \<union>
      {IB_OPCODE_RDMA_READ_REQUEST, IB_OPCODE_COMPARE_SWAP, IB_OPCODE_FETCH_ADD}"
proof -
  have "OpCode = of_nat (unat OpCode)" by simp
  moreover have "unat OpCode \<in> set [0..<21]" using assms by simp
  ultimately have "OpCode \<in> set (map of_nat [0..<21])" by (metis image_eqI list.set_map)
  then have "OpCode \<in> {0, 1, 2, 3, 4, 5, 6, 7, 8, 9, 10, 11, 12, 13, 14, 15, 16, 17, 18, 19, 20}"
    by (simp add: upt_rec)
  then show "pib_opcode_is_acknowledge oob OpCode \<Longrightarrow> OpCode \<in> response_opcodes"
    and "\<not> pib_opcode_is_acknowledge oob OpCode \<Longrightarrow> OpCode \<in> send_opcodes \<union> write_opcodes \<union>
      {IB_OPCODE_RDMA_READ_REQUEST, IB_OPCODE_COMPARE_SWAP, IB_OPCODE_FETCH_ADD}"
    by (auto simp: pib_opcode_is_acknowledge_def attr_OpCode_def attr_OpCode_table_def response_opcodes_def)
qed

section \<open>Incoming packets\<close>

lemma execute_request_None:
  assumes "execute_request psn OpCode lrh bth data s = None"
  shows "OpCode \<notin> send_opcodes \<union> write_opcodes \<union>
    {IB_OPCODE_RDMA_READ_REQUEST, IB_OPCODE_COMPARE_SWAP, IB_OPCODE_FETCH_ADD}"
  using assms unfolding execute_request_def by (metis UnE insertE option.distinct(1) empty_iff)

lemma receive_rc_safe:
  assumes "safe q (snd s)" "unat (bth_OpCode bth) < 21 \<or> bth_OpCode bth = PIB_OPCODE_CNP_SEND_NOTIFY"
  shows "runs q (pib_receive_rc_qp_incoming_message port_num lrh bth data s)"
proof (cases "bth_OpCode bth = PIB_OPCODE_CNP_SEND_NOTIFY")
  case True
  then show ?thesis
    using assms(1) receive_cnp_notify_safe [OF assms(1)] by (simp add: pib_receive_rc_qp_incoming_message_def)
next
  case False
  with assms(2) have o: "unat (bth_OpCode bth) < 21" by simp
  show ?thesis
  proof (cases "pib_opcode_is_acknowledge (attr_oob (module (fst s))) (bth_OpCode bth)")
    case True
    with False assms(1) receive_response_safe [OF assms(1) known_opcode(1) [OF o True], of data] show ?thesis
      by (simp add: pib_receive_rc_qp_incoming_message_def)
  next
    case ack: False
    have "execute_request psn (bth_OpCode bth) lrh bth data t \<noteq> None" for psn t
      using known_opcode(2) [OF o ack] execute_request_None by blast
    then have "receive_request lrh bth data s \<noteq> None"
      by (simp add: receive_request_def Let_def del: not_None_eq)
    then obtain s' where "receive_request lrh bth data s = Some s'" by blast
    with False ack assms(1) receive_request_safe [OF assms(1)] show ?thesis
      by (simp add: pib_receive_rc_qp_incoming_message_def)
  qed
qed

text \<open>A datagram takes its receive entry off the list before anything else.\<close>

definition lacks_rwqe :: "pib_qp \<Rightarrow> pib_qp \<Rightarrow> bool" where
  "lacks_rwqe q qp \<longleftrightarrow> safe qp qp \<and> qp_type qp = qp_type q \<and> swqe_ids qp = swqe_ids q \<and> qp_init_attr qp = qp_init_attr q \<and>
     (init_srq (qp_init_attr q) = None \<longrightarrow> Suc (rwqe_count qp) = rwqe_count q)"

lemma lacks_rwqe_step: "lacks_rwqe q qp \<Longrightarrow> safe qp qp' \<Longrightarrow> lacks_rwqe q qp'"
  by (auto simp: lacks_rwqe_def safe_def keeps_entries_def)

lemma take_rwqe_safe:
  assumes "take_rwqe (d, qp) = (r, d', qp')" "safe q qp"
  shows "case r of None \<Rightarrow> safe q qp' | Some w \<Rightarrow> lacks_rwqe q qp'"
  using assms
  by (cases "init_srq (qp_init_attr qp)")
    (auto simp: take_rwqe_def lacks_rwqe_def safe_def keeps_entries_def qp_inv_def swqe_ids_def rwqe_count_def
      rsp_wf_def split: prod.splits list.splits option.splits)

lemma give_back_rwqe:
  assumes "lacks_rwqe q qp"
  shows "safe q (snd (pib_util_free_recv_wqe w (d, qp)))"
  using assms
  by (cases "init_srq (qp_init_attr qp)")
    (auto simp: free_recv_wqe_simps lacks_rwqe_def safe_def keeps_entries_def qp_inv_def swqe_ids_def rwqe_count_def
      rsp_wf_def)

lemma safe_qp_fields [safe_step]:
  "safe q qp \<Longrightarrow> safe q (qp \<lparr> push_rcqe := b \<rparr>)"
  "safe q qp \<Longrightarrow> safe q (qp \<lparr> qp_state := st \<rparr>)"
  "safe q qp \<Longrightarrow> safe q (upd_attr f qp)"
  by (frule safe_rsp_wf, erule safe_cong, simp_all)+

lemma ud_receive_error_safe:
  assumes "lacks_rwqe q (snd s)"
  shows "safe q (snd (ud_receive_error status w s))"
proof -
  obtain d qp where s: "s = (d, qp)" by force
  have l: "lacks_rwqe q qp" and self: "safe qp qp" using assms by (simp_all add: s lacks_rwqe_def)
  have "safe qp (snd (pib_util_flush_qp False (d', qp \<lparr> qp_state := st \<rparr>)) \<lparr> push_rcqe := True \<rparr>)" for d' st
    using self by (auto intro!: safe_step)
  moreover have "safe qp (qp \<lparr> push_rcqe := True \<rparr>)" using self by (rule safe_step)
  ultimately show ?thesis
    by (auto simp: s ud_receive_error_def Let_def split_beta intro!: give_back_rwqe l intro: lacks_rwqe_step [OF l])
qed

lemma receive_ud_safe:
  assumes "safe q (snd s)"
  shows "safe q (snd (pib_receive_ud_qp_incoming_message port_num lrh grh bth data s))"
proof -
  obtain r d qp where t: "take_rwqe s = (r, d, qp)" by (metis prod_cases3)
  show ?thesis
  proof (cases r)
    case None
    with t assms take_rwqe_safe [of "fst s" "snd s" r d qp q] show ?thesis
      by (simp add: pib_receive_ud_qp_incoming_message_def Let_def)
  next
    case (Some w)
    with t assms take_rwqe_safe [of "fst s" "snd s" r d qp q] have l: "lacks_rwqe q qp" by simp
    then have "safe qp (upd_attr f (qp \<lparr> push_rcqe := True \<rparr>))" for f
      by (auto simp: lacks_rwqe_def intro!: safe_step)
    note done' = give_back_rwqe [OF lacks_rwqe_step [OF l this]] give_back_rwqe [OF l]
    show ?thesis
      using assms done' ud_receive_error_safe [of q "(_, qp)"] l
      by (auto simp: pib_receive_ud_qp_incoming_message_def Let_def t Some split_beta)
  qed
qed

end
