(* ===== verification/Pib_QP_Run.thy ===== *)
theory Pib_QP_Run
  imports Pib_QP_Wf
begin

text \<open>
  The requester's side, the verbs, and all of it together: \<open>protocol_step\<close> is the relation of
  everything that happens to one queue pair.  Shown here: well-formedness (\<open>Pib_QP_Wf\<close>) is an
  invariant of it, and no \<^verbatim>\<open>BUG\<close> is reached; and what goes wrong with local operations, which are
  left out of the relation.
\<close>

section \<open>The requester\<close>

text \<open>A request that left the sending list and is not free yet.\<close>

definition lacks_swqe :: "pib_qp \<Rightarrow> pib_send_wqe \<Rightarrow> pib_qp \<Rightarrow> bool" where
  "lacks_swqe q w qp \<longleftrightarrow> flushable qp qp \<and> qp_type qp = qp_type q \<and> swqe_ids q = add_mset (swqe_trace_id w) (swqe_ids qp) \<and>
     qp_init_attr qp = qp_init_attr q \<and> (init_srq (qp_init_attr q) = None \<longrightarrow> rwqe_count qp = rwqe_count q) \<and>
     \<not> local_only_request w"

lemma free_lacking_swqe:
  assumes "lacks_swqe q w qp" "safe qp qp'"
  shows "safe q (pib_util_free_send_wqe w qp')"
  using assms by (auto simp: lacks_swqe_def safe_defs)

definition same_but_processing :: "pib_send_wqe \<Rightarrow> pib_send_wqe \<Rightarrow> bool" where
  "same_but_processing w w' \<longleftrightarrow> swqe_trace_id w' = swqe_trace_id w \<and> swqe_opcode w' = swqe_opcode w \<and>
     local_only_request w' = local_only_request w"

lemma leave_sending_lacks:
  assumes "safe q qp" "sending_swqe_head (requester qp) = w # ws" "same_but_processing w w'"
    and "leave_sending w' qp = (w'', qp')"
  shows "lacks_swqe q w'' qp'" and "\<not> rd_atomic_wqe w \<Longrightarrow> safe qp' qp'"
proof -
  have w: "swqe_trace_id w'' = swqe_trace_id w" "local_only_request w'' = local_only_request w"
    and qp': "qp' = upd_req (\<lambda>r. r \<lparr> sending_swqe_head := ws, nr_sending_swqe := nr_sending_swqe r - 1 \<rparr>) qp"
    using assms(2-4) by (auto simp: leave_sending_def same_but_processing_def)
  from assms(1,2) show "lacks_swqe q w'' qp'"
    unfolding lacks_swqe_def qp' by (simp add: w safe_def flushable_def keeps_entries_def qp_inv_def swqe_ids_def
        rwqe_count_def req_wf_def all_swqes_def)
  from assms(1,2) show "safe qp' qp'" if "\<not> rd_atomic_wqe w"
    using that unfolding qp' by (simp add: safe_def keeps_entries_def qp_inv_def req_wf_def all_swqes_def)
qed

text \<open>What processing the first request of the sending list gives: the result of putting it in its place.\<close>

definition placed :: "pib_qp \<Rightarrow> (bool \<times> pib_send_wqe \<times> pib_dev \<times> pib_qp) option \<Rightarrow> bool" where
  "placed q r \<longleftrightarrow> (case r of None \<Rightarrow> False
     | Some (_, w, d, qp) \<Rightarrow> (case place_send_wqe w qp of None \<Rightarrow> False | Some qp' \<Rightarrow> safe q qp'))"

lemma placed_simp [simp]:
  "placed q (Some (b, w, s)) \<longleftrightarrow> (case place_send_wqe w (snd s) of None \<Rightarrow> False | Some qp' \<Rightarrow> safe q qp')"
  "\<not> placed q None"
  by (cases s; simp add: placed_def)+

lemma placed_flushed:
  assumes "safe q qp" "sending_swqe_head (requester qp) = w # ws" "same_but_processing w w'"
    and "leave_sending w' qp = (w'', qp')"
  shows "placed q (Some (b, w'', pib_util_flush_qp send_only (d, qp' \<lparr> qp_state := st \<rparr>)))"
proof -
  have l: "lacks_swqe q w'' qp'" by (rule leave_sending_lacks(1) [OF assms])
  then have "flushable qp' (qp' \<lparr> qp_state := st \<rparr>)"
    by (auto simp: lacks_swqe_def flushable_def elim: keeps_entries_cong)
  then have "safe qp' (snd (pib_util_flush_qp send_only (d, qp' \<lparr> qp_state := st \<rparr>)))"
    by (intro flush_qp_safe) simp
  from free_lacking_swqe [OF l this] assms(4) show ?thesis
    by (auto simp: place_send_wqe_def leave_sending_def)
qed

lemma send_wr_error_placed:
  assumes "safe q (snd s)" "sending_swqe_head (requester (snd s)) = w # ws" "same_but_processing w w'"
    and "qp_type (snd s) \<in> {IB_QPT_RC, IB_QPT_UD, IB_QPT_GSI, IB_QPT_SMI}"
  shows "placed q (send_wr_error w' s)"
proof -
  obtain d qp where s: "s = (d, qp)" by force
  obtain w'' qp' where l: "leave_sending w' qp = (w'', qp')" by force
  then have "qp_type qp' = qp_type qp" by (auto simp: leave_sending_def)
  with placed_flushed [OF assms(1-3) [unfolded s snd_conv] l] assms(4) show ?thesis
    by (auto simp: s send_wr_error_def l simp del: placed_simp)
qed

lemma ud_completion_error_placed:
  assumes "safe q (snd s)" "sending_swqe_head (requester (snd s)) = w # ws" "same_but_processing w w'"
    and "list_type (processing w') = PIB_SWQE_SENDING"
  shows "placed q (ud_completion_error status w' s)"
proof -
  obtain d qp where s: "s = (d, qp)" by force
  obtain w'' qp' where l: "leave_sending w' qp = (w'', qp')" by force
  then have "leave_sending w' (qp \<lparr> qp_state := IB_QPS_SQE \<rparr>) = (w'', qp' \<lparr> qp_state := IB_QPS_SQE \<rparr>)"
    by (auto simp: leave_sending_def)
  with placed_flushed [OF assms(1-3) [unfolded s snd_conv] l] assms(4) show ?thesis
    by (simp add: s ud_completion_error_def Let_def del: placed_simp)
qed

lemma ud_address_send:
  "ud_address w d qp = Some ah \<Longrightarrow> swqe_opcode w = IB_WR_SEND \<or> swqe_opcode w = IB_WR_SEND_WITH_IMM"
  by (simp add: ud_address_def split: if_splits)

lemma process_ud_placed:
  assumes "safe q (snd s)" "sending_swqe_head (requester (snd s)) = w # ws" "same_but_processing w w'"
    and "list_type (processing w') = PIB_SWQE_SENDING"
  shows "placed q (pib_process_ud_qp_request stale w' s)"
proof -
  obtain d qp where s: "s = (d, qp)" by force
  note e = ud_completion_error_placed [of q "(_, qp)" w ws w', OF _ _ assms(3,4)]
  show ?thesis
  proof (cases "ud_address w' d qp")
    case None
    with e assms(1,2) show ?thesis by (simp add: s pib_process_ud_qp_request_def del: placed_simp)
  next
    case (Some ah)
    let ?qp = "upd_attr (\<lambda>a. a \<lparr> sq_psn := sq_psn a + 1 \<rparr>) qp"
    have q: "safe q ?qp" using assms(1) by (auto simp: s intro: safe_step)
    obtain w'' qp' where l: "leave_sending w' ?qp = (w'', qp')" by force
    have "\<not> rd_atomic_wqe w"
      using ud_address_send [OF Some] assms(3) by (auto simp: rd_atomic_wqe_def same_but_processing_def)
    with leave_sending_lacks [OF q _ assms(3) l] assms(2) have "safe q (pib_util_free_send_wqe w'' qp')"
      by (auto simp: s intro: free_lacking_swqe)
    moreover have "list_type (processing w'') = PIB_SWQE_FREE" using l by (auto simp: leave_sending_def)
    ultimately have ok: "placed q (Some (b, w'', complete_send op w'' (d', qp')))" for b op d'
      by (simp add: place_send_wqe_def)
    show ?thesis using assms(1,2) e ok
      by (auto simp: s pib_process_ud_qp_request_def Some Let_def l split_beta simp del: placed_simp)
  qed
qed

definition only_contig :: "pib_qp \<Rightarrow> pib_qp \<Rightarrow> bool" where
  "only_contig qp qp' \<longleftrightarrow> (\<exists>n. qp' = upd_req (nr_contig_requests_update (\<lambda>_. n)) qp)"

lemma only_contigI [simp]: "only_contig qp qp" "only_contig qp (upd_req (nr_contig_requests_update f) qp)"
  unfolding only_contig_def
  by (auto intro: exI [of _ "nr_contig_requests (requester qp)"] exI [of _ "f (nr_contig_requests (requester qp))"])

lemma only_contig_trans: "only_contig a b \<Longrightarrow> only_contig b c \<Longrightarrow> only_contig a c"
  by (auto simp: only_contig_def)

lemma process_SEND_or_RDMA_WRITE_frame:
  "only_contig qp (snd (snd (process_SEND_or_RDMA_WRITE_request with_reth with_imm with_inv w p (d, qp))))"
  unfolding process_SEND_or_RDMA_WRITE_request_def prod.case Let_def
  by (cases with_reth) (simp_all add: split_beta)

lemma build_request_frame: "only_contig qp (snd (snd (build_request w (d, qp))))"
  unfolding build_request_def prod.case Let_def
  by (simp add: process_SEND_or_RDMA_WRITE_frame process_RDMA_READ_request_def process_Atomic_request_def Let_def
      split: option.split prod.split)

text \<open>A request of a connection stays where it is, or moves to the waiting list; only its progress changes.\<close>

lemma rc_request_packet_frame:
  assumes "rc_request_packet w (d, qp) = (b, w', d', qp')" "list_type (processing w) = PIB_SWQE_SENDING"
  shows "same_but_processing w w' \<and> list_type (processing w') \<in> {PIB_SWQE_SENDING, PIB_SWQE_WAITING} \<and>
    only_contig qp qp'"
proof -
  obtain status d1 qp1 where br: "build_request w (d, qp) = (status, d1, qp1)" by (metis prod_cases3)
  have n: "only_contig qp qp1" using build_request_frame [of qp w d] br by simp
  then have "only_contig qp (upd_req (nr_contig_requests_update f) qp1)" for f
    using only_contig_trans only_contigI(2) by blast
  with n show ?thesis using assms
    by (auto simp: rc_request_packet_def br Let_def skip_to_send_packet_def same_but_processing_def split: if_splits)
qed

lemma place_safe:
  assumes "safe q qp" "sending_swqe_head (requester qp) = w # ws" "same_but_processing w w'"
    and "list_type (processing w') \<in> {PIB_SWQE_SENDING, PIB_SWQE_WAITING}"
  shows "case place_send_wqe w' qp of None \<Rightarrow> False | Some qp' \<Rightarrow> safe q qp'"
proof -
  have "rd_atomic_wqe w' = rd_atomic_wqe w"
    using assms(3) by (simp add: same_but_processing_def rd_atomic_wqe_def)
  with assms show ?thesis
    by (auto simp: place_send_wqe_def same_but_processing_def safe_defs)
qed

lemma process_rc_placed:
  assumes "safe q (snd s)" "sending_swqe_head (requester (snd s)) = w # ws" "same_but_processing w w'"
    and "list_type (processing w') = PIB_SWQE_SENDING"
  shows "placed q (pib_process_rc_qp_request w' s)"
proof -
  obtain d qp where s: "s = (d, qp)" by force
  obtain b w'' d' qp' where r: "rc_request_packet w' (d, qp) = (b, w'', d', qp')" by (metis prod_cases4)
  from rc_request_packet_frame [OF r assms(4)] obtain n where
    f: "same_but_processing w' w''" "list_type (processing w'') \<in> {PIB_SWQE_SENDING, PIB_SWQE_WAITING}"
      "qp' = upd_req (nr_contig_requests_update (\<lambda>_. n)) qp"
    by (auto simp: only_contig_def)
  have "safe q qp'" unfolding f using assms(1) by (auto simp: s intro: safe_step)
  moreover have "\<not> local_only_request w'"
    using assms(1-3) by (auto simp: s safe_def req_wf_def all_swqes_def same_but_processing_def)
  ultimately show ?thesis
    using place_safe [of q qp' w ws w''] f assms(2,3) r
    by (simp add: s pib_process_rc_qp_request_def same_but_processing_def)
qed

text \<open>The transports that the driver implements.\<close>

definition known_transport :: "pib_qp \<Rightarrow> bool" where
  "known_transport qp \<longleftrightarrow> qp_type qp \<in> {IB_QPT_RC, IB_QPT_UD, IB_QPT_GSI, IB_QPT_SMI}"

lemma send_first_runs:
  assumes "safe q (snd s)" "known_transport (snd s)"
  shows "runs q (send_first stale now s)"
proof -
  obtain d qp where s: "s = (d, qp)" by force
  show ?thesis
  proof (cases "sending_swqe_head (requester qp)")
    case Nil
    with assms show ?thesis by (simp add: s send_first_def)
  next
    case (Cons w ws)
    let ?w = "upd_pr (schedule_time_update (\<lambda>_. now)) w"
    have t: "list_type (processing ?w) = PIB_SWQE_SENDING"
      using assms(1) Cons by (simp add: s safe_def req_wf_def)
    have "placed q (process_send_wr stale ?w (d, qp))"
      using assms Cons t send_wr_error_placed [of q "(d, qp)" w ws ?w] process_rc_placed [of q "(d, qp)" w ws ?w]
        process_ud_placed [of q "(d, qp)" w ws ?w stale]
      by (auto simp: s process_send_wr_def known_transport_def same_but_processing_def simp del: placed_simp)
    then show ?thesis using assms(1)
      by (auto simp: s send_first_def Cons placed_def split: option.splits)
  qed
qed

lemma process_new_send_wr_safe:
  assumes "process_new_send_wr now qp = Some qp'" "safe q qp"
  shows "safe q qp' \<and> qp_type qp' = qp_type qp"
proof -
  from assms(1) obtain w ws where sub: "submitted_swqe_head (requester qp) = w # ws"
    by (auto simp: process_new_send_wr_def split: if_splits list.splits)
  define w' where "w' = start_request now qp w"
  have w': "swqe_trace_id w' = swqe_trace_id w" "local_only_request w' = local_only_request w"
    "rd_atomic_wqe w' = rd_atomic_wqe w" "list_type (processing w') = PIB_SWQE_SENDING"
    by (simp_all add: w'_def start_request_def Let_def rd_atomic_wqe_def)
  have qp': "qp' = upd_req (\<lambda>r. r \<lparr> req_nr_rd_atomic := (if rd_atomic_wqe w then req_nr_rd_atomic r + 1 else req_nr_rd_atomic r),
      submitted_swqe_head := ws, nr_submitted_swqe := nr_submitted_swqe r - 1,
      sending_swqe_head := sending_swqe_head r @ [w'], nr_sending_swqe := nr_sending_swqe r + 1,
      req_expected_psn := req_expected_psn r + all_packets (processing w') \<rparr>) qp"
    using assms(1) sub by (simp add: process_new_send_wr_def w'_def rd_atomic_wqe_def Let_def split: if_splits)
  from assms(2) sub show ?thesis unfolding qp'
    by (simp add: w' safe_def keeps_entries_def qp_inv_def swqe_ids_def rwqe_count_def req_wf_def all_swqes_def ball_Un)
qed

lemma first_sending_runs:
  assumes "safe q (snd s)" "known_transport (snd s)"
  shows "runs q (first_sending stale now s)"
proof -
  obtain d qp where s: "s = (d, qp)" by force
  show ?thesis
  proof (cases "process_new_send_wr (jiffies d) qp")
    case None
    with assms send_first_runs [OF assms] show ?thesis by (simp add: s first_sending_def)
  next
    case (Some qp')
    with assms send_first_runs [OF assms] send_first_runs [of q "(d, qp')"] process_new_send_wr_safe [OF Some]
    show ?thesis by (simp add: s first_sending_def known_transport_def)
  qed
qed

lemma retry_waiting_safe:
  assumes "safe q (snd s)" "waiting_swqe_head (requester (snd s)) \<noteq> []"
  shows "safe q (snd (retry_waiting now s))" "qp_type (snd (retry_waiting now s)) = qp_type (snd s)"
proof -
  obtain d qp where s: "s = (d, qp)" by force
  let ?f = "waiting_swqe_head_update (\<lambda>ws. upd_pr (\<lambda>p. p \<lparr> retry_cnt := retry_cnt p - 1,
      local_ack_time := now + PIB_SCHED_TIMEOUT \<rparr>) (hd ws) # tl ws)"
  have "map swqe_view (waiting_swqe_head (?f (requester qp))) = map swqe_view (waiting_swqe_head (requester qp))"
    using assms(2) by (cases "waiting_swqe_head (requester qp)") (simp_all add: s swqe_view_def rd_atomic_upd_pr)
  then have "safe q (upd_req ?f qp)" using assms(1) by (intro safe_req) (simp_all add: s)
  then show "safe q (snd (retry_waiting now s))" by (auto simp: s retry_waiting_def intro: safe_step)
  show "qp_type (snd (retry_waiting now s)) = qp_type (snd s)"
    by (simp add: s retry_waiting_def back_to_sending_def)
qed

lemma run_requester_runs:
  assumes "safe q (snd s)" "known_transport (snd s)"
  shows "runs q (run_requester stale now s)"
proof -
  obtain d qp where s: "s = (d, qp)" by force
  show ?thesis
  proof (cases "waiting_swqe_head (requester qp)")
    case Nil
    with assms first_sending_runs [OF assms] show ?thesis by (simp add: s run_requester_def)
  next
    case (Cons w ws)
    then have "\<not> local_only_request w"
      using assms(1) by (simp add: s safe_def req_wf_def all_swqes_def)
    with Cons assms first_sending_runs [OF assms] show ?thesis
      using retry_waiting_safe [OF assms(1)] first_sending_runs [of q "retry_waiting now s"]
      by (simp add: s run_requester_def known_transport_def)
  qed
qed

lemma generate_acknowledge_type: "qp_type (snd (snd (pib_generate_rc_qp_acknowledge s))) = qp_type (snd s)"
  by (cases s) (auto simp: pib_generate_rc_qp_acknowledge_def generate_RDMA_READ_response_def Let_def split_beta
      split: list.split pib_ack_type.split)

lemma run_qp_runs:
  assumes "safe q (snd s)" "known_transport (snd s)"
  shows "runs q (run_qp stale s)"
proof -
  obtain b t where g: "pib_generate_rc_qp_acknowledge s = (b, t)" by (cases "pib_generate_rc_qp_acknowledge s")
  then have "safe q (snd t)" "known_transport (snd t)"
    using generate_acknowledge_safe [OF assms(1)] generate_acknowledge_type [of s] assms(2)
    by (simp_all add: known_transport_def)
  with run_requester_runs [OF assms] run_requester_runs [OF this] show ?thesis
    by (cases b) (auto simp: run_qp_def g)
qed

section \<open>Posting\<close>

definition local_wr :: "ib_send_wr \<Rightarrow> bool" where
  "local_wr wr \<longleftrightarrow> swr_opcode wr = IB_WR_LOCAL_INV \<or> swr_opcode wr = IB_WR_FAST_REG_MR"

lemma fill_wr_union_local:
  "fill_wr_union d qp wr w = Some w' \<Longrightarrow> \<not> local_wr wr \<Longrightarrow> local_only_request w' = local_only_request w"
  by (auto simp: fill_wr_union_def local_wr_def split: if_splits ib_wr_opcode.splits)

lemma build_send_wqe_local:
  assumes "\<not> local_wr wr"
  shows "build_send_wqe cfu d qp len wr w = (Inl (e, w'), len') \<Longrightarrow> local_only_request w' = local_only_request w"
    and "build_send_wqe cfu d qp len wr w = (Inr w', len') \<Longrightarrow> local_only_request w' = local_only_request w"
  using assms
  by (auto simp: build_send_wqe_def Let_def fill_send_wqe_def
      split: prod.splits if_splits option.splits dest!: copy_inline_data_frame fill_wr_union_local)

lemma post_send_loop_safe:
  assumes "post_send_loop cfu len wrs (d, qp) = (r, bad, d', qp')"
    and "qp_state qp \<noteq> IB_QPS_ERR" "qp_state qp \<noteq> IB_QPS_SQE" "safe q qp" "\<not> list_ex local_wr wrs"
  shows "safe q qp'"
  using assms
proof (induction wrs arbitrary: len qp)
  case Nil
  then show ?case by simp
next
  case (Cons wr wrs)
  from Cons.prems(5) have loc: "\<not> local_wr wr" "\<not> list_ex local_wr wrs" by simp_all
  have part: "safe q (upd_req (free_swqe_head_update (\<lambda>_. w' # free)) qp)"
    if "free_swqe_head (requester qp) = w # free" "swqe_trace_id w' = swqe_trace_id w"
      "local_only_request w' = local_only_request w" for w w' free
    using Cons.prems(4) that
    by (simp add: safe_def keeps_entries_def qp_inv_def swqe_ids_def rwqe_count_def req_wf_def all_swqes_def)
  from Cons.prems(1-3) show ?case
  proof (cases rule: post_send_loop_cases)
    case (refused e)
    with Cons.prems(4) show ?thesis by simp
  next
    case (spoilt e w w' free len')
    with part build_send_wqe_local(1) [OF loc(1) spoilt(7)] show ?thesis by simp
  next
    case (posted w w' free len')
    note id = build_send_wqe_accepted [OF posted(2)] build_send_wqe_local(2) [OF loc(1) posted(2)]
    have "safe q (upd_req (\<lambda>r. r \<lparr> free_swqe_head := free, submitted_swqe_head := submitted_swqe_head r @ [w'],
        nr_submitted_swqe := nr_submitted_swqe r + 1 \<rparr>) qp)"
      using Cons.prems(4) posted(1) id
      by (simp add: safe_def keeps_entries_def qp_inv_def swqe_ids_def rwqe_count_def req_wf_def all_swqes_def ball_Un)
    from Cons.IH [OF posted(3) _ _ this loc(2)] Cons.prems(2,3) show ?thesis by simp
  qed
qed

lemma get_ready_to_send_safe [safe_step]: "safe q (snd s) \<Longrightarrow> safe q (snd (get_ready_to_send s))"
  by (frule safe_rsp_wf, erule safe_cong)
    (simp_all add: get_ready_to_send_eq pib_frame clear_contig_def all_swqes_def rsp_wf_def)

lemma post_send_safe:
  assumes "safe q (snd s)" "\<not> list_ex local_wr wrs"
  shows "safe q (snd (snd (snd (pib_post_send cfu wrs s))))"
proof -
  obtain d qp where s: "s = (d, qp)" by force
  obtain r bad d' qp' where l: "post_send_loop cfu 0 wrs (d, qp) = (r, bad, d', qp')" by (metis prod_cases4)
  have "safe q qp'"
    using post_send_loop_safe [OF l _ _ _ assms(2)] post_send_loop_flushed [of qp cfu 0 wrs d] assms(1) l
    by (cases "qp_state qp = IB_QPS_ERR \<or> qp_state qp = IB_QPS_SQE") (auto simp: s)
  with assms(1) show ?thesis
    by (auto simp: s pib_post_send_def l intro!: get_ready_to_send_safe)
qed

lemma post_recv_loop_safe:
  assumes "post_recv_loop len ret wrs (d, qp) = (r, bad, d', qp')"
    and "qp_state qp \<noteq> IB_QPS_RESET" "qp_state qp \<noteq> IB_QPS_ERR" "safe q qp" "init_srq (qp_init_attr qp) = None"
  shows "safe q qp'"
  using assms
proof (induction wrs arbitrary: len qp)
  case (Cons wr wrs)
  from Cons.prems(1-3) show ?case
  proof (cases rule: post_recv_loop_cases)
    case (refused e)
    with Cons.prems(4) show ?thesis by simp
  next
    case (spoilt e w w' free)
    with Cons.prems(4) show ?thesis
      by (simp add: safe_def keeps_entries_def qp_inv_def swqe_ids_def rwqe_count_def rsp_wf_def)
  next
    case (posted w w' free len')
    have "safe q (upd_rsp (\<lambda>r. r \<lparr> free_rwqe_head := free, rsp_recv_wqe_head := rsp_recv_wqe_head r @ [w'],
        rsp_nr_recv_wqe := rsp_nr_recv_wqe r + 1 \<rparr>) qp)"
      using Cons.prems(4) posted(1)
      by (simp add: safe_def keeps_entries_def qp_inv_def swqe_ids_def rwqe_count_def rsp_wf_def)
    from Cons.IH [OF posted(3) _ _ this] Cons.prems(2,3,5) show ?thesis by simp
  qed
qed simp

lemma post_recv_safe:
  assumes "safe q (snd s)"
  shows "safe q (snd (snd (snd (pib_post_recv wrs s))))"
proof -
  obtain d qp where s: "s = (d, qp)" by force
  obtain r bad d' qp' where l: "post_recv_loop 0 None wrs (d, qp) = (r, bad, d', qp')" by (metis prod_cases4)
  have "qp' = qp" if "qp_state qp = IB_QPS_RESET"
    using l that by (cases wrs) auto
  with post_recv_loop_safe [OF l] post_recv_loop_flushed [of qp 0 None wrs d] assms l show ?thesis
    by (cases "qp_state qp = IB_QPS_RESET \<or> qp_state qp = IB_QPS_ERR") (auto simp: s pib_post_recv_def)
qed

section \<open>Changing attributes and state\<close>

definition wf_view :: "pib_qp \<Rightarrow> _" where
  "wf_view qp = (entry_view qp, req_nr_rd_atomic (requester qp), rsp_nr_rd_atomic (responder qp),
     ack_head (responder qp), slots (responder qp))"

lemma safe_view: "safe q qp \<Longrightarrow> wf_view qp' = wf_view qp \<Longrightarrow> safe q qp'"
  by (frule safe_rsp_wf, erule safe_cong) (simp_all add: wf_view_def entry_view_def all_swqes_def rsp_wf_def)

lemma modify_qp_attrs_view: "wf_view (modify_qp_attrs d a attr_mask qp) = wf_view qp"
  unfolding modify_qp_attrs_def
proof (rule fold_steps_keep)
  fix flag step qp
  assume "(flag, step) \<in> set (modify_qp_steps d a)"
  then show "wf_view (step qp) = wf_view qp"
    unfolding modify_qp_steps_def by (auto simp: wf_view_def entry_view_def Let_def)
qed

lemma release_wqes_type: "qp_type (snd (release_wqes s)) = qp_type (snd s)"
proof -
  obtain d qp where s: "s = (d, qp)" by force
  have "qp_type (snd (fold pib_util_free_recv_wqe ws (d, qp'))) = qp_type qp'" for ws d qp'
    by (simp add: fold_free_recv_wqe_qp)
  then show ?thesis by (simp add: s release_wqes_def Let_def split_beta fold_free_send_wqe)
qed

lemma reset_qp_safe:
  assumes "safe q (snd s)"
  shows "safe q (snd (snd (reset_qp s)))"
proof -
  obtain d qp where s: "s = (d, qp)" by force
  obtain d1 qp1 where r: "release_wqes (d, qp) = (d1, qp1)" by force
  obtain n d2 where c: "remove_completions qp1 d1 = (n, d2)" by force
  let ?qp = "clear_contig (snd (pib_util_reschedule_qp (d2, reset_qp_attr d2 qp1)))"
  have k: "keeps_entries q ?qp"
    using keeps_entries_reset_qp [of s] assms reset_qp_eq [OF r c]
    by (auto simp: s safe_def keeps_entries_def)
  have "qp_type ?qp = qp_type q"
    using assms release_wqes_type [of "(d, qp)"] by (simp add: s r safe_def pib_frame reset_qp_attr_def)
  moreover have "req_wf (requester ?qp)" "rsp_wf (responder ?qp)"
    using release_wqes_qp [OF r] assms
    by (auto simp: s safe_def req_wf_def rsp_wf_def all_swqes_def clear_contig_def pib_frame reset_qp_attr_def)
  ultimately show ?thesis using k by (simp add: s reset_qp_eq [OF r c] safe_def)
qed

lemma enter_qp_state_safe:
  assumes "safe q (snd s)"
  shows "safe q (snd (snd (enter_qp_state new_state s)))"
proof -
  obtain d qp where s: "s = (d, qp)" by force
  have n: "safe q (qp \<lparr> qp_state := new_state \<rparr>)" using assms by (auto simp: s intro: safe_step)
  then have "safe q (qp \<lparr> qp_state := new_state, issue_comm_est := False \<rparr>)"
    by (rule safe_view) (simp add: wf_view_def entry_view_def)
  with n reset_qp_safe [of q "(d, qp \<lparr> qp_state := new_state \<rparr>)"] flush_qp_safe [of q "(d, qp \<lparr> qp_state := new_state \<rparr>)"]
  show ?thesis by (cases new_state) (auto simp: s enter_qp_state_def Let_def safe_flushable)
qed

lemma announce_drained_view: "wf_view (snd (announce_drained b s)) = wf_view (snd s)"
  by (cases s) (simp add: announce_drained_def pib_util_insert_async_qp_event_def pib_util_insert_async_qp_error_def
      callback_def wf_view_def entry_view_def)

lemma move_qp_state_safe:
  assumes "safe q (snd s)"
  shows "safe q (snd (snd (move_qp_state cur_state new_state drained s)))"
proof -
  let ?t = "snd (enter_qp_state new_state s)"
  let ?u = "announce_drained drained ?t"
  define v where "v = (if cur_state = IB_QPS_SQD \<and> new_state \<noteq> IB_QPS_SQD
    then (snd ?u) \<lparr> issue_sq_drained := False \<rparr> else snd ?u)"
  define pending where "pending = (new_state = IB_QPS_RTS \<and> get_send_wr_num (snd ?t) \<noteq> 0)"
  have m: "snd (move_qp_state cur_state new_state drained s) =
      (if pending then get_ready_to_send (fst ?u, v) else (fst ?u, v))"
    unfolding v_def pending_def move_qp_state_def by (simp only: Let_def split_beta fst_conv snd_conv prod.collapse)
  have "wf_view v = wf_view (snd ?u)" by (simp add: v_def wf_view_def entry_view_def)
  then have "safe q v"
    using safe_view [OF enter_qp_state_safe [OF assms, of new_state]] by (simp add: announce_drained_view)
  with m get_ready_to_send_safe [of q "(fst ?u, v)"] show ?thesis by simp
qed

lemma modify_qp_safe:
  assumes "safe q (snd s)"
  shows "safe q (snd (snd (pib_modify_qp okf m attr_mask s)))"
proof -
  obtain d qp where s: "s = (d, qp)" by force
  let ?qp = "modify_qp_attrs d (mod_attr m) attr_mask qp"
  have k: "safe q ?qp" using safe_view [of q qp] assms modify_qp_attrs_view by (simp add: s)
  obtain r d' qp' where m: "pib_modify_qp okf m attr_mask s = (r, d', qp')" by (metis prod_cases3)
  then obtain cur_state new_state drained where
    "modify_qp_from okf (mod_attr m) attr_mask cur_state new_state drained (d, qp) = (r, d', qp')"
    unfolding s pib_modify_qp_def Let_def split_conv by blast
  then show ?thesis
  proof (cases rule: modify_qp_from_cases)
    case (moved ret)
    with move_qp_state_safe [of q "(d, ?qp)" cur_state new_state drained] k m show ?thesis by simp
  qed (use k m assms in \<open>simp_all add: s\<close>)
qed

section \<open>Everything that happens to a queue pair\<close>

text \<open>
  One step: the rest of the device changes, a packet is received, the scheduler runs the queue
  pair, or a verb is called.  Of the packets for a connection, only those with an opcode of the
  driver's table are considered; behind the table the driver reads whatever is there.
\<close>

definition opcode_in_table :: "pib_qp \<Rightarrow> pib_packet_bth \<Rightarrow> bool" where
  "opcode_in_table qp bth \<longleftrightarrow> (qp_type qp \<noteq> IB_QPT_RC \<or> unat (bth_OpCode bth) < length attr_OpCode_table \<or>
     bth_OpCode bth = PIB_OPCODE_CNP_SEND_NOTIFY)"

inductive protocol_step :: "pib_dev \<times> pib_qp \<Rightarrow> pib_dev \<times> pib_qp \<Rightarrow> bool" where
  environment: "protocol_step (d, qp) (d', qp)"
| packet: "opcode_in_table (snd s) bth \<Longrightarrow> receive_on_qp port_num lrh grh bth data s = Some s' \<Longrightarrow>
    protocol_step s (pib_util_reschedule_qp s')"
| pass: "run_qp stale s = Some s' \<Longrightarrow> protocol_step s (pib_util_reschedule_qp s')"
| post_send: "\<not> list_ex local_wr wrs \<Longrightarrow> protocol_step s (snd (snd (pib_post_send cfu wrs s)))"
| post_recv: "protocol_step s (snd (snd (pib_post_recv wrs s)))"
| modify: "protocol_step s (snd (pib_modify_qp okf m attr_mask s))"
| flush: "protocol_step s (pib_util_flush_qp send_only s)"

lemma attr_OpCode_table_length: "length attr_OpCode_table = 21"
  by (simp add: attr_OpCode_table_def)

lemma receive_on_qp_runs:
  assumes "safe q (snd s)" "known_transport (snd s)" "opcode_in_table (snd s) bth"
  shows "runs q (receive_on_qp port_num lrh grh bth data s)"
  using assms receive_rc_safe [OF assms(1), of bth port_num lrh data] receive_ud_safe [OF assms(1)]
  by (auto simp: receive_on_qp_def known_transport_def opcode_in_table_def attr_OpCode_table_length)

lemma protocol_step_safe:
  assumes "protocol_step s s'" "safe q (snd s)" "known_transport q"
  shows "safe q (snd s')"
proof -
  have k: "known_transport (snd s)" using assms(2,3) by (simp add: safe_def known_transport_def)
  from assms(1) show ?thesis
  proof cases
    case (packet bth port_num lrh grh data t)
    with receive_on_qp_runs [OF assms(2) k packet(2), of port_num lrh grh data] show ?thesis by (simp add: reschedule_safe)
  next
    case (pass stale t)
    with run_qp_runs [OF assms(2) k, of stale] show ?thesis by (simp add: reschedule_safe)
  qed (use assms(2) in \<open>auto intro: post_send_safe post_recv_safe modify_qp_safe safe_step\<close>)
qed

definition qp_wf :: "pib_qp \<Rightarrow> bool" where
  "qp_wf qp \<longleftrightarrow> qp_inv qp \<and> req_wf (requester qp) \<and> rsp_wf (responder qp) \<and> known_transport qp"

lemma protocol_steps_safe:
  assumes "protocol_step\<^sup>*\<^sup>* s s'" "qp_wf (snd s)"
  shows "safe (snd s) (snd s')"
  using assms(1)
proof (induction rule: rtranclp_induct)
  case base
  from assms(2) show ?case by (simp add: qp_wf_def safe_def keeps_entries_refl)
next
  case (step t u)
  from protocol_step_safe [OF step(2,3)] assms(2) show ?case by (simp add: qp_wf_def)
qed

text \<open>
  C4. Well-formedness is an invariant of everything that happens to a queue pair.  Whatever
  packets arrive, however the scheduler runs it, whatever is posted (local operations apart),
  modified and flushed, and whatever else the device does in between: its send entries are
  together the ones it had, each exactly once; its counters are the lengths of their lists;
  the entries of the sending and of the waiting list are marked as such; and the READ and
  atomic operations in flight, as requester and as responder, are counted exactly.
\<close>

theorem protocol_keeps_queue_pair:
  assumes "protocol_step\<^sup>*\<^sup>* (d, qp) (d', qp')" "qp_wf qp"
  shows "qp_wf qp' \<and> keeps_entries qp qp' \<and> qp_type qp' = qp_type qp"
  using protocol_steps_safe [OF assms(1)] assms(2)
  by (simp add: safe_def qp_wf_def known_transport_def keeps_entries_def)

definition example_read_qp :: pib_qp where
  "example_read_qp = zero_qp \<lparr> qp_type := IB_QPT_RC, qp_state := IB_QPS_RTS,
     requester := zero_requester \<lparr> submitted_swqe_head := [zero_swqe \<lparr> swqe_opcode := IB_WR_RDMA_READ, swqe_trace_id := 5 \<rparr>],
       nr_submitted_swqe := 1, req_max_rd_atomic := 1 \<rparr> \<rparr>"

lemma example_read_qp_wf: "qp_wf example_read_qp"
  by (simp add: example_read_qp_def qp_wf_def qp_inv_def req_wf_def rsp_wf_def known_transport_def all_swqes_def
      zero_qp_def zero_requester_def zero_responder_def zero_swqe_def)

theorem protocol_keeps_queue_pair_witness:
  "swqe_ids (snd (pib_util_reschedule_qp (the (run_qp (\<lambda>_. 0) (blank_dev, example_read_qp))))) = {# 5 #}"
proof -
  have wf: "qp_wf example_read_qp" by (rule example_read_qp_wf)
  then have "runs example_read_qp (run_qp (\<lambda>_. 0) (blank_dev, example_read_qp))"
    by (intro run_qp_runs) (simp_all add: qp_wf_def safe_def keeps_entries_refl)
  then obtain s where s: "run_qp (\<lambda>_. 0) (blank_dev, example_read_qp) = Some s"
    by (cases "run_qp (\<lambda>_. 0) (blank_dev, example_read_qp)") auto
  obtain d' qp' where r: "pib_util_reschedule_qp s = (d', qp')" by force
  from pass [OF s] r have "protocol_step\<^sup>*\<^sup>* (blank_dev, example_read_qp) (d', qp')" by auto
  from protocol_keeps_queue_pair [OF this wf] r s show ?thesis
    by (simp add: keeps_entries_def)
      (simp add: swqe_ids_def example_read_qp_def zero_qp_def zero_requester_def)
qed

text \<open>
  C5. No \<^verbatim>\<open>BUG\<close> and no \<^verbatim>\<open>BUG_ON\<close> of the protocol is ever reached.  After whatever has happened to a
  well-formed queue pair (as above), the scheduler can run it, and it can receive any packet
  whose opcode is in the driver's table, without stopping the machine.
\<close>

theorem protocol_reaches_no_bug:
  assumes "protocol_step\<^sup>*\<^sup>* (d, qp) (d', qp')" "qp_wf qp"
  shows "run_qp stale (d'', qp') \<noteq> None \<and>
    (opcode_in_table qp' bth \<longrightarrow> receive_on_qp port_num lrh grh bth data (d'', qp') \<noteq> None)"
proof -
  have s: "safe qp (snd (d'', qp'))" and k: "known_transport (snd (d'', qp'))"
    using protocol_steps_safe [OF assms(1)] assms(2) by (simp_all add: safe_def qp_wf_def known_transport_def)
  show ?thesis
    using run_qp_runs [OF s k, of stale] receive_on_qp_runs [OF s k, of bth port_num lrh grh data]
    by (auto simp: runs_def split: option.splits)
qed

theorem protocol_reaches_no_bug_witness:
  "run_qp (\<lambda>_. 0) (blank_dev, snd (pib_util_flush_qp False (blank_dev, example_read_qp))) \<noteq> None"
proof -
  obtain d' qp' where f: "pib_util_flush_qp False (blank_dev, example_read_qp) = (d', qp')" by force
  from flush [of "(blank_dev, example_read_qp)" False] f
  have "protocol_step\<^sup>*\<^sup>* (blank_dev, example_read_qp) (d', qp')" by auto
  from protocol_reaches_no_bug [OF this example_read_qp_wf, of "\<lambda>_. 0" blank_dev] f show ?thesis by simp
qed

section \<open>Local operations\<close>

lemma flush_qp_waiting:
  "waiting_swqe_head (requester (snd (pib_util_flush_qp send_only s))) = []"
  "nr_waiting_swqe (requester (snd (pib_util_flush_qp send_only s))) = 0"
  using flush_sends_qp [of "fst s" "snd s"] flush_recvs_qp(1) [of "flush_sends s"]
  by (simp_all add: pib_util_flush_qp_def Let_def split_beta pib_frame)


definition example_failed_inv_qp :: pib_qp where
  "example_failed_inv_qp = zero_qp \<lparr> qp_type := IB_QPT_RC, qp_state := IB_QPS_RTS,
     requester := zero_requester \<lparr> waiting_swqe_head := [zero_swqe \<lparr> swqe_opcode := IB_WR_LOCAL_INV, local_only_request := True,
         processing := zero_processing \<lparr> list_type := PIB_SWQE_WAITING \<rparr> \<rparr>], nr_waiting_swqe := 1 \<rparr> \<rparr>"



definition example_reused_wqe :: pib_send_wqe where
  "example_reused_wqe = zero_swqe \<lparr> swqe_opcode := IB_WR_SEND, local_only_request := True,
     processing := zero_processing \<lparr> list_type := PIB_SWQE_SUBMITTED \<rparr> \<rparr>"

definition example_reused_qp :: pib_qp where
  "example_reused_qp = zero_qp \<lparr> qp_type := IB_QPT_RC, qp_state := IB_QPS_RTS,
     requester := zero_requester \<lparr> submitted_swqe_head := [example_reused_wqe], nr_submitted_swqe := 1 \<rparr> \<rparr>"


end
