(* ===== verification/Pib_Thread_Props.thy ===== *)
theory Pib_Thread_Props
  imports Pib_QP_Run Pib_QP_Create
begin

text \<open>
  Properties of the kernel thread: the work queue runs dry, although its handlers queue more
  work; what happens to the packet in the send buffer; and what stops the thread.
\<close>

section \<open>The work queue runs dry\<close>

text \<open>
  A handler fails the queue pairs that use its queue.  Flushing them can overflow further
  completion queues, each of which then queues its own work; but a queue overflows only once.
  So the work that is queued and the completion queues that can still overflow together only
  become fewer.
\<close>

definition used_cqs :: "pib_dev \<Rightarrow> nat set" where
  "used_cqs d = (\<Union>p \<in> set (obj_head (qp_list d)). {send_cq (qps d p), recv_cq (qps d p)})"

definition working_cqs :: "nat set \<Rightarrow> pib_dev \<Rightarrow> nat set" where
  "working_cqs C d = {c \<in> C. cq_state (cqs d c) = PIB_STATE_OK}"

definition work_left :: "nat set \<Rightarrow> pib_dev \<Rightarrow> nat" where
  "work_left C d = length (wq_head d) + card (working_cqs C d)"

definition calm :: "nat set \<Rightarrow> pib_dev \<Rightarrow> pib_dev \<Rightarrow> bool" where
  "calm C d d' \<longleftrightarrow> work_left C d' \<le> work_left C d \<and> qps d' = qps d \<and> qp_list d' = qp_list d"

lemma calm_refl [simp]: "calm C d d"
  by (simp add: calm_def)

lemma calm_trans: "calm C d d' \<Longrightarrow> calm C d' d'' \<Longrightarrow> calm C d d''"
  by (simp add: calm_def)

lemma calm_same:
  assumes "wq_head d' = wq_head d" "cqs d' = cqs d" "qps d' = qps d" "qp_list d' = qp_list d"
  shows "calm C d d'"
  using assms by (simp add: calm_def work_left_def working_cqs_def)

lemma insert_wc_qps:
  "qps (snd (insert_wc cq qp wc sol d)) = qps d" "qp_list (snd (insert_wc cq qp wc sol d)) = qp_list d"
  by (simp_all add: insert_wc_def Let_def callback_def pib_queue_work_def split: list.split)

lemma calm_insert_wc:
  assumes "finite C" "cq \<in> C"
  shows "calm C d (snd (insert_wc cq qp wc sol d))"
proof -
  have "work_left C (snd (insert_wc cq qp wc sol d)) \<le> work_left C d"
  proof (cases rule: insert_wc_cases [of d cq qp wc sol])
    case broken
    then show ?thesis by simp
  next
    case full
    let ?d = "snd (insert_wc cq qp wc sol d)"
    have "working_cqs C ?d = working_cqs C d - {cq}" "cq \<in> working_cqs C d"
      unfolding full(3) using full(1) assms by (auto simp: working_cqs_def pib_queue_work_def)
    moreover have "finite (working_cqs C d)" using assms(1) by (simp add: working_cqs_def)
    ultimately have "Suc (card (working_cqs C ?d)) = card (working_cqs C d)"
      by (metis card_Suc_Diff1)
    moreover have "length (wq_head ?d) = Suc (length (wq_head d))" unfolding full(3) by (simp add: pib_queue_work_def)
    ultimately show ?thesis by (simp add: work_left_def)
  next
    case (room cqe free d')
    have "working_cqs C d' = working_cqs C d" using room(1,4) by (auto simp: working_cqs_def)
    with room(3,6) show ?thesis by (simp add: work_left_def)
  qed
  then show ?thesis by (simp add: calm_def insert_wc_qps)
qed

lemma calm_insert_wc_error:
  assumes "finite C" "cq \<in> C"
  shows "calm C d (snd (pib_util_insert_wc_error cq qp wr_id status opcode d))"
proof -
  have "calm C d (snd (corrupt_wc wc d))" for wc
    by (intro calm_same) (simp_all add: corrupt_wc_def pib_random_def Let_def)
  from calm_trans [OF this calm_insert_wc [OF assms]] calm_insert_wc [OF assms] show ?thesis
    by (simp add: pib_util_insert_wc_error_def Let_def split_beta)
qed

lemma calm_flush_send_wqes:
  assumes "finite C"
  shows "calm C d (fst s) \<Longrightarrow> send_cq (snd s) \<in> C \<Longrightarrow> calm C d (fst (fold flush_send_wqe ws s))"
proof (induction ws arbitrary: s)
  case (Cons w ws)
  obtain d0 qp0 where s: "s = (d0, qp0)" by force
  have "calm C d (fst (flush_send_wqe w s))"
    using calm_trans [OF Cons.prems(1) calm_insert_wc_error [OF assms Cons.prems(2)]] by (simp add: s flush_send_wqe_def)
  moreover have "send_cq (snd (flush_send_wqe w s)) \<in> C"
    using Cons.prems(2) by (simp add: s flush_send_wqe_def pib_util_free_send_wqe_def)
  ultimately show ?case using Cons.IH by simp
qed simp

lemma calm_free_recv_wqe: "calm C d (fst s) \<Longrightarrow> calm C d (fst (pib_util_free_recv_wqe w s))"
  by (cases s) (auto simp: pib_util_free_recv_wqe_def calm_def work_left_def working_cqs_def split: option.split)

lemma free_recv_wqe_cqs_of_qp: "recv_cq (snd (pib_util_free_recv_wqe w s)) = recv_cq (snd s)"
  "send_cq (snd (pib_util_free_recv_wqe w s)) = send_cq (snd s)"
  by (cases s; simp add: pib_util_free_recv_wqe_def split: option.split)+

lemma calm_flush_recv_wqes:
  assumes "finite C"
  shows "calm C d (fst s) \<Longrightarrow> recv_cq (snd s) \<in> C \<Longrightarrow> calm C d (fst (fold flush_recv_wqe ws s))"
proof (induction ws arbitrary: s)
  case (Cons w ws)
  obtain d0 qp0 where s: "s = (d0, qp0)" by force
  have "calm C d (fst (flush_recv_wqe w s))"
    using calm_trans [OF Cons.prems(1) calm_insert_wc_error [OF assms Cons.prems(2)]]
    by (simp add: s flush_recv_wqe_def calm_free_recv_wqe)
  moreover have "recv_cq (snd (flush_recv_wqe w s)) \<in> C"
    using Cons.prems(2) by (simp add: s flush_recv_wqe_def free_recv_wqe_cqs_of_qp)
  ultimately show ?case using Cons.IH by simp
qed simp

lemma calm_flush_sends:
  assumes "finite C" "send_cq qp \<in> C"
  shows "calm C d (fst (flush_sends (d, qp)))"
proof -
  have step: "calm C d d1 \<and> qp1 = upd_req (\<lambda>r. r \<lparr> free_swqe_head := free_swqe_head r @ ws \<rparr>) qp0"
    if "fold flush_send_wqe ws (d0, qp0) = (d1, qp1)" "calm C d d0" "send_cq qp0 = send_cq qp" for ws d0 qp0 d1 qp1
    using that calm_flush_send_wqes [OF assms(1), of d "(d0, qp0)" ws] assms(2) fold_flush_send_wqe_qp [of ws d0 qp0]
    by (simp add: fold_free_send_wqe)
  show ?thesis
    unfolding flush_sends_def Let_def prod.case
    by (auto split: prod.split dest!: step)
qed

lemma calm_flush_recvs:
  assumes "finite C" "recv_cq (snd s) \<in> C" "calm C d (fst s)"
  shows "calm C d (fst (flush_recvs s))"
  using calm_flush_recv_wqes [OF assms(1,3,2)] by (cases s) (simp add: flush_recvs_def split_beta)

lemma flush_qp_cqs_of_qp:
  "send_cq (snd (pib_util_flush_qp send_only s)) = send_cq (snd s)"
  "recv_cq (snd (pib_util_flush_qp send_only s)) = recv_cq (snd s)"
proof -
  have f: "send_cq (snd (flush_recvs t)) = send_cq (snd t)" "recv_cq (snd (flush_recvs t)) = recv_cq (snd t)" for t
    using fold_flush_recv_wqe_qp [of "rsp_recv_wqe_head (responder (snd t))" "fst t" "snd t" "fst t"]
      fold_free_recv_wqe_qp [of "rsp_recv_wqe_head (responder (snd t))" "fst t" "snd t"]
    by (cases t; simp add: flush_recvs_def split_beta)+
  show "send_cq (snd (pib_util_flush_qp send_only s)) = send_cq (snd s)"
    "recv_cq (snd (pib_util_flush_qp send_only s)) = recv_cq (snd s)"
    using flush_sends_qp [of "fst s" "snd s"]
    by (simp_all add: pib_util_flush_qp_def Let_def split_beta pib_frame last_wqe_event_def clear_contig_def f)
qed

lemma calm_reschedule: "calm C d (fst s) \<Longrightarrow> calm C d (fst (pib_util_reschedule_qp s))"
  by (cases s) (simp add: calm_def work_left_def working_cqs_def pib_util_reschedule_qp_def Let_def split: option.split)

lemma calm_last_wqe_event: "calm C d (fst s) \<Longrightarrow> calm C d (fst (last_wqe_event s))"
  by (cases s) (simp add: calm_def work_left_def working_cqs_def last_wqe_event_def Let_def split_beta
      pib_util_insert_async_qp_event_def pib_util_insert_async_qp_error_def callback_def)

lemma calm_flush_qp:
  assumes "finite C" "send_cq qp \<in> C" "recv_cq qp \<in> C"
  shows "calm C d (fst (pib_util_flush_qp send_only (d, qp)))"
proof -
  let ?s = "flush_sends (d, qp)"
  have s: "calm C d (fst ?s)" using assms(1,2) by (rule calm_flush_sends)
  moreover have "recv_cq (snd ?s) \<in> C" using assms(3) by (simp add: flush_sends_qp)
  ultimately have "calm C d (fst (pib_util_reschedule_qp (last_wqe_event (flush_recvs ?s))))"
    by (intro calm_reschedule calm_last_wqe_event calm_flush_recvs assms(1))
  with s show ?thesis by (simp add: pib_util_flush_qp_def Let_def split_beta)
qed

text \<open>A whole handler: the queue pairs change, but not the queues they use.\<close>

definition settles :: "nat set \<Rightarrow> pib_dev \<Rightarrow> pib_dev \<Rightarrow> bool" where
  "settles C d d' \<longleftrightarrow> work_left C d' \<le> work_left C d \<and> qp_list d' = qp_list d \<and>
     (\<forall>p. send_cq (qps d' p) = send_cq (qps d p) \<and> recv_cq (qps d' p) = recv_cq (qps d p))"

lemma settles_trans: "settles C d d' \<Longrightarrow> settles C d' d'' \<Longrightarrow> settles C d d''"
  by (simp add: settles_def)

lemma settles_fail_qp:
  assumes "finite C" "send_cq (qps d p) \<in> C" "recv_cq (qps d p) \<in> C"
  shows "settles C d (fail_qp p d)"
proof -
  let ?qp = "(qps d p) \<lparr> qp_state := IB_QPS_ERR \<rparr>"
  obtain d1 qp1 where f: "pib_util_flush_qp False (d, ?qp) = (d1, qp1)" by force
  have "calm C d d1" using calm_flush_qp [of C ?qp d False] assms f by simp
  moreover have "send_cq qp1 = send_cq (qps d p)" "recv_cq qp1 = recv_cq (qps d p)"
    using flush_qp_cqs_of_qp [of False "(d, ?qp)"] f by simp_all
  ultimately show ?thesis
    by (simp add: fail_qp_def Let_def f settles_def calm_def work_left_def working_cqs_def
        pib_util_insert_async_qp_error_def callback_def)
qed

lemma settles_fold_fail:
  assumes "finite C" "\<And>p. p \<in> set ps \<Longrightarrow> send_cq (qps d p) \<in> C \<and> recv_cq (qps d p) \<in> C"
  shows "settles C d (fold (\<lambda>p d. if P p d then fail_qp p d else d) ps d)"
  using assms(2)
proof (induction ps arbitrary: d)
  case Nil
  then show ?case by (simp add: settles_def)
next
  case (Cons p ps)
  let ?d = "if P p d then fail_qp p d else d"
  have s: "settles C d ?d" using settles_fail_qp [OF assms(1)] Cons.prems by (auto simp: settles_def)
  then have "send_cq (qps ?d p') \<in> C \<and> recv_cq (qps ?d p') \<in> C" if "p' \<in> set ps" for p'
    using Cons.prems that by (simp add: settles_def)
  from settles_trans [OF s Cons.IH [OF this]] show ?case by simp
qed

lemma process_sendmsg_keeps:
  "wq_head (process_sendmsg d) = wq_head d" "cqs (process_sendmsg d) = cqs d" "qps (process_sendmsg d) = qps d"
  "qp_list (process_sendmsg d) = qp_list d"
  by (simp_all add: process_sendmsg_def transmit_def Let_def kernel_sendmsg_def count_xmit_def sent_def split_beta
      split: option.split bool.split list.split)

lemma pib_netd_comm_handler_keeps:
  "wq_head (pib_netd_comm_handler n d) = wq_head d" "cqs (pib_netd_comm_handler n d) = cqs d"
  "qps (pib_netd_comm_handler n d) = qps d" "qp_list (pib_netd_comm_handler n d) = qp_list d"
  by (simp_all add: pib_netd_comm_handler_def connect_pibnetd_def send_raw_packet_to_pibnetd_def pib_queue_delayed_work_def
      process_sendmsg_keeps Let_def)

lemma settles_run_work:
  assumes "finite C" "used_cqs d \<subseteq> C"
  shows "settles C d (run_work w d)"
proof -
  have u: "send_cq (qps d p) \<in> C \<and> recv_cq (qps d p) \<in> C" if "p \<in> set (obj_head (qp_list d))" for p
    using assms(2) that by (auto simp: used_cqs_def)
  show ?thesis
  proof (cases w)
    case (Cq_overflow_work cq)
    let ?d = "callback (Cq_event IB_EVENT_CQ_ERR cq) (upd_cq cq (cq_state_update (\<lambda>_. PIB_STATE_ERR)) d)"
    have "working_cqs C ?d \<subseteq> working_cqs C d" by (auto simp: working_cqs_def callback_def)
    moreover have "finite (working_cqs C d)" using assms(1) by (simp add: working_cqs_def)
    ultimately have "card (working_cqs C ?d) \<le> card (working_cqs C d)" by (simp add: card_mono)
    then have "settles C d ?d" by (simp add: settles_def work_left_def callback_def)
    moreover have "settles C ?d (fold (\<lambda>p d. if send_cq (qps d p) = cq \<or> recv_cq (qps d p) = cq then fail_qp p d else d)
        (obj_head (qp_list ?d)) ?d)"
      using u by (intro settles_fold_fail assms(1)) (simp add: callback_def)
    ultimately show ?thesis
      using settles_trans by (simp add: Cq_overflow_work cq_overflow_handler_def pib_util_insert_async_cq_error_def Let_def)
  next
    case (Srq_error_work srq)
    let ?d = "callback (Srq_event IB_EVENT_SRQ_ERR srq) (upd_srq srq (srq_state_update (\<lambda>_. PIB_STATE_ERR)) d)"
    have "settles C d ?d" by (simp add: settles_def work_left_def working_cqs_def callback_def)
    moreover have "settles C ?d (fold (\<lambda>p d. if init_srq (qp_init_attr (qps d p)) = Some srq then fail_qp p d else d)
        (obj_head (qp_list ?d)) ?d)"
      using u by (intro settles_fold_fail assms(1)) (simp add: callback_def)
    ultimately show ?thesis
      using settles_trans by (simp add: Srq_error_work srq_error_handler_def pib_util_insert_async_srq_error_def Let_def)
  next
    case (Netd_comm_work n)
    then show ?thesis
      by (simp add: settles_def work_left_def working_cqs_def pib_netd_comm_handler_keeps)
  qed
qed

lemma settles_used_cqs: "settles C d d' \<Longrightarrow> used_cqs d' = used_cqs d"
  by (simp add: settles_def used_cqs_def)

text \<open>
  C20. The work queue runs dry.  The loop of \<^verbatim>\<open>process_on_wq_scheduler\<close> ends although the handlers
  it runs queue more work: after at most as many rounds as there is work queued plus completion
  queues in use that can still overflow, nothing is queued any more.
\<close>

theorem wq_scheduler_returns:
  assumes "length (wq_head d) + card {c \<in> used_cqs d. cq_state (cqs d c) = PIB_STATE_OK} \<le> n"
  shows "\<exists>d'. process_on_wq_scheduler n d = Some d' \<and> wq_head d' = []"
proof -
  have "\<exists>d'. process_on_wq_scheduler n d = Some d' \<and> wq_head d' = []"
    if "work_left C d \<le> n" "used_cqs d = C" "finite C" for C
    using that
  proof (induction n arbitrary: d)
    case 0
    then show ?case by (simp add: work_left_def)
  next
    case (Suc n)
    show ?case
    proof (cases "wq_head d")
      case (Cons w ws)
      let ?d = "d \<lparr> wq_head := ws \<rparr>"
      have u: "used_cqs ?d = C" using Suc.prems(2) by (simp add: used_cqs_def)
      with Suc.prems(3) have s: "settles C ?d (run_work w ?d)" by (intro settles_run_work) simp_all
      have "work_left C ?d < work_left C d" using Cons by (simp add: work_left_def working_cqs_def)
      with s Suc.prems(1) have "work_left C (run_work w ?d) \<le> n" by (simp add: settles_def)
      with Suc.IH Suc.prems(3) settles_used_cqs [OF s] u Cons show ?thesis by simp
    qed simp
  qed
  from this [of "used_cqs d"] assms show ?thesis
    by (simp add: work_left_def working_cqs_def used_cqs_def)
qed

theorem wq_scheduler_returns_witness:
  "\<exists>d'. process_on_wq_scheduler 3 (blank_dev \<lparr> wq_head := [Cq_overflow_work 1],
       qp_list := empty_list \<lparr> obj_head := [7] \<rparr>,
       qps := (\<lambda>_. zero_qp \<lparr> send_cq := 1, recv_cq := 2 \<rparr>) \<rparr>) = Some d' \<and> wq_head d' = []"
proof -
  have "{c :: nat. c = Suc 0 \<or> c = 2} = {1, 2}" by auto
  then show ?thesis
    by (intro wq_scheduler_returns) (simp add: used_cqs_def blank_dev_def empty_list_def zero_qp_def zero_cq_def)
qed

section \<open>The packet in the send buffer\<close>

text \<open>The addresses a packet to \<open>dlid\<close> goes to: a multicast packet also goes to the port itself.\<close>

definition destinations :: "pib_dev \<Rightarrow> u8 \<Rightarrow> nat \<Rightarrow> u16 \<Rightarrow> nat list" where
  "destinations d port_num sockaddr dlid =
    (if pib_is_unicast_lid dlid then [sockaddr] else [sockaddr, port_sockaddr (port_of d port_num)])"

text \<open>
  C21. Sending the packet in the buffer, on a port that may transmit for its source.  When the
  socket takes everything, the packet goes out once to the address of its destination, and
  for a multicast destination once more to the port itself; the buffer is free, and the port
  counts one packet and the length of the packet with its footer.  When the first call fails,
  nothing goes out, nothing is counted, and the packet is dropped.
\<close>

theorem sendmsg_transmits:
  assumes "thread d = th" "port = port_of d (thread_port_num th)" "unat (thread_port_num th) - 1 < length (ports d)"
    and "send_buffer th = Some p" "thread_slid th \<noteq> 0" "thread_dlid th \<noteq> 0"
    and "may_transmit (port_state port) (thread_src_qp_num th)"
    and "len = unat (pib_packet_lrh_get_pktlen (pkt_lrh p)) * 4" "0 < len" "len \<le> PIB_PACKET_BUFFER"
    and "get_sockaddr_from_dlid d (thread_port_num th) (thread_src_qp_num th) (thread_dlid th) = Some a"
  shows "\<not> ready_to_send (thread (process_sendmsg d)) \<and>
    (sendmsg_ok d = [] \<longrightarrow>
      wire (process_sendmsg d) = wire d @ map (\<lambda>to. (to, p)) (destinations d (thread_port_num th) a (thread_dlid th)) \<and>
      port_perf (port_of (process_sendmsg d) (thread_port_num th)) = (port_perf port) \<lparr>
          xmit_packets := xmit_packets (port_perf port) + 1,
          xmit_data := xmit_data (port_perf port) + of_nat (len + sizeof_footer) \<rparr>) \<and>
    (\<forall>oks. sendmsg_ok d = False # oks \<longrightarrow> wire (process_sendmsg d) = wire d \<and> ports (process_sendmsg d) = ports d)"
proof (cases "sendmsg_ok d")
  case Nil
  with assms show ?thesis
    by (simp add: process_sendmsg_def transmit_def Let_def kernel_sendmsg_def count_xmit_def sent_def destinations_def)
next
  case (Cons ok oks)
  with assms show ?thesis
    by (cases ok) (simp_all add: process_sendmsg_def transmit_def Let_def kernel_sendmsg_def count_xmit_def sent_def split_beta)
qed

definition example_packet :: packet where
  "example_packet = \<lparr> pkt_lrh = \<lparr> lrh_dlid = 0xC001, lrh_vl_lver = 0, lrh_sl_rsv_lnh = 2, lrh_slid = 1, lrh_pktlen = 6 \<rparr>,
     pkt_grh = None, pkt_bth = \<lparr> bth_OpCode = 0x64, bth_se_m_padcnt_tver = 0, bth_pkey = 0xFFFF, bth_destQP = 9, bth_psn = 0 \<rparr>,
     pkt_rest = [] \<rparr>"

definition example_send_dev :: pib_dev where
  "example_send_dev = blank_dev \<lparr> ports := [example_port \<lparr> port_sockaddr := 77 \<rparr>], easy_sw_sockaddr := Some 5,
     thread := (thread blank_dev) \<lparr> send_buffer := Some example_packet, ready_to_send := True, thread_port_num := 1,
       thread_slid := 1, thread_dlid := 0xC001, thread_src_qp_num := 9 \<rparr> \<rparr>"

theorem sendmsg_transmits_witness:
  "wire (process_sendmsg example_send_dev) = [(5, example_packet), (77, example_packet)]"
  using sendmsg_transmits [of example_send_dev "thread example_send_dev" "port_of example_send_dev 1" example_packet 24 5]
  by (simp add: example_send_dev_def example_packet_def example_port_def zero_port_def mgmt_port.defs zero_mgmt_port_def blank_dev_def may_transmit_def
      pib_packet_lrh_get_pktlen_def get_sockaddr_from_dlid_def destinations_def pib_is_unicast_lid_def Let_def)

section \<open>What stops the thread\<close>


definition example_pkey_dev :: pib_dev where
  "example_pkey_dev = blank_dev \<lparr> ports := [example_port \<lparr> port_pkey_table := replicate 32 0xFFFF \<rparr>], qp_table := insert_qp 9 4 Leaf,
     qps := (\<lambda>_. zero_qp \<lparr> qp_num := 9 \<rparr>) \<rparr>"


end
