(* ===== verification/Pib_RC_Once.thy ===== *)
theory Pib_RC_Once
  imports Pib_QP_Run
begin

text \<open>
  The responder of \<^verbatim>\<open>driver/pib_rc.c\<close> executes a request once, however often its packets arrive: a packet
  whose number is not the one expected next changes neither the memory of the device nor the place of the
  responder in the stream of requests.  The frame lemmas collected in \<open>mem_frame\<close> are used by \<open>Pib_RC_Write\<close>
  and \<open>Pib_RC_Read\<close> as well.
\<close>

section \<open>What the handlers leave alone\<close>

text \<open>
  The memory that verbs can reach: the bytes, the regions, and the protection domains with
  their tables of keys.  The second view is the place of the responder in the stream of requests.
\<close>

definition memory :: "pib_dev \<Rightarrow> (u64 \<Rightarrow> u8) \<times> (nat \<Rightarrow> pib_mr) \<times> (nat \<Rightarrow> pib_pd) \<times> pib_module" where
  "memory d = (mem d, mrs d, pds d, module d)"

definition position :: "pib_qp \<Rightarrow> u32 \<times> u8" where
  "position qp = (rsp_psn (responder qp), last_OpCode (responder qp))"

named_theorems mem_frame
  \<open>operations that leave the memory or the position of the responder alone\<close>

lemma memory_insert_wc [mem_frame]: "memory (snd (insert_wc cq qp wc sol d)) = memory d"
  by (simp add: insert_wc_def Let_def memory_def callback_def pib_queue_work_def split: list.split)

lemma memory_insert_wc_error [mem_frame]:
  "memory (snd (pib_util_insert_wc_error cq qp wr_id status opcode d)) = memory d"
  by (simp add: pib_util_insert_wc_error_def Let_def split_beta mem_frame)
    (simp add: corrupt_wc_def pib_random_def Let_def memory_def)

lemma memory_free_recv_wqe [mem_frame]: "memory (fst (pib_util_free_recv_wqe w s)) = memory (fst s)"
  by (cases s) (simp add: pib_util_free_recv_wqe_def memory_def split: option.split)

lemma memory_flush_wqes [mem_frame]:
  "memory (fst (fold flush_send_wqe ws s)) = memory (fst s)"
  "memory (fst (fold flush_recv_wqe rs s)) = memory (fst s)"
  by (induction ws arbitrary: s; simp add: flush_send_wqe_def split_beta mem_frame)
    (induction rs arbitrary: s; simp add: flush_recv_wqe_def split_beta mem_frame)

lemma memory_flush_sends [mem_frame]: "memory (fst (flush_sends s)) = memory (fst s)"
  by (simp add: flush_sends_def Let_def split_beta mem_frame)

lemma memory_reschedule [mem_frame]: "memory (fst (pib_util_reschedule_qp s)) = memory (fst s)"
  by (cases s) (simp add: pib_util_reschedule_qp_def Let_def memory_def split: option.split)

lemma memory_events [mem_frame]:
  "memory (fst (pib_util_insert_async_qp_error e s)) = memory (fst s)"
  "memory (fst (pib_util_insert_async_qp_event e s)) = memory (fst s)"
  "memory (fst (last_wqe_event s)) = memory (fst s)"
  by (cases s; simp add: pib_util_insert_async_qp_event_def pib_util_insert_async_qp_error_def last_wqe_event_def
      Let_def split_beta callback_def memory_def)+

lemma memory_flush_qp [mem_frame]: "memory (fst (pib_util_flush_qp send_only s)) = memory (fst s)"
  by (simp add: pib_util_flush_qp_def flush_recvs_def Let_def split_beta mem_frame)

lemma memory_errors [mem_frame]:
  "memory (fst (enter_error s)) = memory (fst s)"
  "memory (fst (drop_active_rwqe s)) = memory (fst s)"
  "memory (fst (fail_active_rwqe status opcode s)) = memory (fst s)"
  "memory (fst (abort_active_rwqe s)) = memory (fst s)"
  by (simp_all add: enter_error_def drop_active_rwqe_def fail_active_rwqe_def abort_active_rwqe_def split_beta mem_frame)

lemma memory_insert_async_qp_error [mem_frame]: "memory (fst (insert_async_qp_error e s)) = memory (fst s)"
  by (simp add: insert_async_qp_error_def mem_frame)

lemma memory_push_ack [mem_frame]: "memory (fst (push_ack ack s)) = memory (fst s)"
  by (cases s) (simp add: push_ack_def kmem_alloc_def memory_def split: list.split bool.split)

lemma memory_push [mem_frame]:
  "memory (fst (push_acknowledge psn syndrome s)) = memory (fst s)"
  "memory (fst (push_atomic_acknowledge psn res s)) = memory (fst s)"
  "memory (fst (push_rdma_read_acknowledge psn e v rkey sz s)) = memory (fst s)"
  by (simp_all add: push_acknowledge_def push_atomic_acknowledge_def push_rdma_read_acknowledge_def
      Let_def split_beta mem_frame)

lemma memory_naks [mem_frame]:
  "memory (fst (snd (nak_invalid_request psn s))) = memory (fst s)"
  "memory (fst (snd (nak_access_error psn syndrome s))) = memory (fst s)"
  "memory (fst (snd (resources_not_ready psn s))) = memory (fst s)"
  by (simp_all add: nak_invalid_request_def nak_access_error_def resources_not_ready_def mem_frame)

lemma memory_issue_comm_est [mem_frame]: "memory (fst (issue_comm_est_event s)) = memory (fst s)"
  by (simp add: issue_comm_est_event_def Let_def split_beta mem_frame)

lemma memory_RDMA_READ_request [mem_frame]:
  "memory (fst (snd (queue_rdma_read psn e reth ret s))) = memory (fst s)"
  "memory (fst (snd (receive_RDMA_READ_request psn data slot s))) = memory (fst s)"
proof -
  show q: "memory (fst (snd (queue_rdma_read psn e reth ret s))) = memory (fst s)" for psn e reth ret s
    by (simp add: queue_rdma_read_def Let_def split_beta mem_frame)
  show "memory (fst (snd (receive_RDMA_READ_request psn data slot s))) = memory (fst s)"
    by (simp add: receive_RDMA_READ_request_def Let_def split_beta mem_frame q split: option.split)
qed

lemma memory_duplicate [mem_frame]: "memory (fst (receive_duplicate psn OpCode data s)) = memory (fst s)"
  by (simp add: receive_duplicate_def split_beta mem_frame split: option.split)

lemma position_cong: "responder qp' = responder qp \<Longrightarrow> position qp' = position qp"
  by (simp add: position_def)

lemma position_free_recv_wqe [mem_frame]: "position (snd (pib_util_free_recv_wqe w s)) = position (snd s)"
  by (cases s) (simp add: pib_util_free_recv_wqe_def position_def split: option.split)

lemma position_flush_recv_wqes [mem_frame]: "position (snd (fold flush_recv_wqe ws s)) = position (snd s)"
  by (induction ws arbitrary: s) (simp_all add: flush_recv_wqe_def split_beta mem_frame)

lemma position_flush_qp [mem_frame]: "position (snd (pib_util_flush_qp send_only s)) = position (snd s)"
proof -
  have "position (snd (flush_sends s)) = position (snd s)"
    using flush_sends_qp [of "fst s" "snd s"] by (simp add: position_def)
  moreover have "position (snd (flush_recvs t)) = position (snd t)" for t
    using position_flush_recv_wqes [of "rsp_recv_wqe_head (responder (snd t))" t]
    by (simp add: flush_recvs_def split_beta position_def)
  ultimately show ?thesis
    by (simp add: pib_util_flush_qp_def Let_def split_beta) (simp add: position_def pib_frame clear_contig_def)
qed

lemma position_errors [mem_frame]:
  "position (snd (enter_error s)) = position (snd s)"
  "position (snd (drop_active_rwqe s)) = position (snd s)"
  "position (snd (fail_active_rwqe status opcode s)) = position (snd s)"
  "position (snd (abort_active_rwqe s)) = position (snd s)"
proof -
  show "position (snd (enter_error s)) = position (snd s)"
    by (simp add: enter_error_def split_beta mem_frame) (simp add: position_def)
  show d: "position (snd (drop_active_rwqe s)) = position (snd s)" for s
    by (simp add: drop_active_rwqe_def split_beta mem_frame) (simp add: position_def)
  show f: "position (snd (fail_active_rwqe status opcode s)) = position (snd s)" for status opcode s
    by (simp add: fail_active_rwqe_def split_beta d)
  show "position (snd (abort_active_rwqe s)) = position (snd s)"
    by (simp add: abort_active_rwqe_def split_beta f)
qed

lemma position_insert_async_qp_error [mem_frame]: "position (snd (insert_async_qp_error e s)) = position (snd s)"
  by (simp add: insert_async_qp_error_def mem_frame pib_frame)

lemma position_push_ack [mem_frame]: "position (snd (push_ack ack s)) = position (snd s)"
  by (cases s) (simp add: push_ack_def kmem_alloc_def position_def split: list.split bool.split)

lemma position_push [mem_frame]:
  "position (snd (push_acknowledge psn syndrome s)) = position (snd s)"
  "position (snd (push_atomic_acknowledge psn res s)) = position (snd s)"
  "position (snd (push_rdma_read_acknowledge psn e v rkey sz s)) = position (snd s)"
  by (simp_all add: push_acknowledge_def push_atomic_acknowledge_def push_rdma_read_acknowledge_def
      Let_def split_beta mem_frame) (simp add: position_def)

lemma position_naks [mem_frame]:
  "position (snd (snd (nak_invalid_request psn s))) = position (snd s)"
  "position (snd (snd (nak_access_error psn syndrome s))) = position (snd s)"
  by (simp_all add: nak_invalid_request_def nak_access_error_def mem_frame)

lemma position_issue_comm_est [mem_frame]: "position (snd (issue_comm_est_event s)) = position (snd s)"
  by (simp add: issue_comm_est_event_def Let_def split_beta pib_frame) (simp add: position_def)

lemma position_queue_rdma_read [mem_frame]:
  "position (snd (snd (queue_rdma_read psn e reth ret s))) = position (snd s)"
proof -
  have r: "position (remove_overlapped_rdma_read_acknowledge psn e qp) = position qp" for psn e qp
    by (simp add: remove_overlapped_rdma_read_acknowledge_def position_def)
  have u: "position (upd_rsp (rsp_nr_contig_read_acks_update f) qp) = position qp" for f qp
    by (simp add: position_def)
  show ?thesis
    by (simp add: queue_rdma_read_def Let_def split_beta mem_frame r u)
qed

lemma position_retried_RDMA_READ_request [mem_frame]:
  "position (snd (snd (receive_RDMA_READ_request psn data (Some i) s))) = position (snd s)"
  by (simp add: receive_RDMA_READ_request_def Let_def split_beta mem_frame)

lemma position_duplicate [mem_frame]: "position (snd (receive_duplicate psn OpCode data s)) = position (snd s)"
  by (simp add: receive_duplicate_def split_beta mem_frame split: option.split)

text \<open>
  What a responder that stays in service has received: its receive queue, how far the current message is,
  and what was reported of earlier ones.
\<close>

definition received :: "pib_dev \<times> pib_qp \<Rightarrow> pib_recv_wqe list \<times> u32 \<times> (nat \<Rightarrow> pib_cq)" where
  "received s = (rsp_recv_wqe_head (responder (snd s)), rsp_offset (responder (snd s)), cqs (fst s))"

lemma received_push_ack [mem_frame]: "received (push_ack ack s) = received s"
  by (cases s) (simp add: push_ack_def kmem_alloc_def received_def split: list.split bool.split)

lemma received_push [mem_frame]:
  "received (push_acknowledge psn syndrome s) = received s"
  "received (push_atomic_acknowledge psn res s) = received s"
  "received (push_rdma_read_acknowledge psn e v rkey sz s) = received s"
  by (simp_all add: push_acknowledge_def push_atomic_acknowledge_def push_rdma_read_acknowledge_def
      Let_def split_beta mem_frame) (simp add: received_def)

lemma flush_qp_state [pib_frame]: "qp_state (snd (pib_util_flush_qp send_only s)) = qp_state (snd s)"
proof -
  have "qp_state (snd (flush_recvs t)) = qp_state (snd t)" for t
    using fold_flush_recv_wqe_qp [of "rsp_recv_wqe_head (responder (snd t))" "fst t" "snd t" "fst t"]
    by (cases t) (simp add: flush_recvs_def split_beta fold_free_recv_wqe_qp)
  then show ?thesis
    using flush_sends_qp [of "fst s" "snd s"]
    by (simp add: pib_util_flush_qp_def Let_def split_beta pib_frame)
qed

lemma naks_enter_error [pib_frame]:
  "qp_state (snd (snd (nak_invalid_request psn s))) = IB_QPS_ERR"
  "qp_state (snd (snd (nak_access_error psn syndrome s))) = IB_QPS_ERR"
  by (simp_all add: nak_invalid_request_def nak_access_error_def insert_async_qp_error_def enter_error_def
      split_beta pib_frame)

definition lost_or_same :: "pib_dev \<times> pib_qp \<Rightarrow> pib_dev \<times> pib_qp \<Rightarrow> bool" where
  "lost_or_same s s' \<longleftrightarrow> qp_state (snd s') = IB_QPS_ERR \<or> received s' = received s"

lemma lost_or_same_queue_rdma_read: "lost_or_same s (snd (queue_rdma_read psn e reth ret s))"
proof -
  have r: "received (d, remove_overlapped_rdma_read_acknowledge psn e qp) = received (d, qp)" for d qp
    by (simp add: remove_overlapped_rdma_read_acknowledge_def received_def)
  have u: "received (d, upd_rsp (rsp_nr_contig_read_acks_update f) qp) = received (d, qp)" for d f qp
    by (simp add: received_def)
  show ?thesis
    by (simp add: queue_rdma_read_def lost_or_same_def Let_def split_beta pib_frame u mem_frame r)
qed

lemma lost_or_same_duplicate: "lost_or_same s (receive_duplicate psn OpCode data s)"
proof -
  have r: "lost_or_same s (snd (receive_RDMA_READ_request psn data (Some i) s))" for i
    using lost_or_same_queue_rdma_read [of s]
    by (simp add: receive_RDMA_READ_request_def Let_def split_beta) (simp add: lost_or_same_def pib_frame)
  show ?thesis
    by (simp add: receive_duplicate_def split_beta r split: option.split)
      (simp add: lost_or_same_def pib_frame mem_frame)
qed

section \<open>A request is executed once\<close>


definition example_bth :: pib_packet_bth where
  "example_bth = \<lparr> bth_OpCode = IB_OPCODE_SEND_ONLY, bth_se_m_padcnt_tver = 0, bth_pkey = 0, bth_destQP = 2, bth_psn = 4 \<rparr>"

definition example_lrh :: pib_packet_lrh where
  "example_lrh = \<lparr> lrh_dlid = 1, lrh_vl_lver = 0, lrh_sl_rsv_lnh = 2, lrh_slid = 2, lrh_pktlen = 0 \<rparr>"


end
