(* ===== verification/Pib_RC_Write.thy ===== *)
theory Pib_RC_Write
  imports Pib_RC_Once
begin

text \<open>
  An RDMA WRITE end to end, over both halves of \<^verbatim>\<open>driver/pib_rc.c\<close>: the packets that the requester builds for a
  message, delivered in order to the responder of the peer, put the message into the region its key opens.
\<close>

section \<open>The segments of a message\<close>

definition segment :: "nat \<Rightarrow> u8 list \<Rightarrow> nat \<Rightarrow> u8 list" where
  "segment mtu msg k = take mtu (drop (k * mtu) msg)"

definition num_segments :: "nat \<Rightarrow> u8 list \<Rightarrow> nat" where
  "num_segments mtu msg = (length msg + mtu - 1) div mtu"

lemma concat_segments: "concat (map (segment mtu msg) [0..<k]) = take (k * mtu) msg"
proof (induction k)
  case (Suc k)
  have "take (Suc k * mtu) msg = take (k * mtu) msg @ take mtu (drop (k * mtu) msg)"
    using take_add [of "k * mtu" mtu msg] by (simp add: add.commute)
  with Suc show ?case by (simp add: segment_def)
qed simp

lemma segment_bounds:
  assumes "k < num_segments mtu msg" "0 < mtu"
  shows "k * mtu < length msg" "segment mtu msg k \<noteq> []"
    "length (segment mtu msg k) = (if num_segments mtu msg = Suc k then length msg - k * mtu else mtu)"
    "length (segment mtu msg k) \<le> mtu" "k * mtu + length (segment mtu msg k) \<le> length msg"
    "num_segments mtu msg = Suc k \<longleftrightarrow> k * mtu + length (segment mtu msg k) = length msg"
proof -
  have s: "Suc k \<le> (length msg + mtu - 1) div mtu"
    using assms(1) by (simp add: num_segments_def)
  then show lt: "k * mtu < length msg"
    using assms(2) by (simp add: less_eq_div_iff_mult_less_eq)
  then show "segment mtu msg k \<noteq> []" "length (segment mtu msg k) \<le> mtu"
      "k * mtu + length (segment mtu msg k) \<le> length msg"
    using assms(2) by (auto simp: segment_def)
  have last: "num_segments mtu msg = Suc k \<longleftrightarrow> length msg \<le> Suc k * mtu"
  proof -
    have "num_segments mtu msg \<le> Suc k \<longleftrightarrow> \<not> Suc (Suc k) \<le> (length msg + mtu - 1) div mtu"
      by (simp add: num_segments_def not_less_eq_eq)
    also have "\<dots> \<longleftrightarrow> length msg \<le> Suc k * mtu"
      using assms(2) by (simp add: less_eq_div_iff_mult_less_eq) linarith
    finally show ?thesis using assms(1) by auto
  qed
  then show "length (segment mtu msg k) = (if num_segments mtu msg = Suc k then length msg - k * mtu else mtu)"
    by (auto simp: segment_def min_def)
  then show "num_segments mtu msg = Suc k \<longleftrightarrow> k * mtu + length (segment mtu msg k) = length msg"
    using last lt by (auto split: if_splits)
qed

lemma segments_cover: "0 < mtu \<Longrightarrow> length msg \<le> num_segments mtu msg * mtu"
  using div_mult_mod_eq [of "length msg + mtu - 1" mtu] mod_less_divisor [of mtu "length msg + mtu - 1"]
  unfolding num_segments_def by linarith

lemma concat_all_segments: "0 < mtu \<Longrightarrow> concat (map (segment mtu msg) [0..<num_segments mtu msg]) = msg"
  using segments_cover [of mtu msg] by (simp add: concat_segments)

lemma segment_end:
  assumes "k < num_segments mtu msg" "0 < mtu"
  shows "k * mtu + length (segment mtu msg k) = min (Suc k * mtu) (length msg)"
proof (cases "num_segments mtu msg = Suc k")
  case True
  then have "length msg \<le> Suc k * mtu" using segments_cover [OF assms(2), of msg] by simp
  then show ?thesis using True segment_bounds(1,3) [OF assms] by simp
next
  case False
  then have "length (segment mtu msg k) = mtu" using segment_bounds(3) [OF assms] by simp
  moreover from this have "Suc k * mtu \<le> length msg" using segment_bounds(5) [OF assms] by simp
  ultimately show ?thesis by simp
qed

text \<open>The words of the code compute these numbers.\<close>

abbreviation mtu_of :: "pib_qp \<Rightarrow> nat" where
  "mtu_of qp \<equiv> 128 * 2 ^ path_mtu (qp_attr qp)"

lemma mtu_le: "path_mtu (qp_attr qp) \<le> IB_MTU_4096 \<Longrightarrow> mtu_of qp \<le> 4096"
  using power_increasing [of "path_mtu (qp_attr qp)" 5 "2 :: nat"] by simp

lemma unat_pmtu: "path_mtu (qp_attr qp) \<le> IB_MTU_4096 \<Longrightarrow> unat (pmtu qp) = mtu_of qp"
proof -
  assume "path_mtu (qp_attr qp) \<le> IB_MTU_4096"
  then consider "path_mtu (qp_attr qp) = 0" | "path_mtu (qp_attr qp) = 1" | "path_mtu (qp_attr qp) = 2"
    | "path_mtu (qp_attr qp) = 3" | "path_mtu (qp_attr qp) = 4" | "path_mtu (qp_attr qp) = 5" by linarith
  then show ?thesis by cases simp_all
qed

lemma segment_offset_nat:
  assumes "k * mtu_of qp < 2 ^ 32"
  shows "segment_offset qp (of_nat k) = of_nat (k * mtu_of qp)"
  by (simp add: segment_offset_def push_bit_eq_mult mult_ac)

lemma num_segments_pos: "msg \<noteq> [] \<Longrightarrow> 0 < mtu \<Longrightarrow> 0 < num_segments mtu msg"
  by (cases msg) (simp_all add: num_segments_def div_greater_zero_iff)

lemma num_segments_word:
  assumes "msg \<noteq> []" "unat len = length msg" "m \<le> IB_MTU_4096"
  shows "unat (pib_get_num_of_packets IB_QPT_RC m len) = num_segments (128 * 2 ^ m) msg"
proof -
  have "1 \<le> num_segments (128 * 2 ^ m) msg"
    using num_segments_pos [OF assms(1), of "128 * 2 ^ m"] by simp
  then show ?thesis
    using pib_get_num_of_packets_ceil [OF assms(3), of IB_QPT_RC len] assms(2)
    by (simp add: qp_mtu_def num_segments_def)
qed

section \<open>The packets of an RDMA WRITE\<close>

text \<open>
  The bytes of the message can be read where the request says they are, in its inline area or
  through its scatter list.
\<close>

definition source_is :: "pib_dev \<Rightarrow> pib_qp \<Rightarrow> pib_send_wqe \<Rightarrow> u8 list \<Rightarrow> bool" where
  "source_is d qp w msg \<longleftrightarrow> unat (swqe_total_length w) = length msg \<and>
    (if flag_set (swqe_send_flags w) IB_SEND_INLINE then swqe_inline_data w = msg
     else \<forall>off sz. 0 < sz \<longrightarrow> off + sz \<le> length msg \<longrightarrow>
       (\<exists>d'. pib_util_mr_copy_data d (qp_pd qp) (swqe_sge_array w) [] (of_nat off) (of_nat sz) 0 PIB_MR_COPY_FROM =
          (IB_WC_SUCCESS, take sz (drop off msg), d')))"

definition request_packet :: "pib_dev \<Rightarrow> pib_qp \<Rightarrow> pib_send_wqe \<Rightarrow> nat \<Rightarrow> packet option" where
  "request_packet d qp w k =
    (case rc_request_packet (upd_pr (sent_packets_update (\<lambda>_. of_nat k)) w) (d, qp) of
       (True, _, d', _) \<Rightarrow> send_buffer (thread d')
     | (False, _) \<Rightarrow> None)"

definition write_op :: "nat \<Rightarrow> nat \<Rightarrow> u8" where
  "write_op n k = (if n = 1 then IB_OPCODE_RDMA_WRITE_ONLY else if k = 0 then IB_OPCODE_RDMA_WRITE_FIRST
     else if n = Suc k then IB_OPCODE_RDMA_WRITE_LAST else IB_OPCODE_RDMA_WRITE_MIDDLE)"

lemma of_nat_32_eq:
  assumes "a < 2 ^ 32" "b < 2 ^ 32"
  shows "(of_nat a :: u32) = of_nat b \<longleftrightarrow> a = b"
proof -
  have "unat (of_nat a :: u32) = a" "unat (of_nat b :: u32) = b"
    using assms by (auto intro!: unat_of_nat_small)
  then show ?thesis by metis
qed

lemma write_segment_opcode:
  assumes "k < n" "n < 2 ^ 32"
  shows "segment_opcode IB_WR_RDMA_WRITE (of_nat n) (of_nat k) = Some (write_op n k, k = 0, False, False)"
proof -
  have "(of_nat n :: u32) = 1 \<longleftrightarrow> n = 1" "(of_nat k :: u32) = 0 \<longleftrightarrow> k = 0" "(of_nat n :: u32) = of_nat k + 1 \<longleftrightarrow> n = Suc k"
    using of_nat_32_eq [of n 1] of_nat_32_eq [of k 0] of_nat_32_eq [of n "Suc k"] assms by (simp_all add: add.commute)
  then show ?thesis using assms(1) by (auto simp: write_op_def)
qed

lemma unat_ucast_64: "unat (ucast (x :: u32) :: u64) = unat x"
  using unat_less_exp [of x] by (simp add: unsigned_ucast_eq take_bit_nat_eq_self)

lemma ucast_of_nat_64: "n < 2 ^ 32 \<Longrightarrow> ucast (of_nat n :: u32) = (of_nat n :: u64)"
  by (simp add: unsigned_of_nat take_bit_nat_eq_self)

lemma segment_size_nat:
  assumes "unat (all_packets (processing w)) = num_segments (mtu_of qp) msg" "unat (swqe_total_length w) = length msg"
    and "length msg \<le> 2 ^ 30" "k < num_segments (mtu_of qp) msg" "path_mtu (qp_attr qp) \<le> IB_MTU_4096"
  shows "segment_size qp (upd_pr (sent_packets_update (\<lambda>_. of_nat k)) w) = of_nat (length (segment (mtu_of qp) msg k))"
proof -
  note b = segment_bounds [OF assms(4), simplified]
  have n: "num_segments (mtu_of qp) msg < 2 ^ 32"
    using assms(1) unat_less_exp [of "all_packets (processing w)"] by simp
  have all: "all_packets (processing w) = of_nat (num_segments (mtu_of qp) msg)"
    using assms(1) by (metis word_of_nat_eq_iff of_nat_unat ucast_id)
  have tot: "swqe_total_length w = of_nat (length msg)"
    using assms(2) by (metis of_nat_unat ucast_id)
  have "of_nat (num_segments (mtu_of qp) msg) - of_nat k = (1 :: u32) \<longleftrightarrow> num_segments (mtu_of qp) msg = Suc k"
    using of_nat_32_eq [of "num_segments (mtu_of qp) msg" "Suc k"] n assms(4) by (simp add: diff_eq_eq add.commute)
  moreover have "of_nat (length msg) - of_nat (k * mtu_of qp) = (of_nat (length msg - k * mtu_of qp) :: u32)"
    using b(1) by (simp add: of_nat_diff)
  moreover have "pmtu qp = of_nat (mtu_of qp)"
    using unat_pmtu [OF assms(5)] by (metis of_nat_unat ucast_id)
  moreover have "segment_offset qp (of_nat k) = of_nat (k * mtu_of qp)"
    using b(1) assms(3) by (intro segment_offset_nat) simp
  ultimately show ?thesis
    by (simp add: segment_size_def all tot b(3))
qed

lemma read_inline_segment:
  assumes "swqe_inline_data w = msg" "off + n \<le> length msg"
  shows "read_inline d (upd_pr f w) off n = take n (drop off msg)"
  using assms by (intro nth_equalityI) (auto simp: read_inline_def)

definition fetch_source :: "pib_dev \<Rightarrow> pib_qp \<Rightarrow> pib_send_wqe \<Rightarrow> u32 \<Rightarrow> u32 \<Rightarrow> ib_wc_status \<times> u8 list \<times> pib_dev" where
  "fetch_source d qp w off sz =
    (if flag_set (swqe_send_flags w) IB_SEND_INLINE then (IB_WC_SUCCESS, read_inline d w (unat off) (unat sz), d)
     else pib_util_mr_copy_data d (qp_pd qp) (swqe_sge_array w) [] (ucast off) (ucast sz) 0 PIB_MR_COPY_FROM)"

lemma fetch_source_part:
  assumes "source_is d qp w msg" "0 < n" "off + n \<le> length msg" "length msg < 2 ^ 32"
  shows "\<exists>d'. fetch_source d qp (upd_pr f w) (of_nat off) (of_nat n) = (IB_WC_SUCCESS, take n (drop off msg), d')"
  using assms unat_of_nat_small [of off, where 'a = 32] unat_of_nat_small [of n, where 'a = 32]
  by (auto simp: source_is_def fetch_source_def ucast_of_nat_64 read_inline_segment)

lemma take_segment: "take (length (segment mtu msg k)) (drop (k * mtu) msg) = segment mtu msg k"
  by (simp add: segment_def min_def)

text \<open>The payload step, in terms of the source, and what is left in the send buffer.\<close>

lemma process_SEND_or_RDMA_WRITE_data:
  assumes "\<not> PIB_MAX_PAYLOAD_LEN < ucast (swqe_total_length w)" "segment_size qp w \<noteq> 0"
    and "fetch_source d qp w (segment_offset qp (sent_packets (processing w))) (segment_size qp w) = (IB_WC_SUCCESS, seg, d')"
  shows "\<exists>p' qp'. process_SEND_or_RDMA_WRITE_request with_reth with_imm with_inv w p (d, qp) =
      (IB_WC_SUCCESS, write_buffer p' d', qp') \<and>
    bth_OpCode (pkt_bth p') = bth_OpCode (pkt_bth p) \<and> bth_psn (pkt_bth p') = bth_psn (pkt_bth p) \<and>
    pkt_rest p' = pkt_rest p @ (if with_reth then reth_bytes \<lparr> reth_vaddr = rdma_remote_addr w, reth_rkey = rdma_rkey w,
      reth_dmalen = swqe_total_length w \<rparr> else []) @ (if with_imm then bytes_be 4 (swqe_ex w) else []) @
      (if with_inv then bytes_be 4 (swqe_ex w) else []) @ seg"
proof -
  let ?qp = "if with_reth then upd_req (nr_contig_requests_update (\<lambda>_. 0)) qp else qp"
  have attr: "qp_attr ?qp = qp_attr qp" "qp_pd ?qp = qp_pd qp" by simp_all
  then have s: "segment_size ?qp w = segment_size qp w" "segment_offset ?qp n = segment_offset qp n" for n
    by (simp_all add: segment_size_def segment_offset_def)
  have l: "pkt_bth (set_packet_length n q) = pib_packet_bth_set_padcnt (of_nat (4 * ((n + 3) div 4) - n)) (pkt_bth q)"
    "pkt_rest (set_packet_length n q) = pkt_rest q" for n q
    by (simp_all add: set_packet_length_def Let_def)
  define q where "q = append_rest (if with_inv then bytes_be 4 (swqe_ex w) else [])
      (append_rest (if with_imm then bytes_be 4 (swqe_ex w) else [])
        (append_rest (if with_reth then reth_bytes \<lparr> reth_vaddr = rdma_remote_addr w, reth_rkey = rdma_rkey w,
           reth_dmalen = swqe_total_length w \<rparr> else []) p))"
  have "process_SEND_or_RDMA_WRITE_request with_reth with_imm with_inv w p (d, qp) = (IB_WC_SUCCESS,
      write_buffer (set_solicited w (set_packet_length (length (packet_bytes q) + unat (segment_size qp w)) (append_rest seg q))) d', ?qp)"
    unfolding process_SEND_or_RDMA_WRITE_request_def Let_def prod.case s attr if_not_P [OF assms(1)] if_not_P [OF assms(2)]
      assms(3) [unfolded fetch_source_def] q_def [symmetric] by simp
  then show ?thesis
    by (intro exI conjI) (assumption, simp_all add: l pib_packet_bth_set_padcnt_def pib_packet_bth_set_solicited_def q_def)
qed

definition segment_headers :: "bool \<Rightarrow> bool \<Rightarrow> bool \<Rightarrow> pib_send_wqe \<Rightarrow> u8 list" where
  "segment_headers with_reth with_imm with_inv w =
    (if with_reth then reth_bytes \<lparr> reth_vaddr = rdma_remote_addr w, reth_rkey = rdma_rkey w,
       reth_dmalen = swqe_total_length w \<rparr> else []) @
    (if with_imm then bytes_be 4 (swqe_ex w) else []) @ (if with_inv then bytes_be 4 (swqe_ex w) else [])"

lemma build_request_data:
  assumes "segment_opcode (swqe_opcode w) (all_packets (processing w)) (sent_packets (processing w)) =
      Some (OpCode, with_reth, with_imm, with_inv)"
    and "\<not> PIB_MAX_PAYLOAD_LEN < ucast (swqe_total_length w)" "segment_size qp w \<noteq> 0"
    and "fetch_source d qp w (segment_offset qp (sent_packets (processing w))) (segment_size qp w) = (IB_WC_SUCCESS, seg, d')"
  shows "\<exists>p qp'. build_request w (d, qp) = (IB_WC_SUCCESS, write_buffer p d', qp') \<and> bth_OpCode (pkt_bth p) = OpCode \<and>
    bth_psn (pkt_bth p) = (based_psn (processing w) + sent_packets (processing w)) AND PIB_PSN_MASK \<and>
    pkt_rest p = segment_headers with_reth with_imm with_inv w @ seg"
proof -
  define p where "p = open_packet d (attr_port_num (qp_attr qp)) (ah_attr (qp_attr qp))
      (rc_bth d qp OpCode (based_psn (processing w) + sent_packets (processing w)))"
  have "pkt_bth p = rc_bth d qp OpCode (based_psn (processing w) + sent_packets (processing w))" "pkt_rest p = []"
    by (simp_all add: p_def open_packet_def Let_def split_beta)
  moreover have "build_request w (d, qp) = process_SEND_or_RDMA_WRITE_request with_reth with_imm with_inv w p (d, qp)"
    by (simp add: build_request_def assms(1) p_def Let_def)
  ultimately show ?thesis
    using process_SEND_or_RDMA_WRITE_data [OF assms(2-4), of with_reth with_imm with_inv p]
    by (simp add: rc_bth_def segment_headers_def)
qed

lemma rc_request_packet_buffer:
  assumes "0 \<le> retry_cnt (processing w)" "0 \<le> rnr_retry (processing w)" "build_request w s = (IB_WC_SUCCESS, d', qp')"
  shows "\<exists>w' d'' qp''. rc_request_packet w s = (True, w', d'', qp'') \<and> send_buffer (thread d'') = send_buffer (thread d')"
  using assms by (simp add: rc_request_packet_def Let_def skip_to_send_packet_def ready_packet_def)

text \<open>The packet for segment \<open>k\<close>: its place in the stream, and the bytes behind its headers.\<close>

lemma write_request_packet:
  assumes "swqe_opcode w = IB_WR_RDMA_WRITE" "0 \<le> retry_cnt (processing w)" "0 \<le> rnr_retry (processing w)"
    and "unat (all_packets (processing w)) = num_segments (mtu_of qp) msg" "source_is d qp w msg"
    and "length msg \<le> 2 ^ 30" "k < num_segments (mtu_of qp) msg" "path_mtu (qp_attr qp) \<le> IB_MTU_4096"
  shows "\<exists>p. request_packet d qp w k = Some p \<and>
    bth_OpCode (pkt_bth p) = write_op (num_segments (mtu_of qp) msg) k \<and>
    bth_psn (pkt_bth p) = (based_psn (processing w) + of_nat k) AND PIB_PSN_MASK \<and>
    pkt_rest p = (if k = 0 then reth_bytes \<lparr> reth_vaddr = rdma_remote_addr w, reth_rkey = rdma_rkey w,
      reth_dmalen = swqe_total_length w \<rparr> else []) @ segment (mtu_of qp) msg k"
proof -
  note b = segment_bounds [OF assms(7), simplified]
  let ?w = "upd_pr (sent_packets_update (\<lambda>_. of_nat k)) w" and ?seg = "segment (mtu_of qp) msg k"
  have tot: "unat (swqe_total_length w) = length msg" using assms(5) by (simp add: source_is_def)
  have n: "num_segments (mtu_of qp) msg < 2 ^ 32"
    using assms(4) unat_less_exp [of "all_packets (processing w)"] by simp
  have all: "all_packets (processing w) = of_nat (num_segments (mtu_of qp) msg)"
    using assms(4) by (metis of_nat_unat ucast_id)
  have op: "segment_opcode IB_WR_RDMA_WRITE (all_packets (processing w)) (of_nat k) =
      Some (write_op (num_segments (mtu_of qp) msg) k, k = 0, False, False)"
    using write_segment_opcode [OF assms(7) n] by (simp add: all)
  have len: "\<not> PIB_MAX_PAYLOAD_LEN < ucast (swqe_total_length w)"
    using assms(6) tot by (simp add: payload_limit unat_ucast_64)
  have off: "segment_offset qp' (of_nat k) = of_nat (k * mtu_of qp)" if "qp_attr qp' = qp_attr qp" for qp'
    using b(1) assms(6) that segment_offset_nat [of k qp'] by simp
  have sz: "segment_size qp' ?w = of_nat (length ?seg)" if "qp_attr qp' = qp_attr qp" for qp'
  proof -
    have "segment_size qp' ?w = segment_size qp ?w"
      using that by (simp add: segment_size_def segment_offset_def)
    then show ?thesis using segment_size_nat [OF assms(4) tot assms(6-8)] by simp
  qed
  have seg: "0 < length ?seg" "length ?seg < 2 ^ 32" "k * mtu_of qp < 2 ^ 32" "k * mtu_of qp + length ?seg \<le> length msg"
    using b(1,2,5) assms(6) by auto
  have nz: "(of_nat (length ?seg) :: u32) \<noteq> 0"
    using of_nat_32_eq [of "length ?seg" 0] seg(1,2) by simp
  obtain d' where d': "fetch_source d qp ?w (of_nat (k * mtu_of qp)) (of_nat (length ?seg)) = (IB_WC_SUCCESS, ?seg, d')"
    using fetch_source_part [OF assms(5) seg(1,4)] assms(6) take_segment [of "mtu_of qp" msg k] by auto
  have "fetch_source d qp ?w (segment_offset qp (sent_packets (processing ?w))) (segment_size qp ?w) = (IB_WC_SUCCESS, ?seg, d')"
    using d' off [OF refl] sz [OF refl] by simp
  from build_request_data [OF _ _ _ this, of "write_op (num_segments (mtu_of qp) msg) k" "k = 0" False False]
  obtain p qp' where p: "build_request ?w (d, qp) = (IB_WC_SUCCESS, write_buffer p d', qp')"
      "bth_OpCode (pkt_bth p) = write_op (num_segments (mtu_of qp) msg) k"
      "bth_psn (pkt_bth p) = (based_psn (processing w) + of_nat k) AND PIB_PSN_MASK"
      "pkt_rest p = segment_headers (k = 0) False False ?w @ ?seg"
    using op len nz sz [OF refl] assms(1) by auto
  then show ?thesis
    using rc_request_packet_buffer [OF _ _ p(1)] assms(2,3)
    by (auto simp: request_packet_def write_buffer_def segment_headers_def)
qed

section \<open>An RDMA WRITE puts the message into the memory of the peer\<close>

text \<open>A region that its R_Key opens for reading and writing, with the local right the driver asks for.\<close>

definition rkey_writable :: "nat \<Rightarrow> u32 \<Rightarrow> pib_dev \<Rightarrow> bool" where
  "rkey_writable pd rkey d \<longleftrightarrow> rkey_open pd rkey d \<and>
    (\<forall>p. mr_at_key d pd rkey = Some p \<longrightarrow> mr_access_flags (mrs d p) AND IB_ACCESS_LOCAL_WRITE = IB_ACCESS_LOCAL_WRITE)"

lemma memory_at_key: "memory d' = memory d \<Longrightarrow> mr_at_key d' pd key = mr_at_key d pd key"
  by (simp add: memory_def mr_at_key_def)

lemma memory_rkey:
  assumes "memory d' = memory d"
  shows "rkey_open pd rkey d' = rkey_open pd rkey d" "rkey_writable pd rkey d' = rkey_writable pd rkey d"
    "rkey_span pd rkey d' a n = rkey_span pd rkey d a n"
  using assms by (simp_all add: memory_def rkey_open_def rkey_writable_def rkey_span_def mr_at_key_def)

lemma memory_rkey_fetch:
  assumes "memory d' = memory d" "rkey_open pd rkey d" "rkey_span pd rkey d a n"
  shows "rkey_fetch pd rkey d' a n = rkey_fetch pd rkey d a n"
proof -
  obtain p u k where r: "mr_at_key d pd rkey = Some p" "mr_region_ok (mrs d p) u k" "mr_rkey (mrs d p) = rkey"
    "mr_access_flags (mrs d p) AND IB_ACCESS_REMOTE_READ = IB_ACCESS_REMOTE_READ"
    using assms(2) by (rule rkey_openE)
  have m: "mrs d' = mrs d" "mem d' = mem d" using assms(1) by (simp_all add: memory_def)
  show ?thesis
    using rkey_fetch_store_eq(1) [OF r(1-4) assms(3)] rkey_fetch_store_eq(1) [of d' pd rkey p u k a n] r assms(2,3) m
    by (simp add: memory_at_key [OF assms(1)] memory_rkey(3) [OF assms(1)])
qed

lemma memory_rkey_store:
  assumes "memory d' = memory d" "rkey_open pd rkey d" "rkey_span pd rkey d a (length bs)"
  shows "memory (rkey_store pd rkey d' a bs) = memory (rkey_store pd rkey d a bs)"
proof -
  obtain p u k where r: "mr_at_key d pd rkey = Some p" "mr_region_ok (mrs d p) u k" "mr_rkey (mrs d p) = rkey"
    "mr_access_flags (mrs d p) AND IB_ACCESS_REMOTE_WRITE = IB_ACCESS_REMOTE_WRITE"
    using assms(2) by (rule rkey_openE)
  have m: "mrs d' = mrs d" "mem d' = mem d" using assms(1) by (simp_all add: memory_def)
  show ?thesis
    using rkey_fetch_store_eq(2) [OF r(1-4) assms(3)] rkey_fetch_store_eq(2) [of d' pd rkey p u k a bs] r assms(2,3) m
    by (simp add: memory_at_key [OF assms(1)] memory_rkey(3) [OF assms(1)]) (use assms(1) in \<open>simp add: memory_def\<close>)
qed

lemma rkey_write:
  assumes "rkey_writable pd rkey d" "rkey_span pd rkey d a (length bs)"
  shows "\<exists>out. pib_util_mr_copy_data_with_rkey d pd rkey bs (of_nat a) (of_nat (length bs))
      (IB_ACCESS_LOCAL_WRITE OR IB_ACCESS_REMOTE_WRITE) PIB_MR_COPY_TO = (IB_WC_SUCCESS, out, rkey_store pd rkey d a bs)"
proof -
  have open_key: "rkey_open pd rkey d" using assms(1) by (simp add: rkey_writable_def)
  then obtain p u k where r: "mr_at_key d pd rkey = Some p" "mr_region_ok (mrs d p) u k" "mr_rkey (mrs d p) = rkey"
    and w: "mr_access_flags (mrs d p) AND IB_ACCESS_REMOTE_WRITE = IB_ACCESS_REMOTE_WRITE"
    by (rule rkey_openE)
  have l: "mr_access_flags (mrs d p) AND IB_ACCESS_LOCAL_WRITE = IB_ACCESS_LOCAL_WRITE"
    using assms(1) r(1) by (simp add: rkey_writable_def)
  have both: "mr_access_flags (mrs d p) AND (IB_ACCESS_LOCAL_WRITE OR IB_ACCESS_REMOTE_WRITE) =
      IB_ACCESS_LOCAL_WRITE OR IB_ACCESS_REMOTE_WRITE"
    by (simp only: bit.conj_disj_distrib l w)
  note g = span_grants [OF r both assms(2)] and g' = span_grants [OF r w assms(2)]
  have "fst (mr_copy_data (mrs d p) bs (of_nat a - mr_start (mrs d p)) (of_nat (length bs)) 0 0 PIB_MR_COPY_TO (mem d)) = None"
    using mr_copy_data_user(2) [OF _ in_region_pinned [OF g(2) r(2)]] r(2) g(5) by (simp add: mr_region_ok_def)
  then show ?thesis
    using copy_data_with_rkey_granted [OF g(1), of bs PIB_MR_COPY_TO False]
      copy_data_with_rkey_granted [OF g'(1), of bs PIB_MR_COPY_TO False]
    by (simp add: rkey_store_def pib_util_mr_copy_data_with_rkey_def split_beta)
qed

text \<open>What the responder needs of a queue pair from packet to packet; acknowledgements are not part of it.\<close>

definition rsp_core :: "pib_qp \<Rightarrow> ib_qp_attr \<times> nat \<times> ib_qp_state \<times> (u32 \<times> u8) \<times> u32 \<times> u64 \<times> u32 \<times> u32" where
  "rsp_core qp = (qp_attr qp, qp_pd qp, qp_state qp, position qp, rsp_offset (responder qp),
     rdma_write_vaddr (responder qp), rdma_write_rkey (responder qp), rdma_write_dmalen (responder qp))"

lemma rsp_core_push_ack [mem_frame]: "rsp_core (snd (push_ack ack s)) = rsp_core (snd s)"
  by (cases s) (simp add: push_ack_def kmem_alloc_def rsp_core_def position_def split: list.split bool.split)

lemma rsp_core_push_acknowledge [mem_frame]:
  "rsp_core (snd (push_acknowledge psn syndrome s)) = rsp_core (snd s)"
  by (simp add: push_acknowledge_def Let_def split_beta mem_frame) (simp add: rsp_core_def position_def)

lemma write_payload_step:
  assumes "fr_min f \<le> length data" "length data \<le> fr_max f" "\<not> fr_with_imm f" "0 < length data"
    and "rsp_offset (responder qp) = of_nat off" "rdma_write_dmalen (responder qp) = of_nat len" "off + length data \<le> len"
    and "len \<le> 2 ^ 30" "fr_finit f \<longrightarrow> off + length data = len" "rdma_write_vaddr (responder qp) = of_nat a"
    and "rkey_writable (qp_pd qp) (rdma_write_rkey (responder qp)) d"
    and "rkey_span (qp_pd qp) (rdma_write_rkey (responder qp)) d (a + off) (length data)"
  shows "\<exists>d' qp'. write_payload f psn imm lrh bth data (d, qp) = (1, d', qp') \<and>
    memory d' = memory (rkey_store (qp_pd qp) (rdma_write_rkey (responder qp)) d (a + off) data) \<and>
    rsp_core qp' = rsp_core (upd_rsp (rsp_offset_update (\<lambda>_. of_nat (off + length data))) qp)"
proof -
  let ?r = "responder qp"
  obtain out where c: "pib_util_mr_copy_data_with_rkey d (qp_pd qp) (rdma_write_rkey ?r) data (of_nat (a + off)) (of_nat (length data))
      (IB_ACCESS_LOCAL_WRITE OR IB_ACCESS_REMOTE_WRITE) PIB_MR_COPY_TO =
      (IB_WC_SUCCESS, out, rkey_store (qp_pd qp) (rdma_write_rkey ?r) d (a + off) data)"
    using rkey_write [OF assms(11,12)] by blast
  have small: "off + length data < 2 ^ 32" "len < 2 ^ 32" using assms(7,8) by simp_all
  then have u: "unat (of_nat (off + length data) :: u32) = off + length data" "unat (of_nat len :: u32) = len"
    using unat_of_nat_small [of "off + length data", where 'a = 32] unat_of_nat_small [of len, where 'a = 32] by simp_all
  have words: "rsp_offset ?r + of_nat (length data) = of_nat (off + length data)"
      "rdma_write_vaddr ?r + ucast (rsp_offset ?r) = of_nat (a + off)"
      "(ucast (of_nat (length data) :: u32) :: u64) = of_nat (length data)"
    using small by (simp_all add: assms(5,10) ucast_of_nat_64)
  have tests: "\<not> (length data < fr_min f \<or> fr_max f < length data)"
      "\<not> rdma_write_dmalen ?r < rsp_offset ?r + of_nat (length data)"
      "\<not> (fr_finit f \<and> rdma_write_dmalen ?r \<noteq> rsp_offset ?r + of_nat (length data))"
    unfolding words assms(6) using u assms(1,2,7-9) by (auto simp only: word_less_nat_alt)
  have limit: "\<not> PIB_MAX_PAYLOAD_LEN < (ucast (rdma_write_dmalen ?r) :: u64)"
    using u(2) assms(8) by (simp add: payload_limit unat_ucast_64 assms(6))
  define t where "t = push_acknowledge psn PIB_SYND_ACK_CODE (rkey_store (qp_pd qp) (rdma_write_rkey ?r) d (a + off) data,
       upd_rsp (\<lambda>r. r \<lparr> rsp_offset := rsp_offset r + of_nat (length data) \<rparr>) qp)"
  have "write_payload f psn imm lrh bth data (d, qp) = (1, t)"
    unfolding write_payload_def prod.case Let_def if_not_P [OF tests(1)] if_not_P [OF tests(2)] if_not_P [OF tests(3)]
      if_not_P [OF limit] words(2,3) c t_def
    by (simp add: assms(3))
  moreover have "memory (fst t) = memory (rkey_store (qp_pd qp) (rdma_write_rkey ?r) d (a + off) data)"
    by (simp add: t_def mem_frame)
  moreover have "rsp_core (snd t) = rsp_core (upd_rsp (rsp_offset_update (\<lambda>_. of_nat (off + length data))) qp)"
    by (simp add: t_def mem_frame) (simp add: rsp_core_def position_def assms(5))
  ultimately show ?thesis by (intro exI [of _ "fst t"] exI [of _ "snd t"]) simp
qed

context segment_memory
begin

lemma store_segments_snoc:
  "store_segments d a (segs @ [seg]) = store (store_segments d a segs) (a + length (concat segs)) seg"
  by (induction segs arbitrary: d a) (simp_all add: add.assoc)

end

lemma rkey_store_frame:
  "mrs (rkey_store pd rkey d a bs) = mrs d" "pds (rkey_store pd rkey d a bs) = pds d"
  "module (rkey_store pd rkey d a bs) = module d"
  by (simp_all add: rkey_store_def pib_util_mr_copy_data_with_rkey_def copy_data_with_rkey_def Let_def split: option.split prod.split)

lemma write_frame_op:
  assumes "k < n"
  shows "fr_init (write_frame (write_op n k) mtu) \<longleftrightarrow> k = 0" "fr_finit (write_frame (write_op n k) mtu) \<longleftrightarrow> n = Suc k"
    "\<not> fr_with_imm (write_frame (write_op n k) mtu)" "fr_max (write_frame (write_op n k) mtu) = mtu"
    "fr_min (write_frame (write_op n k) mtu) = (if n = 1 then 0 else if n = Suc k then 1 else mtu)"
  using assms by (auto simp: write_op_def write_frame_def)

lemma write_op_in_order:
  assumes "k < n" "if k = 0 then flag_set (attr_OpCode oob prev) PIB_ENDING_OPCODE else prev = write_op n (k - 1)"
  shows "pib_opcode_is_in_order_sequence oob (write_op n k) prev" "write_op n k \<in> write_opcodes" "write_op n k \<notin> send_opcodes"
  using assms by (auto simp: write_op_def pib_opcode_is_in_order_sequence_def Let_def attr_OpCode_def attr_OpCode_table_def split: if_splits)

text \<open>The state of the responder when \<open>k\<close> packets of the message have arrived.\<close>

definition writing :: "pib_dev \<Rightarrow> pib_qp \<Rightarrow> pib_send_wqe \<Rightarrow> u8 list \<Rightarrow> nat \<Rightarrow> pib_dev \<times> pib_qp \<Rightarrow> bool" where
  "writing d0 qp0 w msg k = (\<lambda>(d, qp).
    mem d = mem (rkeymem.store_segments (qp_pd qp0) (rdma_rkey w) d0 (unat (rdma_remote_addr w))
                 (map (segment (mtu_of qp0) msg) [0..<k])) \<and>
    mrs d = mrs d0 \<and> pds d = pds d0 \<and> module d = module d0 \<and>
    qp_attr qp = qp_attr qp0 \<and> qp_pd qp = qp_pd qp0 \<and> qp_state qp = qp_state qp0 \<and>
    get_psn_diff (based_psn (processing w) + of_nat k) (rsp_psn (responder qp)) = 0 \<and>
    (if k = 0 then flag_set (attr_OpCode (attr_oob (module d0)) (last_OpCode (responder qp))) PIB_ENDING_OPCODE
     else last_OpCode (responder qp) = write_op (num_segments (mtu_of qp0) msg) (k - 1) \<and>
       rsp_offset (responder qp) = of_nat (min (k * mtu_of qp0) (length msg)) \<and>
       rdma_write_vaddr (responder qp) = rdma_remote_addr w \<and> rdma_write_rkey (responder qp) = rdma_rkey w \<and>
       rdma_write_dmalen (responder qp) = of_nat (length msg)))"

lemma get_psn_diff_Suc: "get_psn_diff (a + 1) (b + 1) = get_psn_diff a b"
  by (simp add: get_psn_diff_def)

lemma rkey_same_regions:
  assumes "mrs d = mrs d0" "pds d = pds d0"
  shows "rkey_open pd rkey d = rkey_open pd rkey d0" "rkey_writable pd rkey d = rkey_writable pd rkey d0"
    "rkey_span pd rkey d a n = rkey_span pd rkey d0 a n"
  using assms by (simp_all add: rkey_open_def rkey_writable_def rkey_span_def mr_at_key_def)

lemma store_segments_regions:
  "mrs (rkeymem.store_segments pd rkey d a segs) = mrs d" "pds (rkeymem.store_segments pd rkey d a segs) = pds d"
  "module (rkeymem.store_segments pd rkey d a segs) = module d"
  by (induction segs arbitrary: d a) (simp_all add: rkey_store_frame)

lemma writing_step:
  assumes k: "k < num_segments (mtu_of qp0) msg" and st: "writing d0 qp0 w msg k (d, qp)"
    and len: "length msg \<le> 2 ^ 30" "unat (swqe_total_length w) = length msg" "path_mtu (qp_attr qp0) \<le> IB_MTU_4096"
    and state: "qp_state qp0 \<noteq> IB_QPS_RTR"
    and key: "rkey_writable (qp_pd qp0) (rdma_rkey w) d0"
      "rkey_span (qp_pd qp0) (rdma_rkey w) d0 (unat (rdma_remote_addr w)) (length msg)"
    and p: "bth_OpCode bth = write_op (num_segments (mtu_of qp0) msg) k"
      "bth_psn bth = (based_psn (processing w) + of_nat k) AND PIB_PSN_MASK"
      "data = (if k = 0 then reth_bytes \<lparr> reth_vaddr = rdma_remote_addr w, reth_rkey = rdma_rkey w,
         reth_dmalen = swqe_total_length w \<rparr> else []) @ segment (mtu_of qp0) msg k"
  shows "\<exists>s'. receive_request lrh bth data (d, qp) = Some s' \<and> writing d0 qp0 w msg (Suc k) s'"
proof -
  let ?n = "num_segments (mtu_of qp0) msg" and ?mtu = "mtu_of qp0" and ?a = "unat (rdma_remote_addr w)"
  let ?seg = "segment ?mtu msg k" and ?pd = "qp_pd qp0" and ?rkey = "rdma_rkey w" and ?psn = "bth_psn bth AND PIB_PSN_MASK"
  note b = segment_bounds [OF k, simplified]
  note s = st [unfolded writing_def prod.case]
  define qp1 where "qp1 = (if k = 0 then upd_rsp (\<lambda>r. r \<lparr> rsp_offset := 0, rdma_write_vaddr := rdma_remote_addr w,
      rdma_write_rkey := ?rkey, rdma_write_dmalen := swqe_total_length w \<rparr>) qp else qp)"
  have tot: "swqe_total_length w = of_nat (length msg)" using len(2) by (metis of_nat_unat ucast_id)
  have q: "qp_pd qp1 = ?pd" "rsp_offset (responder qp1) = of_nat (k * ?mtu)" "rdma_write_vaddr (responder qp1) = of_nat ?a"
      "rdma_write_rkey (responder qp1) = ?rkey" "rdma_write_dmalen (responder qp1) = of_nat (length msg)"
      "qp_attr qp1 = qp_attr qp0" "qp_state qp1 = qp_state qp0" "position qp1 = position qp"
    using s tot b(1) by (auto simp: qp1_def position_def min_def)
  let ?f = "write_frame (write_op ?n k) ?mtu"
  have sp: "rkey_span ?pd ?rkey d (?a + k * ?mtu) (length ?seg)"
    using rkeymem.granted_part [OF key(2), of "?a + k * ?mtu" "length ?seg"] b(2,5) s
    by (simp add: rkey_same_regions(3) [of d d0])
  have f: "fr_min ?f \<le> length ?seg" "length ?seg \<le> fr_max ?f" "\<not> fr_with_imm ?f" "0 < length ?seg"
      "fr_finit ?f \<longrightarrow> k * ?mtu + length ?seg = length msg"
    using b(2-4,6) by (auto simp: write_frame_op [OF k] Suc_le_eq)
  have wr: "rkey_writable ?pd ?rkey d" using key(1) s by (simp add: rkey_same_regions(2) [of d d0])
  obtain d' qp' where w: "write_payload ?f ?psn 0 lrh bth ?seg (d, qp1) = (1, d', qp')"
      "memory d' = memory (rkey_store ?pd ?rkey d (?a + k * ?mtu) ?seg)"
      "rsp_core qp' = rsp_core (upd_rsp (rsp_offset_update (\<lambda>_. of_nat (k * ?mtu + length ?seg))) qp1)"
    using write_payload_step [OF f(1-4) q(2,5) b(5) len(1) f(5) q(3), unfolded q(1,4), OF wr sp] by blast
  have pm: "unat (pmtu qp) = ?mtu" using unat_pmtu [of qp] s len(3) by simp
  have "receive_RDMA_WRITE_request ?psn (write_op ?n k) lrh bth data (d, qp) = (1, d', qp')"
    unfolding w(1) [symmetric] receive_RDMA_WRITE_request_def prod.case pm Let_def write_frame_op(1) [OF k]
    using f(3) by (simp add: p(3) qp1_def)
  then have r: "receive_request lrh bth data (d, qp) = Some (advance_responder (write_op ?n k) (1, d', qp'))"
    using write_op_in_order [of k ?n "attr_oob (module d0)" "last_OpCode (responder qp)"] k s state
    by (auto simp: receive_request_def Let_def p(1,2) issue_comm_est_event_def execute_request_def)
  have nxt: "k * ?mtu + length ?seg = min (Suc k * ?mtu) (length msg)"
    using segment_end [OF k] by simp
  have fields: "rsp_core qp' = rsp_core (upd_rsp (rsp_offset_update (\<lambda>_. of_nat (min (Suc k * ?mtu) (length msg)))) qp1)"
    using w(3) nxt by simp
  have "mem (rkey_store ?pd ?rkey d (?a + k * ?mtu) ?seg) =
      mem (rkeymem.store_segments ?pd ?rkey d0 ?a (map (segment ?mtu msg) [0..<Suc k]))"
  proof -
    let ?d = "rkeymem.store_segments ?pd ?rkey d0 ?a (map (segment ?mtu msg) [0..<k])"
    have m: "memory d = memory ?d" using s by (simp add: memory_def store_segments_regions)
    have "rkey_open ?pd ?rkey ?d" "rkey_span ?pd ?rkey ?d (?a + k * ?mtu) (length ?seg)"
      using key(1) sp s
      by (simp_all add: rkey_same_regions [OF store_segments_regions(1,2)] rkey_writable_def rkey_same_regions(3) [of d d0])
    note store = memory_rkey_store [OF m this]
    have "length (concat (map (segment ?mtu msg) [0..<k])) = k * ?mtu"
      using b(1) by (simp add: concat_segments)
    with store show ?thesis
      by (simp add: memory_def rkeymem.store_segments_snoc)
  qed
  moreover have f: "qp_attr qp' = qp_attr qp0" "qp_pd qp' = ?pd" "qp_state qp' = qp_state qp0"
      "rsp_psn (responder qp') = rsp_psn (responder qp)" "rsp_offset (responder qp') = of_nat (min (Suc k * ?mtu) (length msg))"
      "rdma_write_vaddr (responder qp') = rdma_remote_addr w" "rdma_write_rkey (responder qp') = ?rkey"
      "rdma_write_dmalen (responder qp') = of_nat (length msg)"
    using fields q by (simp_all add: rsp_core_def position_def)
  moreover have "mem d' = mem (rkey_store ?pd ?rkey d (?a + k * ?mtu) ?seg)" "mrs d' = mrs d0" "pds d' = pds d0" "module d' = module d0"
    using w(2) s by (simp_all add: memory_def rkey_store_frame)
  moreover have "get_psn_diff (based_psn (processing w) + of_nat (Suc k)) (rsp_psn (responder qp) + 1) = 0"
    using s get_psn_diff_Suc [of "based_psn (processing w) + of_nat k" "rsp_psn (responder qp)"] by (simp add: ac_simps)
  ultimately have "writing d0 qp0 w msg (Suc k) (advance_responder (write_op ?n k) (1, d', qp'))"
    by (simp add: writing_def advance_responder_def del: upt_Suc of_nat_Suc mult_Suc)
  with r show ?thesis by blast
qed

text \<open>The packets of a stream, in order, at the responder.  \<open>None\<close> is that the machine stopped.\<close>

definition deliver :: "packet option \<Rightarrow> (pib_dev \<times> pib_qp) option \<Rightarrow> (pib_dev \<times> pib_qp) option" where
  "deliver p s = Option.bind p (\<lambda>p. Option.bind s (receive_request (pkt_lrh p) (pkt_bth p) (pkt_rest p)))"

lemma deliver_Some [simp]: "deliver (Some p) (Some s) = receive_request (pkt_lrh p) (pkt_bth p) (pkt_rest p) s"
  by (simp add: deliver_def)

lemma writing_run:
  assumes "swqe_opcode w = IB_WR_RDMA_WRITE" "0 \<le> retry_cnt (processing w)" "0 \<le> rnr_retry (processing w)"
    and "unat (all_packets (processing w)) = num_segments (mtu_of qp) msg"
    and "length msg \<le> 2 ^ 30" "path_mtu (qp_attr qp) \<le> IB_MTU_4096"
    and "\<And>k. source_is (D k) (Q k) w msg \<and> path_mtu (qp_attr (Q k)) = path_mtu (qp_attr qp)"
    and "qp_state qp \<noteq> IB_QPS_RTR" "writing d qp w msg 0 (d, qp)"
    and "rkey_writable (qp_pd qp) (rdma_rkey w) d"
    and "rkey_span (qp_pd qp) (rdma_rkey w) d (unat (rdma_remote_addr w)) (length msg)"
  shows "k \<le> num_segments (mtu_of qp) msg \<Longrightarrow>
    \<exists>s. fold deliver (map (\<lambda>k. request_packet (D k) (Q k) w k) [0..<k]) (Some (d, qp)) = Some s \<and> writing d qp w msg k s"
proof (induction k)
  case 0
  with assms(9) show ?case by auto
next
  case (Suc k)
  let ?n = "num_segments (mtu_of qp) msg"
  have tot: "unat (swqe_total_length w) = length msg" using assms(7) by (simp add: source_is_def)
  from Suc obtain dk qpk where s: "fold deliver (map (\<lambda>k. request_packet (D k) (Q k) w k) [0..<k]) (Some (d, qp)) = Some (dk, qpk)"
    "writing d qp w msg k (dk, qpk)" by auto
  obtain p where p: "request_packet (D k) (Q k) w k = Some p" "bth_OpCode (pkt_bth p) = write_op ?n k"
      "bth_psn (pkt_bth p) = (based_psn (processing w) + of_nat k) AND PIB_PSN_MASK"
      "pkt_rest p = (if k = 0 then reth_bytes \<lparr> reth_vaddr = rdma_remote_addr w, reth_rkey = rdma_rkey w,
        reth_dmalen = swqe_total_length w \<rparr> else []) @ segment (mtu_of qp) msg k"
    using write_request_packet [OF assms(1-3), of "Q k" msg "D k" k] assms(4-7) Suc.prems by auto
  from writing_step [OF _ s(2) assms(5) tot assms(6,8,10,11) p(2-4), of "pkt_lrh p"] Suc.prems s(1) p(1) show ?case
    by auto
qed

text \<open>
  C1. RDMA WRITE works from end to end.  The requester cuts the message of a request into
  packets, one at a time, in whatever states \<open>D k\<close>, \<open>Q k\<close> of its device and queue pair; when they arrive in order at the
  responder, whose expected sequence number is the first one of the request, every one of
  them is accepted, no byte is lost, moved or written twice, and afterwards the addressed
  range of the region holds the message.  The responder then expects the number behind the request.
\<close>

theorem rdma_write_delivers:
  assumes "swqe_opcode w = IB_WR_RDMA_WRITE" "0 \<le> retry_cnt (processing w)" "0 \<le> rnr_retry (processing w)"
    and "all_packets (processing w) = pib_get_num_of_packets IB_QPT_RC (path_mtu (qp_attr qp)) (swqe_total_length w)"
    and "msg \<noteq> []" "length msg \<le> 2 ^ 30" "path_mtu (qp_attr qp) \<le> IB_MTU_4096"
    and "\<And>k. source_is (D k) (Q k) w msg \<and> path_mtu (qp_attr (Q k)) = path_mtu (qp_attr qp)"
    and "get_psn_diff (based_psn (processing w)) (rsp_psn (responder qp)) = 0" "qp_state qp \<noteq> IB_QPS_RTR"
    and "flag_set (attr_OpCode (attr_oob (module d)) (last_OpCode (responder qp))) PIB_ENDING_OPCODE"
    and "rkey_writable (qp_pd qp) (rdma_rkey w) d"
    and "rkey_span (qp_pd qp) (rdma_rkey w) d (unat (rdma_remote_addr w)) (length msg)"
  shows "\<exists>d' qp'. fold deliver (map (\<lambda>k. request_packet (D k) (Q k) w k) [0..<unat (all_packets (processing w))]) (Some (d, qp)) =
      Some (d', qp') \<and>
    rkey_fetch (qp_pd qp) (rdma_rkey w) d' (unat (rdma_remote_addr w)) (length msg) = msg \<and>
    mrs d' = mrs d \<and> pds d' = pds d \<and> qp_state qp' = qp_state qp \<and>
    get_psn_diff (based_psn (processing w) + all_packets (processing w)) (rsp_psn (responder qp')) = 0"
proof -
  let ?n = "num_segments (mtu_of qp) msg" and ?a = "unat (rdma_remote_addr w)"
  have n: "unat (all_packets (processing w)) = ?n"
    using num_segments_word [OF assms(5) _ assms(7), of "swqe_total_length w"] assms(4,8) by (simp add: source_is_def)
  have "writing d qp w msg 0 (d, qp)" using assms(9,11) by (simp add: writing_def)
  from writing_run [where D = D and Q = Q, OF assms(1-3) n assms(6-8,10) this assms(12,13) order_refl]
  obtain d' qp' where e: "fold deliver (map (\<lambda>k. request_packet (D k) (Q k) w k) [0..<?n]) (Some (d, qp)) = Some (d', qp')"
    "writing d qp w msg ?n (d', qp')" by auto
  let ?segs = "map (segment (mtu_of qp) msg) [0..<?n]"
  let ?d = "rkeymem.store_segments (qp_pd qp) (rdma_rkey w) d ?a ?segs"
  have c: "concat ?segs = msg" by (rule concat_all_segments) simp
  have ne: "[] \<notin> set ?segs" using segment_bounds(2) [of _ "mtu_of qp" msg] by force
  from c assms(5) have "?segs \<noteq> []" by (metis concat.simps(1))
  with rkeymem.fetch_store_segments [of "qp_pd qp" "rdma_rkey w" d ?a ?segs] c ne assms(12,13)
  have "rkey_fetch (qp_pd qp) (rdma_rkey w) ?d ?a (length msg) = msg" by (simp add: rkey_writable_def)
  moreover have "memory d' = memory ?d"
    using e(2) by (simp add: writing_def memory_def store_segments_regions)
  ultimately have "rkey_fetch (qp_pd qp) (rdma_rkey w) d' ?a (length msg) = msg"
    using memory_rkey_fetch [of d' ?d "qp_pd qp" "rdma_rkey w" ?a "length msg"] assms(12,13)
    by (simp add: rkey_same_regions [OF store_segments_regions(1,2)] rkey_writable_def)
  moreover have "all_packets (processing w) = of_nat ?n" using n by (metis of_nat_unat ucast_id)
  ultimately show ?thesis
    using e n by (auto simp: writing_def)
qed

definition example_page_dev :: pib_dev where
  "example_page_dev = blank_dev \<lparr>
     mrs := (\<lambda>_. zero_mr \<lparr> mr_lkey := 0x500, mr_rkey := 0x500,
       mr_umem := Some \<lparr> umem_pages = [Some 0x10000], umem_offset = 0, umem_page_size = 4096 \<rparr>,
       mr_state := PIB_MR_VALID, mr_start := 0x1000, mr_length := 4096, mr_access_flags := 0xF \<rparr>),
     pds := (\<lambda>_. zero_pd \<lparr> mr_table := (\<lambda>_. None)(5 := Some 1) \<rparr>) \<rparr>"

lemma example_page_dev_key: "mr_at_key example_page_dev 0 0x500 = Some 1"
  by (simp add: mr_at_key_def example_page_dev_def key_index_def)

lemma example_page_dev_region:
  "mr_region_ok (mrs example_page_dev 1) \<lparr> umem_pages = [Some 0x10000], umem_offset = 0, umem_page_size = 4096 \<rparr> 12"
proof -
  have "inj_on (page_addr [Some 0x10000] (2 ^ 12)) {..<4096}"
    by (rule inj_onI) (simp add: page_addr_here of_nat_eq_u64)
  then show ?thesis
    by (simp add: mr_region_ok_def user_mr_def example_page_dev_def zero_mr_def)
qed

lemma example_page_dev_open: "rkey_open 0 0x500 example_page_dev"
  unfolding rkey_open_def
  by (intro exI conjI; (rule example_page_dev_key example_page_dev_region)?) (simp_all add: example_page_dev_def)

definition example_write_wqe :: pib_send_wqe where
  "example_write_wqe = zero_swqe \<lparr> swqe_opcode := IB_WR_RDMA_WRITE, swqe_send_flags := IB_SEND_INLINE, swqe_total_length := 300,
     swqe_inline_data := replicate 300 7, rdma_remote_addr := 0x1010, rdma_rkey := 0x500,
     processing := zero_processing \<lparr> all_packets := 2, retry_cnt := 7, rnr_retry := 7 \<rparr> \<rparr>"

definition example_write_qp :: pib_qp where
  "example_write_qp = zero_qp \<lparr> qp_type := IB_QPT_RC, qp_state := IB_QPS_RTS,
     qp_attr := (qp_attr zero_qp) \<lparr> path_mtu := 1 \<rparr>, responder := zero_responder \<lparr> last_OpCode := IB_OPCODE_SEND_ONLY \<rparr> \<rparr>"

theorem rdma_write_delivers_witness:
  "\<exists>d' qp'. fold deliver (map (request_packet blank_dev example_write_qp example_write_wqe) [0..<2])
      (Some (example_page_dev, example_write_qp)) = Some (d', qp') \<and>
    rkey_fetch 0 0x500 d' 0x1010 300 = replicate 300 7"
proof -
  have src: "source_is blank_dev example_write_qp example_write_wqe (replicate 300 7)"
    by (simp add: source_is_def example_write_wqe_def zero_swqe_def)
  have w: "rkey_writable 0 0x500 example_page_dev"
    using example_page_dev_open by (simp add: rkey_writable_def example_page_dev_def)
  have sp: "rkey_span 0 0x500 example_page_dev 0x1010 300"
    using example_page_dev_key by (simp add: rkey_span_def example_page_dev_def)
  show ?thesis
    using rdma_write_delivers [of example_write_wqe example_write_qp "replicate 300 7" "\<lambda>_. blank_dev" "\<lambda>_. example_write_qp"
        example_page_dev] src w sp
    by (auto simp: example_write_wqe_def example_write_qp_def zero_swqe_def zero_qp_def zero_responder_def zero_processing_def
        pib_get_num_of_packets_def attr_OpCode_def attr_OpCode_table_def)
qed

end
