(* ===== verification/Pib_RC_Read.thy ===== *)
theory Pib_RC_Read
  imports Pib_RC_Write
begin

text \<open>
  The response to an RDMA READ in \<^verbatim>\<open>driver/pib_rc.c\<close>: it leaves the responder packet by packet, reaches its
  end, and carries what the region holds.
\<close>

section \<open>An RDMA READ is answered to the end\<close>

text \<open>
  A responder that has sent too many packets of READ responses waits for a congestion
  notification of the requester, which sends them regularly; it is modelled here as arriving
  when the responder needs it.
\<close>

definition throttled :: "pib_qp \<Rightarrow> bool" where
  "throttled qp \<longleftrightarrow> PIB_MAX_CONTIG_READ_ACKS < rsp_nr_contig_read_acks (responder qp)"

definition next_response :: "pib_dev \<times> pib_qp \<Rightarrow> packet option \<times> pib_dev \<times> pib_qp" where
  "next_response s =
    (case pib_generate_rc_qp_acknowledge (if throttled (snd s) then receive_cnp_notify s else s) of
       (True, d, qp) \<Rightarrow> (send_buffer (thread d), d, qp)
     | (False, s) \<Rightarrow> (None, s))"

fun responses :: "nat \<Rightarrow> pib_dev \<times> pib_qp \<Rightarrow> packet option list \<times> pib_dev \<times> pib_qp" where
  "responses 0 s = ([], s)"
| "responses (Suc n) s = (let (ps, s) = responses n s; (p, s) = next_response s in (ps @ [p], s))"

lemma rkey_read:
  assumes "rkey_open pd rkey d" "rkey_span pd rkey d a n"
  shows "pib_util_mr_copy_data_with_rkey d pd rkey [] (of_nat a) (of_nat n) IB_ACCESS_REMOTE_READ PIB_MR_COPY_FROM =
    (IB_WC_SUCCESS, rkey_fetch pd rkey d a n, d)"
proof -
  obtain p u k where r: "mr_at_key d pd rkey = Some p" "mr_region_ok (mrs d p) u k" "mr_rkey (mrs d p) = rkey"
    and acc: "mr_access_flags (mrs d p) AND IB_ACCESS_REMOTE_READ = IB_ACCESS_REMOTE_READ"
    using assms(1) by (rule rkey_openE)
  note g = span_grants [OF r acc assms(2)]
  obtain out where c: "mr_copy_data (mrs d p) [] (of_nat a - mr_start (mrs d p)) (of_nat n) 0 0 PIB_MR_COPY_FROM (mem d) =
      (None, out, mem d)"
    using mr_copy_data_user(1) [OF _ in_region_pinned [OF g(2) r(2)]] r(2) by (simp add: mr_region_ok_def)
  then show ?thesis
    using copy_data_with_rkey_granted [OF g(1), of "[]" PIB_MR_COPY_FROM False]
    by (simp add: rkey_fetch_def pib_util_mr_copy_data_with_rkey_def)
qed

lemma rkey_fetch_segment:
  assumes "rkey_open pd rkey d" "rkey_span pd rkey d a len" "msg = rkey_fetch pd rkey d a len"
    and "k < num_segments mtu msg" "0 < mtu"
  shows "rkey_fetch pd rkey d (a + k * mtu) (length (segment mtu msg k)) = segment mtu msg k"
    "rkey_span pd rkey d (a + k * mtu) (length (segment mtu msg k))"
proof -
  obtain p u j where r: "mr_at_key d pd rkey = Some p" "mr_region_ok (mrs d p) u j" "mr_rkey (mrs d p) = rkey"
    and acc: "mr_access_flags (mrs d p) AND IB_ACCESS_REMOTE_READ = IB_ACCESS_REMOTE_READ"
    using assms(1) by (rule rkey_openE)
  note fetch = rkey_fetch_store_eq(1) [OF r acc]
  have len: "length msg = len" using fetch [OF assms(2)] assms(3) by simp
  note b = segment_bounds [OF assms(4,5)]
  show sp: "rkey_span pd rkey d (a + k * mtu) (length (segment mtu msg k))"
    using rkeymem.granted_part [OF assms(2), of "a + k * mtu" "length (segment mtu msg k)"] b(2,5) len by simp
  show "rkey_fetch pd rkey d (a + k * mtu) (length (segment mtu msg k)) = segment mtu msg k"
    unfolding fetch [OF sp]
    by (rule nth_equalityI) (auto simp: segment_def assms(3) fetch [OF assms(2)] less_diff_conv ac_simps)
qed

definition read_op :: "nat \<Rightarrow> nat \<Rightarrow> u8" where
  "read_op n k = (if n = 1 then IB_OPCODE_RDMA_READ_RESPONSE_ONLY else if k = 0 then IB_OPCODE_RDMA_READ_RESPONSE_FIRST
     else if Suc k < n then IB_OPCODE_RDMA_READ_RESPONSE_MIDDLE else IB_OPCODE_RDMA_READ_RESPONSE_LAST)"

lemma get_psn_diff_nat:
  assumes "k \<le> n" "n < 2 ^ 23"
  shows "get_psn_diff (b + of_nat n) (b + of_nat k) = int n - int k"
proof -
  have "b + of_nat n = (b + of_nat k) + of_int (int n - int k)" by simp
  then show ?thesis using get_psn_diff_add [of "int n - int k" "b + of_nat k"] assms by simp
qed

lemma psn_offset_nat:
  assumes "path_mtu (qp_attr qp) \<le> IB_MTU_4096" "k * mtu_of qp < 2 ^ 32"
  shows "drop_bit (path_mtu (qp_attr qp)) ((of_nat (k * mtu_of qp) :: u32) div 128) = of_nat k"
proof -
  have "unat (of_nat (k * mtu_of qp) :: u32) = k * mtu_of qp"
    by (rule unat_of_nat_small) (use assms(2) in simp)
  then have "unat (drop_bit (path_mtu (qp_attr qp)) ((of_nat (k * mtu_of qp) :: u32) div 128)) = k"
    using num_packets_word(1) [OF assms(1), of "of_nat (k * mtu_of qp)"] by (simp del: of_nat_mult)
  then show ?thesis by (metis of_nat_unat ucast_id)
qed

lemma read_response_opcode_nat:
  assumes "path_mtu (qp_attr qp) \<le> IB_MTU_4096" "k * mtu_of qp < 2 ^ 32" "k < n" "n < 2 ^ 23"
    and "ack_offset ack = of_nat (k * mtu_of qp)" "ack_expected_psn ack = ack_psn ack + of_nat n"
  shows "read_response_opcode qp ack = (read_op n k, read_op n k \<noteq> IB_OPCODE_RDMA_READ_RESPONSE_MIDDLE)"
proof -
  have "get_psn_diff (ack_expected_psn ack) (ack_psn ack) = int n"
    using get_psn_diff_nat [of 0 n "ack_psn ack"] assms(4,6) by simp
  moreover have "get_psn_diff (ack_expected_psn ack) (ack_psn ack + of_nat k) = int n - int k"
    using get_psn_diff_nat [of k n "ack_psn ack"] assms(3,4,6) by simp
  moreover have "(of_nat k :: u32) = 0 \<longleftrightarrow> k = 0" using of_nat_32_eq [of k 0] assms(3,4) by simp
  ultimately show ?thesis
    unfolding read_response_opcode_def assms(5) psn_offset_nat [OF assms(1,2)] Let_def using assms(3)
    by (simp add: read_op_def)
qed

text \<open>The first \<open>k\<close> packets of the response are out.\<close>

definition answering :: "pib_dev \<Rightarrow> pib_qp \<Rightarrow> pib_ack \<Rightarrow> pib_ack list \<Rightarrow> u8 list \<Rightarrow> nat \<Rightarrow> pib_dev \<times> pib_qp \<Rightarrow> bool" where
  "answering d0 qp0 ack acks msg k = (\<lambda>(d, qp).
    memory d = memory d0 \<and> qp_attr qp = qp_attr qp0 \<and> qp_pd qp = qp_pd qp0 \<and> qp_state qp = qp_state qp0 \<and>
    (if k < num_segments (mtu_of qp0) msg
     then ack_head (responder qp) = ack \<lparr> ack_offset := of_nat (k * mtu_of qp0) \<rparr> # acks \<and>
       rsp_nr_rd_atomic (responder qp) = rsp_nr_rd_atomic (responder qp0)
     else ack_head (responder qp) = acks \<and> rsp_nr_rd_atomic (responder qp) = rsp_nr_rd_atomic (responder qp0) - 1))"

definition response_data :: "packet \<Rightarrow> u8 list" where
  "response_data p = (if bth_OpCode (pkt_bth p) = IB_OPCODE_RDMA_READ_RESPONSE_MIDDLE then pkt_rest p
     else drop sizeof_aeth (pkt_rest p))"

lemma memory_thread [mem_frame]:
  "memory (write_buffer p d) = memory d" "memory (ready_packet port_num dlid qp trace d) = memory d"
  by (simp_all add: write_buffer_def ready_packet_def memory_def)

lemma pack_acknowledge_fields:
  "bth_OpCode (pkt_bth (pack_acknowledge_packet d qp OpCode psn aeth None)) = OpCode"
  "bth_psn (pkt_bth (pack_acknowledge_packet d qp OpCode psn aeth None)) = psn AND PIB_PSN_MASK"
  "pkt_rest (pack_acknowledge_packet d qp OpCode psn aeth None) = (case aeth of None \<Rightarrow> [] | Some s \<Rightarrow> aeth_bytes s)"
  by (simp_all add: pack_acknowledge_packet_def open_packet_def rc_bth_def set_packet_length_def Let_def
      pib_packet_bth_set_padcnt_def)

lemma length_aeth_bytes [simp]: "length (aeth_bytes s) = sizeof_aeth"
  by (simp add: aeth_bytes_def)

text \<open>One packet, in terms of what it reads.\<close>

lemma generate_RDMA_READ_response_data:
  assumes "read_response_opcode qp ack = (OpCode, with_aeth)"
    and "sz = (if ack_size ack - ack_offset ack < pmtu qp then ack_size ack - ack_offset ack else pmtu qp)"
    and "pib_util_mr_copy_data_with_rkey d (qp_pd qp) (ack_rkey ack) [] (ack_vaddress ack + ucast (ack_offset ack)) (ucast sz)
        IB_ACCESS_REMOTE_READ PIB_MR_COPY_FROM = (IB_WC_SUCCESS, seg, d)"
  shows "\<exists>p d'. generate_RDMA_READ_response ack (d, qp) = (ack \<lparr> ack_offset := ack_offset ack + sz \<rparr>, d',
      upd_rsp (\<lambda>r. r \<lparr> rsp_nr_contig_read_acks := rsp_nr_contig_read_acks r + 1 \<rparr>) qp) \<and>
    send_buffer (thread d') = Some p \<and> memory d' = memory d \<and> bth_OpCode (pkt_bth p) = OpCode \<and>
    bth_psn (pkt_bth p) = (ack_psn ack + drop_bit (path_mtu (qp_attr qp)) (ack_offset ack div 128)) AND PIB_PSN_MASK \<and>
    pkt_rest p = (if with_aeth then aeth_bytes PIB_SYND_ACK_CODE else []) @ seg"
proof -
  define p where "p = pack_acknowledge_packet d qp OpCode (ack_psn ack + drop_bit (path_mtu (qp_attr qp)) (ack_offset ack div 128))
      (if with_aeth then Some PIB_SYND_ACK_CODE else None) None"
  define q where "q = p \<lparr> pkt_lrh := pib_packet_lrh_set_pktlen
        (of_nat ((length (packet_bytes p) + unat ((sz + 3) AND NOT 3) + 4) div 4)) (pkt_lrh p),
      pkt_bth := pib_packet_bth_set_padcnt (ucast (((sz + 3) AND NOT 3) - sz)) (pkt_bth p) \<rparr>"
  define d' where "d' = ready_packet (attr_port_num (qp_attr qp)) (ah_dlid (ah_attr (qp_attr qp))) qp 0 (write_buffer (append_rest seg q) d)"
  have e: "generate_RDMA_READ_response ack (d, qp) = (ack \<lparr> ack_offset := ack_offset ack + sz \<rparr>, d',
      upd_rsp (\<lambda>r. r \<lparr> rsp_nr_contig_read_acks := rsp_nr_contig_read_acks r + 1 \<rparr>) qp)"
    unfolding generate_RDMA_READ_response_def Let_def prod.case assms(1) assms(2) [symmetric] assms(3) p_def [symmetric] q_def [symmetric]
    by (simp add: d'_def)
  have "bth_OpCode (pkt_bth q) = OpCode" "pkt_rest q = (if with_aeth then aeth_bytes PIB_SYND_ACK_CODE else [])"
      "bth_psn (pkt_bth q) = (ack_psn ack + drop_bit (path_mtu (qp_attr qp)) (ack_offset ack div 128)) AND PIB_PSN_MASK"
    by (simp_all add: q_def p_def pack_acknowledge_fields pib_packet_bth_set_padcnt_def)
  then show ?thesis
    using e by (intro exI [of _ "append_rest seg q"] exI [of _ d']) (simp add: d'_def mem_frame, simp add: write_buffer_def ready_packet_def)
qed

lemma response_size:
  assumes "k < num_segments (mtu_of qp) msg" "path_mtu (qp_attr qp) \<le> IB_MTU_4096" "length msg \<le> 2 ^ 30"
    and "sz = of_nat (length msg)" "off = of_nat (k * mtu_of qp)"
  shows "(if sz - off < pmtu qp then sz - off else pmtu qp) = of_nat (length (segment (mtu_of qp) msg k))"
proof -
  note b = segment_bounds [OF assms(1), simplified]
  have "unat (of_nat (length msg - k * mtu_of qp) :: u32) = length msg - k * mtu_of qp"
    by (rule unat_of_nat_small) (use assms(3) in simp)
  moreover have "sz - off = of_nat (length msg - k * mtu_of qp)"
    using b(1) assms(4,5) by (simp add: of_nat_diff)
  moreover have "pmtu qp = of_nat (mtu_of qp)" using unat_pmtu [OF assms(2)] by (metis of_nat_unat ucast_id)
  moreover have "length (segment (mtu_of qp) msg k) = min (length msg - k * mtu_of qp) (mtu_of qp)" by (simp add: segment_def)
  ultimately show ?thesis
    using unat_pmtu [OF assms(2)] by (simp add: word_less_nat_alt min_def)
qed

lemma response_copy:
  assumes "k < num_segments mtu msg" "0 < mtu" "length msg \<le> 2 ^ 30"
    and "rkey_open pd rkey d" "rkey_span pd rkey d (unat vaddr) (length msg)" "msg = rkey_fetch pd rkey d (unat vaddr) (length msg)"
  shows "pib_util_mr_copy_data_with_rkey d pd rkey [] (vaddr + ucast (of_nat (k * mtu) :: u32))
      (ucast (of_nat (length (segment mtu msg k)) :: u32)) IB_ACCESS_REMOTE_READ PIB_MR_COPY_FROM =
    (IB_WC_SUCCESS, segment mtu msg k, d)"
proof -
  note b = segment_bounds [OF assms(1,2)]
  have "ucast (of_nat (k * mtu) :: u32) = (of_nat (k * mtu) :: u64)"
      "ucast (of_nat (length (segment mtu msg k)) :: u32) = (of_nat (length (segment mtu msg k)) :: u64)"
    using b(1,5) assms(3) by (intro ucast_of_nat_64; simp)+
  moreover have "vaddr + of_nat (k * mtu) = of_nat (unat vaddr + k * mtu)" by simp
  ultimately show ?thesis
    using rkey_read [OF assms(4) rkey_fetch_segment(2) [OF assms(4-6,1,2)]] rkey_fetch_segment(1) [OF assms(4-6,1,2)]
    by (simp only:)
qed

lemma answering_step:
  assumes k: "k < num_segments (mtu_of qp0) msg" and st: "answering d0 qp0 ack acks msg k s"
    and mtu: "path_mtu (qp_attr qp0) \<le> IB_MTU_4096" and n: "num_segments (mtu_of qp0) msg < 2 ^ 23" and len: "length msg \<le> 2 ^ 30"
    and ok: "pib_is_recv_ok (qp_state qp0)"
    and ack: "ack_type ack = PIB_ACK_RMDA_READ" "ack_size ack = of_nat (length msg)"
      "ack_expected_psn ack = ack_psn ack + of_nat (num_segments (mtu_of qp0) msg)"
    and key: "rkey_open (qp_pd qp0) (ack_rkey ack) d0"
      "rkey_span (qp_pd qp0) (ack_rkey ack) d0 (unat (ack_vaddress ack)) (length msg)"
      "msg = rkey_fetch (qp_pd qp0) (ack_rkey ack) d0 (unat (ack_vaddress ack)) (length msg)"
  shows "\<exists>p s'. next_response s = (Some p, s') \<and> answering d0 qp0 ack acks msg (Suc k) s' \<and>
    bth_OpCode (pkt_bth p) = read_op (num_segments (mtu_of qp0) msg) k \<and>
    bth_psn (pkt_bth p) = (ack_psn ack + of_nat k) AND PIB_PSN_MASK \<and> response_data p = segment (mtu_of qp0) msg k"
proof -
  let ?n = "num_segments (mtu_of qp0) msg" and ?mtu = "mtu_of qp0" and ?a = "unat (ack_vaddress ack)" and ?pd = "qp_pd qp0"
  let ?seg = "segment ?mtu msg k" and ?ack = "ack \<lparr> ack_offset := of_nat (k * mtu_of qp0) \<rparr>"
  obtain d qp where s: "(if throttled (snd s) then receive_cnp_notify s else s) = (d, qp)" by force
  have q: "answering d0 qp0 ack acks msg k (d, qp)" "\<not> throttled qp"
    using st s by (auto simp: answering_def receive_cnp_notify_def throttled_def split: prod.splits if_splits)
  then have f: "memory d = memory d0" "qp_attr qp = qp_attr qp0" "qp_pd qp = ?pd" "qp_state qp = qp_state qp0"
      "ack_head (responder qp) = ?ack # acks" "rsp_nr_rd_atomic (responder qp) = rsp_nr_rd_atomic (responder qp0)"
    using k by (simp_all add: answering_def)
  note b = segment_bounds [OF k, simplified]
  have small: "k * ?mtu < 2 ^ 32" "length msg < 2 ^ 32" using b(1) len by simp_all
  have op: "read_response_opcode qp ?ack = (read_op ?n k, read_op ?n k \<noteq> IB_OPCODE_RDMA_READ_RESPONSE_MIDDLE)"
    using read_response_opcode_nat [of qp k ?n ?ack] mtu small(1) k n ack(3) f(2) by simp
  have sz: "of_nat (length ?seg) = (if ack_size ?ack - ack_offset ?ack < pmtu qp then ack_size ?ack - ack_offset ?ack else pmtu qp)"
    using response_size [of k qp msg "ack_size ?ack" "ack_offset ?ack"] k mtu len ack(2) f(2) by simp
  have key': "rkey_open ?pd (ack_rkey ack) d" "rkey_span ?pd (ack_rkey ack) d ?a (length msg)"
      "msg = rkey_fetch ?pd (ack_rkey ack) d ?a (length msg)"
    using memory_rkey [OF f(1)] memory_rkey_fetch [OF f(1) key(1,2)] key by simp_all
  have copy: "pib_util_mr_copy_data_with_rkey d (qp_pd qp) (ack_rkey ?ack) [] (ack_vaddress ?ack + ucast (ack_offset ?ack))
      (ucast (of_nat (length ?seg) :: u32)) IB_ACCESS_REMOTE_READ PIB_MR_COPY_FROM = (IB_WC_SUCCESS, ?seg, d)"
    using response_copy [OF k _ len key'] by (simp add: f(3) del: of_nat_mult)
  obtain p d' where g: "generate_RDMA_READ_response ?ack (d, qp) = (?ack \<lparr> ack_offset := ack_offset ?ack + of_nat (length ?seg) \<rparr>, d',
      upd_rsp (\<lambda>r. r \<lparr> rsp_nr_contig_read_acks := rsp_nr_contig_read_acks r + 1 \<rparr>) qp)"
    and p: "send_buffer (thread d') = Some p" "memory d' = memory d" "bth_OpCode (pkt_bth p) = read_op ?n k"
      "bth_psn (pkt_bth p) = (ack_psn ?ack + drop_bit (path_mtu (qp_attr qp)) (ack_offset ?ack div 128)) AND PIB_PSN_MASK"
      "pkt_rest p = (if read_op ?n k \<noteq> IB_OPCODE_RDMA_READ_RESPONSE_MIDDLE then aeth_bytes PIB_SYND_ACK_CODE else []) @ ?seg"
    using generate_RDMA_READ_response_data [OF op sz copy] by blast
  have "bth_psn (pkt_bth p) = (ack_psn ack + of_nat k) AND PIB_PSN_MASK"
    using p(4) psn_offset_nat [of qp k] mtu small(1) f(2) by (simp del: of_nat_mult)
  moreover have "response_data p = ?seg" using p(3,5) by (simp add: response_data_def)
  moreover have "answering d0 qp0 ack acks msg (Suc k) (snd (next_response s)) \<and> fst (next_response s) = Some p"
  proof -
    let ?off = "of_nat (k * ?mtu + length ?seg) :: u32"
    have off: "ack_offset ?ack + of_nat (length ?seg) = ?off" by simp
    have "unat ?off = k * ?mtu + length ?seg" "unat (of_nat (length msg) :: u32) = length msg"
      using small(2) b(5) by (auto intro!: unat_of_nat_small simp del: of_nat_add)
    then have more: "?off < ack_size ack \<longleftrightarrow> Suc k < ?n"
      using b(5,6) k by (auto simp: ack(2) word_less_nat_alt simp del: of_nat_add)
    have there: "?off = of_nat (Suc k * ?mtu)" if "Suc k < ?n"
      using that segment_bounds(1) [of "Suc k" ?mtu msg] segment_end [OF k]
      by (simp add: add.commute [of "k * ?mtu"] del: of_nat_add of_nat_mult)
    define qp1 where "qp1 = upd_rsp (\<lambda>r. r \<lparr> rsp_nr_contig_read_acks := rsp_nr_contig_read_acks r + 1 \<rparr>) qp"
    define qp2 where "qp2 = (if Suc k < ?n then upd_rsp (ack_head_update (\<lambda>_. ack \<lparr> ack_offset := ?off \<rparr> # acks)) qp1
        else upd_rsp (\<lambda>r. r \<lparr> ack_head := acks, rsp_nr_rd_atomic := rsp_nr_rd_atomic r - 1 \<rparr>) qp1)"
    have "generate_RDMA_READ_response ?ack (d, qp) = (ack \<lparr> ack_offset := ?off \<rparr>, d', qp1)"
      using g off by (simp add: qp1_def del: of_nat_add of_nat_mult)
    then have "pib_generate_rc_qp_acknowledge (d, qp) = (True, d', qp2)"
      using q(2) f(4) ok ack(1) more
      by (simp add: pib_generate_rc_qp_acknowledge_def throttled_def f(5) qp2_def Let_def del: of_nat_add of_nat_mult)
    then have "next_response s = (Some p, d', qp2)" by (simp add: next_response_def s p(1))
    moreover have "answering d0 qp0 ack acks msg (Suc k) (d', qp2)"
      using f p(2) there by (simp add: answering_def qp2_def qp1_def del: of_nat_add of_nat_mult)
    ultimately show ?thesis by simp
  qed
  ultimately show ?thesis using p(3) by (intro exI [of _ p] exI [of _ "snd (next_response s)"]) (auto simp: prod_eq_iff)
qed

lemma num_segments_small:
  assumes "1 \<le> path_mtu (qp_attr qp)" "0 < length msg" "length msg \<le> 2 ^ 30"
  shows "num_segments (mtu_of qp) msg < 2 ^ 23"
proof -
  have "(2 :: nat) ^ 1 \<le> 2 ^ path_mtu (qp_attr qp)" by (rule power_increasing) (use assms(1) in auto)
  then have m: "256 \<le> mtu_of qp" by simp
  have "num_segments (mtu_of qp) msg = (length msg - 1) div mtu_of qp + 1"
    using div_add_self1 [of "mtu_of qp" "length msg - 1"] assms(2) by (simp add: num_segments_def add.commute)
  also have "(length msg - 1) div mtu_of qp \<le> (length msg - 1) div 256"
    using m by (intro div_le_mono2) auto
  also have "\<dots> \<le> 2 ^ 30 div 256" using assms(3) by (intro div_le_mono) simp
  finally show ?thesis by simp
qed

lemma responses_run:
  assumes start: "answering d0 qp0 ack acks msg 0 s"
    and mtu: "path_mtu (qp_attr qp0) \<le> IB_MTU_4096" and n: "num_segments (mtu_of qp0) msg < 2 ^ 23" and len: "length msg \<le> 2 ^ 30"
    and ok: "pib_is_recv_ok (qp_state qp0)"
    and ack: "ack_type ack = PIB_ACK_RMDA_READ" "ack_size ack = of_nat (length msg)"
      "ack_expected_psn ack = ack_psn ack + of_nat (num_segments (mtu_of qp0) msg)"
    and key: "rkey_open (qp_pd qp0) (ack_rkey ack) d0"
      "rkey_span (qp_pd qp0) (ack_rkey ack) d0 (unat (ack_vaddress ack)) (length msg)"
      "msg = rkey_fetch (qp_pd qp0) (ack_rkey ack) d0 (unat (ack_vaddress ack)) (length msg)"
  shows "k \<le> num_segments (mtu_of qp0) msg \<Longrightarrow> \<exists>ps s'. responses k s = (map Some ps, s') \<and>
    answering d0 qp0 ack acks msg k s' \<and>
    map (\<lambda>p. bth_psn (pkt_bth p)) ps = map (\<lambda>k. (ack_psn ack + of_nat k) AND PIB_PSN_MASK) [0..<k] \<and>
    map response_data ps = map (segment (mtu_of qp0) msg) [0..<k]"
proof (induction k)
  case 0
  with start show ?case by (intro exI [of _ "[]"]) simp
next
  case (Suc k)
  then obtain ps s' where r: "responses k s = (map Some ps, s')" "answering d0 qp0 ack acks msg k s'"
    "map (\<lambda>p. bth_psn (pkt_bth p)) ps = map (\<lambda>k. (ack_psn ack + of_nat k) AND PIB_PSN_MASK) [0..<k]"
    "map response_data ps = map (segment (mtu_of qp0) msg) [0..<k]" by auto
  have k: "k < num_segments (mtu_of qp0) msg" using Suc.prems by simp
  from answering_step [OF k r(2) mtu n len ok ack key] obtain p s'' where
    p: "next_response s' = (Some p, s'')" "answering d0 qp0 ack acks msg (Suc k) s''"
      "bth_psn (pkt_bth p) = (ack_psn ack + of_nat k) AND PIB_PSN_MASK" "response_data p = segment (mtu_of qp0) msg k" by blast
  then show ?case
    using r by (intro exI [of _ "ps @ [p]"] exI [of _ s'']) simp
qed


definition example_read_ack :: pib_ack where
  "example_read_ack = zero_ack \<lparr> ack_type := PIB_ACK_RMDA_READ, ack_psn := 5, ack_expected_psn := 8, ack_vaddress := 0x1010,
     ack_rkey := 0x500, ack_size := 600 \<rparr>"

definition example_answer_qp :: pib_qp where
  "example_answer_qp = zero_qp \<lparr> qp_type := IB_QPT_RC, qp_state := IB_QPS_RTS, qp_attr := (qp_attr zero_qp) \<lparr> path_mtu := 1 \<rparr>,
     responder := zero_responder \<lparr> ack_head := [example_read_ack], rsp_nr_rd_atomic := 1 \<rparr> \<rparr>"


end
