(* ===== verification/Spec2Isabelle.thy ===== *)
theory Spec2Isabelle
  imports Pib_Switch Pib_Thread_Props Pib_RC_Read Pib_RC_Faults
begin

text \<open>
  Verification of pib, the pseudo InfiniBand HCA driver.
\<close>

end
